theory Spec2Isabelle
  imports Complex_Main "HOL-Library.AList"
begin

section \<open>Python values used by the model\<close>

text \<open>
  Exceptions are values: every \<open>raise\<close> of the source is a branch returning \<open>Inl\<close>.
  \<open>ValueError\<close> carries its message. \<open>RepositoryAnalysisFailed e\<close> is the
  \<open>Exception(f"Repository analysis failed: {str(e)}")\<close> that \<open>analyze_repository\<close>
  raises for a caught exception \<open>e\<close>.
\<close>

datatype py_error =
    KeyError
  | TypeError
  | IndexError
  | AttributeError
  | ZeroDivisionError
  | RuntimeError
  | ValueError string
  | RepositoryAnalysisFailed py_error

text \<open>
  A Python \<open>dict\<close> keeps its keys unique and iterates in insertion order. It is an
  association list here: \<open>d[k] = v\<close> is \<open>AList.update\<close> (in place when the key
  exists, appended otherwise), \<open>k in d\<close> is membership among the first components,
  and \<open>del d[k]\<close> raises \<open>KeyError\<close> on a missing key.
\<close>

type_synonym ('k, 'v) py_dict = "('k \<times> 'v) list"

definition dict_keys :: "('k, 'v) py_dict \<Rightarrow> 'k list" where
  "dict_keys d = map fst d"

definition dict_contains :: "('k, 'v) py_dict \<Rightarrow> 'k \<Rightarrow> bool" where
  "dict_contains d k = (k \<in> set (dict_keys d))"

definition dict_delitem :: "'k \<Rightarrow> ('k, 'v) py_dict \<Rightarrow> py_error + ('k, 'v) py_dict" where
  "dict_delitem k d = (if dict_contains d k then Inr (AList.delete k d) else Inl KeyError)"

text \<open>
  \<open>min(d, key=d.get)\<close>: the keys are visited in insertion order and the running
  minimum is replaced only by a strictly smaller value, so the first key among those
  with the least value is returned. On an empty dict \<open>min\<close> raises; the result is
  \<open>None\<close> there and the only caller guards the call.
\<close>

fun min_from :: "'k \<times> ('a::linorder) \<Rightarrow> ('k \<times> 'a) list \<Rightarrow> 'k \<times> 'a" where
  "min_from best [] = best"
| "min_from best (x # xs) = min_from (if snd x < snd best then x else best) xs"

fun dict_min_key :: "('k, 'a::linorder) py_dict \<Rightarrow> 'k option" where
  "dict_min_key [] = None"
| "dict_min_key (x # xs) = Some (fst (min_from x xs))"


section \<open>The cache engine (cache.py)\<close>

text \<open>
  Time is the reading of \<open>time.time()\<close>, a number of seconds. Each method takes the
  readings it makes as arguments, in the order the source makes them, so no
  assumption on the clock is built into the model.
\<close>

type_synonym time = rat

record 'v cache_entry =
  entry_value :: 'v
  expires_at :: time
  created_at :: time

record 'v repository_cache =
  cache :: "(string, 'v cache_entry) py_dict"
  access_times :: "(string, time) py_dict"
  max_size :: int
  default_ttl :: int
  hits :: nat
  misses :: nat

definition new_cache :: "int \<Rightarrow> int \<Rightarrow> 'v repository_cache" where
  "new_cache msize ttl =
     \<lparr>cache = [], access_times = [], max_size = msize, default_ttl = ttl, hits = 0, misses = 0\<rparr>"

text \<open>
  \<open>RepositoryCache.get\<close>. \<open>t_check\<close> is the reading compared with \<open>expires_at\<close>,
  \<open>t_access\<close> the one stored as last access. The result \<open>Some v\<close> is the returned
  value, \<open>None\<close> is Python's \<open>None\<close>. The state is returned also when a \<open>del\<close> raises, as
  the mutations made before it stay.
\<close>

definition cache_get ::
  "'v repository_cache \<Rightarrow> string \<Rightarrow> time \<Rightarrow> time \<Rightarrow> (py_error + 'v option) \<times> 'v repository_cache"
where
  "cache_get c key t_check t_access =
     (case map_of (cache c) key of
        Some entry \<Rightarrow>
          if t_check < expires_at entry then
            (Inr (Some (entry_value entry)),
             c\<lparr>hits := hits c + 1,
               access_times := AList.update key t_access (access_times c)\<rparr>)
          else
            (case dict_delitem key (cache c) of
               Inl e \<Rightarrow> (Inl e, c)
             | Inr cache' \<Rightarrow>
                 (case dict_delitem key (access_times c) of
                    Inl e \<Rightarrow> (Inl e, c\<lparr>cache := cache'\<rparr>)
                  | Inr times' \<Rightarrow>
                      (Inr None,
                       c\<lparr>cache := cache', access_times := times', misses := misses c + 1\<rparr>)))
      | None \<Rightarrow> (Inr None, c\<lparr>misses := misses c + 1\<rparr>))"

text \<open>\<open>RepositoryCache._evict_oldest\<close>.\<close>

definition evict_oldest :: "'v repository_cache \<Rightarrow> (py_error + unit) \<times> 'v repository_cache" where
  "evict_oldest c =
     (case dict_min_key (access_times c) of
        None \<Rightarrow> (Inr (), c)
      | Some oldest_key \<Rightarrow>
          (case dict_delitem oldest_key (cache c) of
             Inl e \<Rightarrow> (Inl e, c)
           | Inr cache' \<Rightarrow>
               (case dict_delitem oldest_key (access_times c) of
                  Inl e \<Rightarrow> (Inl e, c\<lparr>cache := cache'\<rparr>)
                | Inr times' \<Rightarrow> (Inr (), c\<lparr>cache := cache', access_times := times'\<rparr>))))"

text \<open>
  \<open>ttl or self.default_ttl\<close>: Python's \<open>or\<close> yields the right operand when the left
  one is falsy, that is for \<open>None\<close> and for \<open>0\<close>.
\<close>

definition effective_ttl :: "int option \<Rightarrow> int \<Rightarrow> int" where
  "effective_ttl ttl dflt = (case ttl of None \<Rightarrow> dflt | Some t \<Rightarrow> if t = 0 then dflt else t)"

text \<open>
  \<open>RepositoryCache.set\<close>. The three readings of the clock are those of
  \<open>expires_at\<close>, \<open>created_at\<close> and the access time, in this order.
\<close>

definition cache_set ::
  "'v repository_cache \<Rightarrow> string \<Rightarrow> 'v \<Rightarrow> int option \<Rightarrow> time \<Rightarrow> time \<Rightarrow> time
     \<Rightarrow> (py_error + unit) \<times> 'v repository_cache"
where
  "cache_set c key v ttl t_expiry t_created t_access =
     (case (if int (length (cache c)) \<ge> max_size c then evict_oldest c else (Inr (), c)) of
        (Inl e, c') \<Rightarrow> (Inl e, c')
      | (Inr _, c') \<Rightarrow>
          (Inr (),
           c'\<lparr>cache :=
                 AList.update key
                   \<lparr>entry_value = v,
                    expires_at = t_expiry + of_int (effective_ttl ttl (default_ttl c')),
                    created_at = t_created\<rparr>
                   (cache c'),
               access_times := AList.update key t_access (access_times c')\<rparr>))"

text \<open>\<open>RepositoryCache.clear\<close>.\<close>

definition cache_clear :: "'v repository_cache \<Rightarrow> 'v repository_cache" where
  "cache_clear c = c\<lparr>cache := [], access_times := [], hits := 0, misses := 0\<rparr>"

text \<open>
  The state a dict-based cache can be in: keys unique in both dicts (a property of
  \<open>dict\<close> itself), and the same keys in both.
\<close>

definition keys_agree :: "'v repository_cache \<Rightarrow> bool" where
  "keys_agree c \<longleftrightarrow>
     distinct (dict_keys (cache c)) \<and> distinct (dict_keys (access_times c)) \<and>
     set (dict_keys (cache c)) = set (dict_keys (access_times c))"

definition within_capacity :: "'v repository_cache \<Rightarrow> bool" where
  "within_capacity c \<longleftrightarrow> int (length (cache c)) \<le> max_size c"

text \<open>
  The state in which \<open>set\<close> stores the entry: the cache after the eviction step of
  \<open>set\<close>, which runs when the number of entries has reached \<open>max_size\<close>.
\<close>

definition after_evict :: "'v repository_cache \<Rightarrow> 'v repository_cache" where
  "after_evict c = (if int (length (cache c)) \<ge> max_size c then snd (evict_oldest c) else c)"

text \<open>
  A run of \<open>set\<close> calls, one per element \<open>(key, value, ttl, t_expiry, t_created,
  t_access)\<close>, and what one call stores when nothing is evicted.
\<close>

type_synonym 'v insertion = "string \<times> 'v \<times> int option \<times> time \<times> time \<times> time"

definition insert_all :: "'v repository_cache \<Rightarrow> 'v insertion list \<Rightarrow> 'v repository_cache" where
  "insert_all c ins =
     foldl (\<lambda>c (k, v, ttl, t_expiry, t_created, t_access).
              snd (cache_set c k v ttl t_expiry t_created t_access)) c ins"

definition stored_entry :: "int \<Rightarrow> 'v insertion \<Rightarrow> string \<times> 'v cache_entry" where
  "stored_entry dflt = (\<lambda>(k, v, ttl, t_expiry, t_created, t_access).
     (k, \<lparr>entry_value = v, expires_at = t_expiry + of_int (effective_ttl ttl dflt),
          created_at = t_created\<rparr>))"

definition stored_access :: "'v insertion \<Rightarrow> string \<times> time" where
  "stored_access = (\<lambda>(k, v, ttl, t_expiry, t_created, t_access). (k, t_access))"

section \<open>Strings and dynamic values\<close>

text \<open>
  Strings are lists of characters. The names the detectors look for are ASCII, and
  \<open>str.lower\<close> is modelled on ASCII letters; the other characters are left as they
  are. \<open>str_contains sub s\<close> is Python's \<open>sub in s\<close> on strings.
\<close>

definition char_lower :: "char \<Rightarrow> char" where
  "char_lower c =
     (let n = of_char c :: nat in if 65 \<le> n \<and> n \<le> 90 then char_of (n + 32) else c)"

definition str_lower :: "string \<Rightarrow> string" where
  "str_lower s = map char_lower s"

fun starts_with :: "string \<Rightarrow> string \<Rightarrow> bool" where
  "starts_with [] s = True"
| "starts_with (c # cs) [] = False"
| "starts_with (c # cs) (d # ds) = (c = d \<and> starts_with cs ds)"

fun str_contains :: "string \<Rightarrow> string \<Rightarrow> bool" where
  "str_contains sub [] = (sub = [])"
| "str_contains sub (c # cs) = (starts_with sub (c # cs) \<or> str_contains sub cs)"

text \<open>The decimal digits of a natural number, as an f-string prints a count.\<close>

function str_nat :: "nat \<Rightarrow> string" where
  "str_nat n =
     (if n < 10 then [char_of (48 + n)] else str_nat (n div 10) @ [char_of (48 + n mod 10)])"
  by pat_completeness auto
termination
  by (relation "measure id") auto

declare str_nat.simps [simp del]

text \<open>
  The values a report or a provider response is made of: \<open>None\<close>, booleans, integers,
  floats (as the rational they denote), strings, lists and dicts.
\<close>

datatype py_value =
    PNone
  | PBool bool
  | PInt int
  | PFloat rat
  | PStr string
  | PList "py_value list"
  | PDict "(string \<times> py_value) list"

text \<open>Python's truth value of an object, as \<open>if x:\<close> tests it.\<close>

fun truthy :: "py_value \<Rightarrow> bool" where
  "truthy PNone = False"
| "truthy (PBool b) = b"
| "truthy (PInt i) = (i \<noteq> 0)"
| "truthy (PFloat r) = (r \<noteq> 0)"
| "truthy (PStr s) = (s \<noteq> [])"
| "truthy (PList xs) = (xs \<noteq> [])"
| "truthy (PDict d) = (d \<noteq> [])"

section \<open>The deep analyzer (deep\_analyzer.py)\<close>

text \<open>
  The dict built by \<open>analyze_file_tree\<close> (and by \<open>_default_tree_analysis\<close>), with its
  eight keys. \<open>directory_structure\<close> maps a directory path to the names of the files
  in it.
\<close>

record tree_analysis =
  total_files :: int
  total_dirs :: int
  file_types :: "(string, int) py_dict"
  directory_structure :: "(string, string list) py_dict"
  config_files :: "string list"
  test_files :: "string list"
  doc_files :: "string list"
  max_depth :: int

text \<open>
  \<open>any(kw in d.lower() for d in dirs)\<close>, the test that six of the rules of
  \<open>detect_architecture_pattern\<close> are made of.
\<close>

definition any_dir_has :: "string \<Rightarrow> string list \<Rightarrow> bool" where
  "any_dir_has kw dirs = list_ex (\<lambda>d. str_contains kw (str_lower d)) dirs"

text \<open>The conditions of \<open>detect_architecture_pattern\<close>, one per \<open>if\<close> of the source.\<close>

definition is_mvc :: "tree_analysis \<Rightarrow> bool" where
  "is_mvc t =
     (let dirs = dict_keys (directory_structure t) in
      any_dir_has ''controller'' dirs \<and> any_dir_has ''model'' dirs \<and> any_dir_has ''view'' dirs)"

definition is_microservices :: "tree_analysis \<Rightarrow> bool" where
  "is_microservices t =
     (let dirs = dict_keys (directory_structure t) in
      any_dir_has ''services'' dirs \<or>
      length (filter (\<lambda>d. str_contains ''service'' (str_lower d)) dirs) > 2)"

definition is_ddd :: "tree_analysis \<Rightarrow> bool" where
  "is_ddd t =
     (let dirs = dict_keys (directory_structure t) in
      any_dir_has ''domain'' dirs \<and> any_dir_has ''infrastructure'' dirs)"

definition is_component_based :: "tree_analysis \<Rightarrow> bool" where
  "is_component_based t =
     (let dirs = dict_keys (directory_structure t) in
      any_dir_has ''components'' dirs \<or> list_ex (\<lambda>d. str_contains ''src/components'' d) dirs)"

text \<open>
  \<open>any(f for f in config_files if ...)\<close> yields the file names themselves, so a name
  counts when it passes the filter and is a non-empty string.
\<close>

definition is_api_first :: "tree_analysis \<Rightarrow> bool" where
  "is_api_first t =
     (let dirs = dict_keys (directory_structure t) in
      any_dir_has ''api'' dirs \<and>
      list_ex (\<lambda>f. f \<noteq> [])
        (filter (\<lambda>f. str_contains ''swagger'' (str_lower f) \<or> str_contains ''openapi'' (str_lower f))
           (config_files t)))"

definition is_monolithic :: "tree_analysis \<Rightarrow> bool" where
  "is_monolithic t = (max_depth t < 3 \<and> total_dirs t < 10)"

definition is_modular :: "tree_analysis \<Rightarrow> bool" where
  "is_modular t =
     (let dirs = dict_keys (directory_structure t) in
      any_dir_has ''modules'' dirs \<or> any_dir_has ''packages'' dirs)"

text \<open>\<open>DeepAnalyzer.detect_architecture_pattern\<close>: the chain of \<open>if ...: return\<close>.\<close>

definition detect_architecture_pattern :: "tree_analysis \<Rightarrow> string" where
  "detect_architecture_pattern t =
     (if is_mvc t then ''MVC (Model-View-Controller)''
      else if is_microservices t then ''Microservices Architecture''
      else if is_ddd t then ''Domain-Driven Design (DDD)''
      else if is_component_based t then ''Component-Based Architecture''
      else if is_api_first t then ''API-First Architecture''
      else if is_monolithic t then ''Monolithic Architecture''
      else if is_modular t then ''Modular Architecture''
      else ''Standard Project Structure'')"

text \<open>
  The reading of the spec: an ordered list of rules, each a condition and a label, of
  which the first satisfied one gives the label, and a fallback label.
\<close>

fun first_satisfied :: "(bool \<times> string) list \<Rightarrow> string \<Rightarrow> string" where
  "first_satisfied [] fallback = fallback"
| "first_satisfied ((holds, label) # rules) fallback =
     (if holds then label else first_satisfied rules fallback)"

definition spec_architecture_rules :: "tree_analysis \<Rightarrow> (bool \<times> string) list" where
  "spec_architecture_rules t =
     [(is_mvc t, ''MVC (Model-View-Controller)''),
      (is_microservices t, ''Microservices Architecture''),
      (is_ddd t, ''Domain-Driven Design (DDD)''),
      (is_component_based t, ''Component-Based Architecture''),
      (is_api_first t, ''API-First Architecture''),
      (is_monolithic t, ''Monolithic Architecture''),
      (is_modular t, ''Modular Architecture'')]"

text \<open>
  \<open>round(x, 1)\<close> as a number of tenths. Python rounds the float it is given to the
  nearest tenth; \<open>x\<close> is the exact value here. When \<open>x\<close> lies exactly halfway between
  two tenths the float that Python holds is slightly off the tie and the side it falls
  on is a matter of its binary digits: \<open>tie_up\<close> says which, and everything proved
  below holds for both.
\<close>

definition round_tenths :: "bool \<Rightarrow> rat \<Rightarrow> int" where
  "round_tenths tie_up x =
     (let f = \<lfloor>10 * x\<rfloor>; r = 10 * x - of_int f
      in if r < 1 / 2 then f else if 1 / 2 < r then f + 1 else if tie_up then f + 1 else f)"

text \<open>
  The block ``Calculate test coverage estimate'' of \<open>analyze_code_quality_detailed\<close>:
  the entries \<open>test_file_ratio\<close> (in percent, here as a number of tenths of a percent)
  and \<open>test_coverage\<close> of the \<open>quality\<close> dict. The other entries of the dict are
  computed apart from these two.
\<close>

definition test_file_ratio_tenths :: "bool \<Rightarrow> tree_analysis \<Rightarrow> int" where
  "test_file_ratio_tenths tie_up t =
     (if total_files t > 0 then
        round_tenths tie_up (of_nat (length (test_files t)) / of_int (total_files t) * 100)
      else 0)"

definition test_coverage :: "bool \<Rightarrow> tree_analysis \<Rightarrow> string" where
  "test_coverage tie_up t =
     (if total_files t > 0 then
        (let ratio = test_file_ratio_tenths tie_up t in
         if ratio > 300 then ''High (>30% test files)''
         else if ratio > 150 then ''Medium (15-30% test files)''
         else if ratio > 50 then ''Low (5-15% test files)''
         else ''Minimal (<5% test files)'')
      else ''Unknown'')"

section \<open>The project-health scorer (enhanced\_analyzer.py)\<close>

text \<open>
  What \<open>_calculate_health_score\<close> reads of an issue and of a pull request.
  \<open>issue_updated_at\<close> is the instant that \<open>datetime.fromisoformat\<close> makes of the
  field \<open>updated_at\<close>, in seconds; \<open>pr_merged_at\<close> is the field \<open>merged_at\<close>, absent or
  \<open>null\<close> for a pull request that was not merged.
\<close>

record issue =
  issue_state :: string
  issue_updated_at :: time

record pull_request =
  pr_merged_at :: "string option"

definition is_merged :: "pull_request \<Rightarrow> bool" where
  "is_merged pr = (case pr_merged_at pr of None \<Rightarrow> False | Some s \<Rightarrow> s \<noteq> [])"

text \<open>
  \<open>EnhancedAnalyzer._calculate_health_score\<close>, at the clock reading \<open>now\<close>. The two
  ratios are floats in the source and the exact quotients here: for lists of fewer
  than \<open>10^15\<close> elements a quotient of two lengths compares with the literals \<open>0.3\<close>
  and \<open>0.7\<close> as the exact fraction compares with \<open>3/10\<close> and \<open>7/10\<close>.
\<close>

definition calculate_health_score :: "time \<Rightarrow> issue list \<Rightarrow> pull_request list \<Rightarrow> int" where
  "calculate_health_score now issues prs =
     (let score = 50;
          score =
            (if issues \<noteq> [] then
               (let open_ratio =
                      (of_nat (length (filter (\<lambda>i. issue_state i = ''open'') issues)) :: rat)
                        / of_nat (length issues)
                in if open_ratio < 3 / 10 then score + 20
                   else if open_ratio > 7 / 10 then score - 20
                   else score)
             else score);
          score =
            (if prs \<noteq> [] then
               (let merged_ratio =
                      (of_nat (length (filter is_merged prs)) :: rat) / of_nat (length prs)
                in if merged_ratio > 7 / 10 then score + 15
                   else if merged_ratio < 3 / 10 then score - 15
                   else score)
             else score);
          recent_activity =
            length (filter (\<lambda>i. issue_updated_at i > now - 30 * 86400) issues);
          score = (if recent_activity > 5 then score + 15 else score)
      in max 0 (min 100 score))"

section \<open>Operations on dynamic values\<close>

text \<open>
  Sequencing of computations that may raise: the first exception ends the computation.
\<close>

definition and_then :: "py_error + 'a \<Rightarrow> ('a \<Rightarrow> py_error + 'b) \<Rightarrow> py_error + 'b" where
  "and_then m f = (case m of Inl e \<Rightarrow> Inl e | Inr x \<Rightarrow> f x)"

fun for_each :: "('a \<Rightarrow> py_error + 'b) \<Rightarrow> 'a list \<Rightarrow> py_error + 'b list" where
  "for_each f [] = Inr []"
| "for_each f (x # xs) =
     and_then (f x) (\<lambda>y. and_then (for_each f xs) (\<lambda>ys. Inr (y # ys)))"

text \<open>
  \<open>x.get(key, default)\<close> exists on dicts only; \<open>x[key]\<close> with a string key finds the
  key of a dict or raises \<open>KeyError\<close>, and is a \<open>TypeError\<close> on every other value;
  \<open>x[0]\<close> is the first element of a list or string, and on a dict it looks up the key
  \<open>0\<close>, which a dict decoded from a JSON object (string keys) does not have.
\<close>

fun py_get :: "py_value \<Rightarrow> string \<Rightarrow> py_value \<Rightarrow> py_error + py_value" where
  "py_get (PDict d) key dflt = Inr (case map_of d key of Some v \<Rightarrow> v | None \<Rightarrow> dflt)"
| "py_get _ key dflt = Inl AttributeError"

fun py_item :: "py_value \<Rightarrow> string \<Rightarrow> py_error + py_value" where
  "py_item (PDict d) key = (case map_of d key of Some v \<Rightarrow> Inr v | None \<Rightarrow> Inl KeyError)"
| "py_item _ key = Inl TypeError"

fun py_first :: "py_value \<Rightarrow> py_error + py_value" where
  "py_first (PList []) = Inl IndexError"
| "py_first (PList (v # vs)) = Inr v"
| "py_first (PStr []) = Inl IndexError"
| "py_first (PStr (c # cs)) = Inr (PStr [c])"
| "py_first (PDict d) = Inl KeyError"
| "py_first _ = Inl TypeError"

text \<open>
  \<open>x[:n]\<close> slices lists and strings. On a dict the slice is used as a key and the
  lookup raises (\<open>TypeError\<close>, unhashable slice; \<open>KeyError\<close> from Python 3.12 on):
  an exception in either case, \<open>TypeError\<close> here.
\<close>

fun py_slice_to :: "nat \<Rightarrow> py_value \<Rightarrow> py_error + py_value" where
  "py_slice_to n (PList xs) = Inr (PList (take n xs))"
| "py_slice_to n (PStr s) = Inr (PStr (take n s))"
| "py_slice_to n _ = Inl TypeError"

text \<open>Iteration: the elements of a list, the characters of a string, the keys of a dict.\<close>

fun py_iter :: "py_value \<Rightarrow> py_error + py_value list" where
  "py_iter (PList xs) = Inr xs"
| "py_iter (PStr s) = Inr (map (\<lambda>c. PStr [c]) s)"
| "py_iter (PDict d) = Inr (map (\<lambda>kv. PStr (fst kv)) d)"
| "py_iter _ = Inl TypeError"

fun py_len :: "py_value \<Rightarrow> py_error + nat" where
  "py_len (PList xs) = Inr (length xs)"
| "py_len (PStr s) = Inr (length s)"
| "py_len (PDict d) = Inr (length d)"
| "py_len _ = Inl TypeError"

text \<open>
  The element of a \<open>set\<close>: lists and dicts are unhashable, and numbers that compare
  equal (\<open>1\<close>, \<open>1.0\<close>, \<open>True\<close>) are one element.
\<close>

fun set_element :: "py_value \<Rightarrow> py_error + py_value" where
  "set_element (PList xs) = Inl TypeError"
| "set_element (PDict d) = Inl TypeError"
| "set_element (PBool b) = Inr (PFloat (if b then 1 else 0))"
| "set_element (PInt i) = Inr (PFloat (of_int i))"
| "set_element v = Inr v"

text \<open>\<open>sep.join(xs)\<close>: every element has to be a string.\<close>

fun str_of :: "py_value \<Rightarrow> py_error + string" where
  "str_of (PStr s) = Inr s"
| "str_of _ = Inl TypeError"

fun intersperse :: "string \<Rightarrow> string list \<Rightarrow> string" where
  "intersperse sep [] = []"
| "intersperse sep [s] = s"
| "intersperse sep (s # t # ts) = s @ sep @ intersperse sep (t # ts)"

definition py_join :: "string \<Rightarrow> py_value \<Rightarrow> py_error + string" where
  "py_join sep xs =
     and_then (py_iter xs) (\<lambda>items. and_then (for_each str_of items) (\<lambda>ss. Inr (intersperse sep ss)))"

text \<open>\<open>s.split(c)\<close> and \<open>s.strip(c)\<close> for a one-character \<open>c\<close>, and \<open>s.replace('Z', '+00:00')\<close>.\<close>

fun split_on :: "char \<Rightarrow> string \<Rightarrow> string list" where
  "split_on c [] = [[]]"
| "split_on c (x # xs) =
     (if x = c then [] # split_on c xs
      else (case split_on c xs of [] \<Rightarrow> [[x]] | w # ws \<Rightarrow> (x # w) # ws))"

definition strip_char :: "char \<Rightarrow> string \<Rightarrow> string" where
  "strip_char c s = rev (dropWhile (\<lambda>x. x = c) (rev (dropWhile (\<lambda>x. x = c) s)))"

definition replace_Z :: "string \<Rightarrow> string" where
  "replace_Z s = concat (map (\<lambda>c. if c = CHR ''Z'' then ''+00:00'' else [c]) s)"

text \<open>
  \<open>round(x, 2)\<close> on a float, by the hundredth; a tie falls as \<open>tie_up\<close> says (see
  \<open>round_tenths\<close>).
\<close>

definition round_hundredths :: "bool \<Rightarrow> rat \<Rightarrow> rat" where
  "round_hundredths tie_up x =
     (let f = \<lfloor>100 * x\<rfloor>; r = 100 * x - of_int f
      in of_int (if r < 1 / 2 then f else if 1 / 2 < r then f + 1 else if tie_up then f + 1 else f)
           / 100)"

text \<open>
  A \<open>datetime\<close>: its wall-clock fields as a number of seconds, and the offset of its
  \<open>tzinfo\<close> (\<open>None\<close> for a naive one). Two aware values compare and subtract by the
  instants they denote, two naive ones by their fields, and mixing them raises
  \<open>TypeError\<close>.
\<close>

record py_datetime =
  wall_seconds :: rat
  utc_offset :: "rat option"

definition dt_sub :: "py_datetime \<Rightarrow> py_datetime \<Rightarrow> py_error + rat" where
  "dt_sub a b =
     (case (utc_offset a, utc_offset b) of
        (Some oa, Some ob) \<Rightarrow> Inr ((wall_seconds a - oa) - (wall_seconds b - ob))
      | (None, None) \<Rightarrow> Inr (wall_seconds a - wall_seconds b)
      | _ \<Rightarrow> Inl TypeError)"

definition dt_less :: "py_datetime \<Rightarrow> py_datetime \<Rightarrow> py_error + bool" where
  "dt_less a b = and_then (dt_sub a b) (\<lambda>d. Inr (d < 0))"

text \<open>\<open>min\<close> of a non-empty list: a later element replaces the minimum when it is less.\<close>

fun dt_min_from :: "py_datetime \<Rightarrow> py_datetime list \<Rightarrow> py_error + py_datetime" where
  "dt_min_from best [] = Inr best"
| "dt_min_from best (x # xs) =
     and_then (dt_less x best) (\<lambda>less. dt_min_from (if less then x else best) xs)"

text \<open>
  What the model takes from the Python runtime: \<open>urlparse(url).path\<close>,
  \<open>datetime.fromisoformat\<close>, the wall-clock fields of \<open>datetime.now()\<close>, its
  \<open>isoformat()\<close>, and the side on which a rounding tie falls; \<open>str(x)\<close> of a value,
  which is what an f-string inserts for \<open>{x}\<close>, and the text that \<open>{x:.1f}\<close> inserts
  for a number; the order in which a \<open>set\<close> of strings is iterated (that of the
  hashes, which differ from run to run), given its elements; the pairs of
  \<open>Counter(x).most_common(n)\<close>, which raises when \<open>x\<close> cannot be counted or its
  counts cannot be compared; and group 1 of the match that \<open>re.search\<close> finds for
  the pattern of the installation heading in the README, \<open>None\<close> when there is no
  match.
\<close>

record runtime =
  url_path :: "string \<Rightarrow> string"
  fromisoformat :: "string \<Rightarrow> py_error + py_datetime"
  now_wall :: rat
  now_isoformat :: string
  ties_round_up :: bool
  py_str :: "py_value \<Rightarrow> string"
  format_1f :: "rat \<Rightarrow> string"
  set_iteration :: "string list \<Rightarrow> string list"
  most_common :: "nat \<Rightarrow> py_value \<Rightarrow> py_error + (py_value \<times> py_value) list"
  search_installation :: "string \<Rightarrow> string option"


section \<open>The GitHub client (github\_analyzer.py): parsing the locator\<close>

text \<open>\<open>GitHubAnalyzer.parse_repo_url\<close>.\<close>

definition parse_repo_url :: "runtime \<Rightarrow> string \<Rightarrow> py_error + (string \<times> string)" where
  "parse_repo_url rt repo_url =
     (if starts_with ''http'' repo_url then
        (let path_parts = split_on CHR ''/'' (strip_char CHR ''/'' (url_path rt repo_url)) in
         if length path_parts \<ge> 2 then Inr (path_parts ! 0, path_parts ! 1)
         else Inl (ValueError (''Invalid GitHub repository URL: '' @ repo_url)))
      else
        (let parts = split_on CHR ''/'' repo_url in
         if length parts = 2 then Inr (parts ! 0, parts ! 1)
         else Inl (ValueError (''Invalid GitHub repository URL: '' @ repo_url))))"


section \<open>The report assembler (repo\_processor.py)\<close>

text \<open>
  \<open>RepoProcessor._process_activity\<close>. The statements and the entries of the returned
  dict are evaluated in the order of the source, so the exception raised is the first
  one the source meets.
\<close>

definition commit_date :: "runtime \<Rightarrow> py_value \<Rightarrow> py_error + py_datetime" where
  "commit_date rt c =
     and_then (py_item c ''commit'') (\<lambda>cc.
     and_then (py_item cc ''author'') (\<lambda>a.
     and_then (py_item a ''date'') (\<lambda>d.
       (case d of PStr s \<Rightarrow> fromisoformat rt (replace_Z s) | _ \<Rightarrow> Inl AttributeError))))"

definition commit_frequency :: "runtime \<Rightarrow> py_datetime list \<Rightarrow> py_error + py_value" where
  "commit_frequency rt commit_dates =
     (case commit_dates of
        [] \<Rightarrow> Inr (PInt 0)
      | d0 # ds \<Rightarrow>
          and_then (dt_min_from d0 ds) (\<lambda>oldest.
          and_then (dt_sub \<lparr>wall_seconds = now_wall rt, utc_offset = utc_offset d0\<rparr> oldest)
            (\<lambda>age.
               let days_diff = \<lfloor>age / 86400\<rfloor> in
               Inr (if days_diff > 0
                    then PFloat (of_nat (length commit_dates) / of_int (max days_diff 1))
                    else PInt (int (length commit_dates))))))"

definition py_round2 :: "runtime \<Rightarrow> py_value \<Rightarrow> py_value" where
  "py_round2 rt v = (case v of PFloat x \<Rightarrow> PFloat (round_hundredths (ties_round_up rt) x) | _ \<Rightarrow> v)"

definition is_open_issue :: "py_value \<Rightarrow> py_error + bool" where
  "is_open_issue i =
     and_then (py_get i ''state'' PNone) (\<lambda>st.
       if st = PStr ''open''
       then and_then (py_get i ''pull_request'' PNone) (\<lambda>pr. Inr (\<not> truthy pr))
       else Inr False)"

definition is_open_pr :: "py_value \<Rightarrow> py_error + bool" where
  "is_open_pr pr = and_then (py_get pr ''state'' PNone) (\<lambda>st. Inr (st = PStr ''open''))"

definition author_login :: "py_value \<Rightarrow> py_error + py_value option" where
  "author_login c =
     and_then (py_get c ''author'' PNone) (\<lambda>a.
       if truthy a
       then and_then (py_item c ''author'') (\<lambda>a'.
            and_then (py_item a' ''login'') (\<lambda>l. Inr (Some l)))
       else Inr None)"

definition count_true :: "bool list \<Rightarrow> nat" where
  "count_true bs = length (filter (\<lambda>b. b) bs)"

definition process_activity ::
  "runtime \<Rightarrow> py_value \<Rightarrow> py_value \<Rightarrow> py_value \<Rightarrow> py_value \<Rightarrow> py_error + (string, py_value) py_dict"
where
  "process_activity rt commits issues pull_requests releases =
     and_then (py_slice_to 30 commits) (\<lambda>sliced.
     and_then (py_iter sliced) (\<lambda>recent_commits.
     and_then (for_each (commit_date rt) recent_commits) (\<lambda>commit_dates.
     and_then (commit_frequency rt commit_dates) (\<lambda>frequency.
     and_then (py_iter issues) (\<lambda>issue_list.
     and_then (for_each is_open_issue issue_list) (\<lambda>open_issues.
     and_then (py_iter pull_requests) (\<lambda>pr_list.
     and_then (for_each is_open_pr pr_list) (\<lambda>open_prs.
     and_then (if truthy releases
               then and_then (py_len releases)
                      (\<lambda>n. Inr (PStr (str_nat n @ '' releases total'')))
               else Inr (PStr ''No releases'')) (\<lambda>release_cadence.
     and_then (for_each author_login recent_commits) (\<lambda>logins.
     and_then (for_each set_element (map the (filter (\<lambda>l. l \<noteq> None) logins))) (\<lambda>elements.
     and_then (if truthy releases then py_first releases else Inr PNone) (\<lambda>latest_release.
       Inr [(''recent_commit_patterns'',
               PStr (str_nat (length recent_commits) @ '' commits in last 30'')),
            (''commit_frequency_per_day'', py_round2 rt frequency),
            (''release_cadence'', release_cadence),
            (''open_issues_count'', PInt (int (count_true open_issues))),
            (''open_pull_requests'', PInt (int (count_true open_prs))),
            (''pull_request_velocity'', PStr ''TBD - Requires temporal analysis''),
            (''contributor_activity'',
               PStr (str_nat (length (remdups elements)) @ '' active contributors'')),
            (''breaking_changes'', PStr ''TBD - Requires changelog analysis''),
            (''latest_release'', latest_release)]))))))))))))"

text \<open>
  \<open>RepoProcessor._process_activity_deep\<close>. \<open>breaking_message\<close> is the body of its loop
  over \<open>commits[:30]\<close>: the first line of the lower-cased message, cut at 100
  characters, when the message names a breaking change.
\<close>

definition breaking_message :: "py_value \<Rightarrow> py_error + string option" where
  "breaking_message commit =
     and_then (py_get commit ''commit'' (PDict [])) (\<lambda>cc.
     and_then (py_get cc ''message'' (PStr [])) (\<lambda>m.
       (case m of
          PStr s \<Rightarrow>
            (let message = str_lower s in
             if str_contains ''breaking'' message \<or> str_contains ''major'' message \<or>
                str_contains ''incompatible'' message
             then Inr (Some (take 100 (hd (split_on (CHR 0x0A) message))))
             else Inr None)
        | _ \<Rightarrow> Inl AttributeError)))"

definition set_if_present ::
  "py_value \<Rightarrow> string \<Rightarrow> string \<Rightarrow> (py_value \<Rightarrow> py_error + py_value)
     \<Rightarrow> (string, py_value) py_dict \<Rightarrow> py_error + (string, py_value) py_dict"
where
  "set_if_present deep_activity source_key target_key convert base =
     and_then (py_get deep_activity source_key PNone) (\<lambda>v.
       if truthy v
       then and_then (py_item deep_activity source_key) (\<lambda>v'.
            and_then (convert v') (\<lambda>w. Inr (AList.update target_key w base)))
       else Inr base)"

definition first_two_joined :: "py_value \<Rightarrow> py_error + py_value" where
  "first_two_joined v =
     and_then (py_slice_to 2 v) (\<lambda>two. and_then (py_join '', '' two) (\<lambda>s. Inr (PStr s)))"

definition process_activity_deep ::
  "runtime \<Rightarrow> py_value \<Rightarrow> py_value \<Rightarrow> py_value \<Rightarrow> py_value \<Rightarrow> py_value
     \<Rightarrow> py_error + (string, py_value) py_dict"
where
  "process_activity_deep rt commits issues prs releases deep_activity =
     and_then (process_activity rt commits issues prs releases) (\<lambda>base.
     and_then (py_get deep_activity ''avg_pr_merge_time'' (PStr ''Unknown'')) (\<lambda>velocity.
     and_then (py_get deep_activity ''issue_resolution_time'' (PStr ''Unknown'')) (\<lambda>resolution.
     and_then (py_get deep_activity ''commit_message_quality'' (PStr ''Unknown'')) (\<lambda>quality.
     let base = AList.update ''pull_request_velocity'' velocity base;
         base = AList.update ''issue_resolution_time'' resolution base;
         base = AList.update ''commit_message_quality'' quality base
     in
     and_then (set_if_present deep_activity ''peak_hours'' ''peak_development_hours''
                 first_two_joined base) (\<lambda>base.
     and_then (set_if_present deep_activity ''peak_days'' ''peak_development_days''
                 first_two_joined base) (\<lambda>base.
     and_then (set_if_present deep_activity ''contributor_distribution'' ''top_contributors''
                 Inr base) (\<lambda>base.
     and_then (py_slice_to 30 commits) (\<lambda>sliced.
     and_then (py_iter sliced) (\<lambda>recent.
     and_then (for_each breaking_message recent) (\<lambda>found.
       let breaking_changes = map (\<lambda>m. PStr (the m)) (filter (\<lambda>m. m \<noteq> None) found) in
       Inr (AList.update ''breaking_changes''
              (if breaking_changes \<noteq> [] then PList (take 3 breaking_changes)
               else PList [PStr ''No breaking changes detected in recent commits''])
              base)))))))))))"

text \<open>
  The dict that \<open>DeepAnalyzer.analyze_commit_activity\<close> starts from, and returns as it
  is when the commit list, the pull-request list and the issue list are all empty
  (each of its three blocks is guarded by the truth value of its list).
\<close>

definition default_activity :: py_value where
  "default_activity =
     PDict [(''commit_frequency'', PDict []),
            (''peak_hours'', PList []),
            (''peak_days'', PList []),
            (''avg_pr_merge_time'', PStr ''Unknown''),
            (''issue_resolution_time'', PStr ''Unknown''),
            (''contributor_distribution'', PDict []),
            (''commit_message_quality'', PStr ''Unknown'')]"

text \<open>
  The dict of \<open>DeepAnalyzer._default_tree_analysis\<close>, which \<open>analyze_file_tree\<close>
  returns when the tree of the repository cannot be fetched; the dict that
  \<open>analyze_dependencies_detailed\<close> starts from, and returns as it is for a repository
  without a package file; and the dict that \<open>analyze_code_quality_detailed\<close> starts
  from, and returns as it is for a tree without files and a branch without protection.
\<close>

definition default_tree_analysis :: py_value where
  "default_tree_analysis =
     PDict [(''total_files'', PInt 0),
            (''total_dirs'', PInt 0),
            (''file_types'', PDict []),
            (''directory_structure'', PDict []),
            (''config_files'', PList []),
            (''test_files'', PList []),
            (''doc_files'', PList []),
            (''max_depth'', PInt 0)]"

definition default_dependencies :: py_value where
  "default_dependencies =
     PDict [(''total_count'', PInt 0),
            (''direct_dependencies'', PDict []),
            (''dev_dependencies'', PDict []),
            (''outdated_check'', PList []),
            (''security_warnings'', PList []),
            (''package_managers'', PList [])]"

definition default_quality :: py_value where
  "default_quality =
     PDict [(''test_coverage'', PStr ''Unknown''),
            (''test_file_ratio'', PInt 0),
            (''documentation_coverage'', PInt 0),
            (''linting_config'', PList []),
            (''ci_cd_tools'', PList []),
            (''code_review_process'', PStr ''Unknown''),
            (''branch_protection'', PBool False)]"

text \<open>
  The dict with which \<open>GitHubAnalyzer._make_request\<close> answers when the request fails
  (rate limit, timeout, any request exception) instead of raising.
\<close>

definition degraded_response :: "string \<Rightarrow> py_value" where
  "degraded_response reason = PDict [(''error'', PStr reason), (''partial'', PBool True)]"

text \<open>
  The methods that \<open>analyze_repository\<close> and its section builders call and that are
  not embedded here, as functions of their arguments: the eleven \<open>get_...\<close> methods of
  the GitHub client, \<open>get_quick_insights\<close> of the optimized analyzer, and six methods
  of the deep analyzer, of which \<open>self.deep.detect_architecture_pattern\<close> and
  \<open>self.deep.identify_tech_debt_indicators\<close> are called by the section builders on
  the analyses as the deep analyzer returned them. Each returns a value or raises;
  those that send requests to the provider also give the number of requests they sent.
  Every statement below holds for all such functions.
\<close>

type_synonym 'a counted = "(py_error + 'a) \<times> nat"

record ops =
  get_repository_info :: "string \<Rightarrow> string \<Rightarrow> py_error + py_value"
  get_languages :: "string \<Rightarrow> string \<Rightarrow> py_error + py_value"
  get_contributors :: "string \<Rightarrow> string \<Rightarrow> py_error + py_value"
  get_commits :: "string \<Rightarrow> string \<Rightarrow> py_error + py_value"
  get_releases :: "string \<Rightarrow> string \<Rightarrow> py_error + py_value"
  get_issues :: "string \<Rightarrow> string \<Rightarrow> py_error + py_value"
  get_pull_requests :: "string \<Rightarrow> string \<Rightarrow> py_error + py_value"
  get_readme :: "string \<Rightarrow> string \<Rightarrow> py_error + py_value"
  get_package_json :: "string \<Rightarrow> string \<Rightarrow> py_error + py_value"
  get_requirements_txt :: "string \<Rightarrow> string \<Rightarrow> py_error + py_value"
  get_workflow_runs :: "string \<Rightarrow> string \<Rightarrow> py_error + py_value"
  get_quick_insights :: "string \<Rightarrow> string \<Rightarrow> py_value counted"
  analyze_file_tree :: "string \<Rightarrow> string \<Rightarrow> py_value counted"
  analyze_dependencies_detailed :: "string \<Rightarrow> string \<Rightarrow> py_value counted"
  analyze_code_quality_detailed :: "string \<Rightarrow> string \<Rightarrow> py_value \<Rightarrow> py_value counted"
  analyze_commit_activity :: "py_value \<Rightarrow> py_value \<Rightarrow> py_value \<Rightarrow> py_error + py_value"
  deep_detect_architecture_pattern :: "py_value \<Rightarrow> py_error + py_value"
  deep_identify_tech_debt_indicators ::
    "py_value \<Rightarrow> py_value \<Rightarrow> py_value \<Rightarrow> py_error + py_value"

section \<open>The section builders (repo\_processor.py)\<close>

text \<open>
  A number is an \<open>int\<close>, a \<open>float\<close> or a \<open>bool\<close> (which counts as 0 or 1); comparing
  anything else with a number, or adding it to one, raises \<open>TypeError\<close>.
\<close>

fun py_number :: "py_value \<Rightarrow> rat option" where
  "py_number (PBool b) = Some (if b then 1 else 0)"
| "py_number (PInt i) = Some (of_int i)"
| "py_number (PFloat r) = Some r"
| "py_number v = None"

definition py_greater :: "py_value \<Rightarrow> int \<Rightarrow> py_error + bool" where
  "py_greater v n = (case py_number v of Some x \<Rightarrow> Inr (of_int n < x) | None \<Rightarrow> Inl TypeError)"

definition py_less :: "py_value \<Rightarrow> int \<Rightarrow> py_error + bool" where
  "py_less v n = (case py_number v of Some x \<Rightarrow> Inr (x < of_int n) | None \<Rightarrow> Inl TypeError)"

text \<open>
  \<open>sum(xs)\<close> starts from \<open>0\<close>. Its result is used as a divisor only, so it is kept as
  the number it denotes.
\<close>

fun py_sum :: "rat \<Rightarrow> py_value list \<Rightarrow> py_error + rat" where
  "py_sum acc [] = Inr acc"
| "py_sum acc (v # vs) =
     (case py_number v of Some x \<Rightarrow> py_sum (acc + x) vs | None \<Rightarrow> Inl TypeError)"

text \<open>\<open>d.items()\<close>, \<open>d.values()\<close> and \<open>d.keys()\<close> exist on dicts only.\<close>

fun py_items :: "py_value \<Rightarrow> py_error + (string \<times> py_value) list" where
  "py_items (PDict d) = Inr d"
| "py_items v = Inl AttributeError"

definition py_values :: "py_value \<Rightarrow> py_error + py_value list" where
  "py_values v = and_then (py_items v) (\<lambda>kvs. Inr (map snd kvs))"

definition py_keys :: "py_value \<Rightarrow> py_error + py_value list" where
  "py_keys v = and_then (py_items v) (\<lambda>kvs. Inr (map (\<lambda>kv. PStr (fst kv)) kvs))"

text \<open>
  \<open>s.strip()\<close> removes the white space at both ends, \<open>s.split(sep)[0]\<close> is what precedes
  the first occurrence of \<open>sep\<close>, and \<open>sorted\<close> orders strings by their characters.
\<close>

definition py_isspace :: "char \<Rightarrow> bool" where
  "py_isspace c =
     (let n = of_char c :: nat in (9 \<le> n \<and> n \<le> 13) \<or> (28 \<le> n \<and> n \<le> 32) \<or> n = 133 \<or> n = 160)"

definition str_strip :: "string \<Rightarrow> string" where
  "str_strip s = rev (dropWhile py_isspace (rev (dropWhile py_isspace s)))"

fun split_head :: "string \<Rightarrow> string \<Rightarrow> string" where
  "split_head sep [] = []"
| "split_head sep (c # cs) = (if starts_with sep (c # cs) then [] else c # split_head sep cs)"

fun str_le :: "string \<Rightarrow> string \<Rightarrow> bool" where
  "str_le [] t = True"
| "str_le (a # as) [] = False"
| "str_le (a # as) (b # bs) =
     ((of_char a :: nat) < of_char b \<or> (a = b \<and> str_le as bs))"

fun insert_sorted :: "string \<Rightarrow> string list \<Rightarrow> string list" where
  "insert_sorted s [] = [s]"
| "insert_sorted s (t # ts) = (if str_le s t then s # t # ts else t # insert_sorted s ts)"

definition sorted_strings :: "string list \<Rightarrow> string list" where
  "sorted_strings xs = foldr insert_sorted xs []"

text \<open>
  \<open>datetime.fromisoformat(x.replace('Z', '+00:00'))\<close>: \<open>replace\<close> is a method of strings.
\<close>

definition iso_datetime :: "runtime \<Rightarrow> py_value \<Rightarrow> py_error + py_datetime" where
  "iso_datetime rt x =
     (case x of PStr s \<Rightarrow> fromisoformat rt (replace_Z s) | _ \<Rightarrow> Inl AttributeError)"

text \<open>
  \<open>RepoProcessor._calculate_commit_frequency\<close>. The \<open>days\<close> of a \<open>timedelta\<close> are its
  whole days, rounded down.
\<close>

definition calculate_commit_frequency :: "runtime \<Rightarrow> py_value \<Rightarrow> py_error + py_value" where
  "calculate_commit_frequency rt repo_info =
     and_then (py_get repo_info ''created_at'' PNone) (\<lambda>created.
     and_then (py_get repo_info ''updated_at'' PNone) (\<lambda>updated.
       if truthy created \<and> truthy updated then
         and_then (iso_datetime rt created) (\<lambda>created_date.
         and_then (iso_datetime rt updated) (\<lambda>updated_date.
         and_then (dt_sub updated_date created_date) (\<lambda>active.
           let days_active = \<lfloor>active / 86400\<rfloor> in
           if days_active > 0
           then Inr (PStr (''Active for '' @ str_nat (nat days_active) @ '' days''))
           else Inr (PStr ''Unable to calculate''))))
       else Inr (PStr ''Unable to calculate'')))"

text \<open>
  \<open>RepoProcessor._process_metadata\<close>. \<open>language_percentage\<close> is
  \<open>round((bytes_count / total_bytes) * 100, 1)\<close>, and \<open>max_by_value\<close> is
  \<open>max(..., key=lambda x: x[1])\<close>, which keeps the first of the largest.
\<close>

definition language_percentage :: "bool \<Rightarrow> rat \<Rightarrow> py_value \<Rightarrow> py_error + rat" where
  "language_percentage tie_up total_bytes bytes_count =
     (case py_number bytes_count of
        None \<Rightarrow> Inl TypeError
      | Some b \<Rightarrow>
          if total_bytes = 0 then Inl ZeroDivisionError
          else Inr (of_int (round_tenths tie_up (b / total_bytes * 100)) / 10))"

fun max_by_value :: "string \<times> rat \<Rightarrow> (string \<times> rat) list \<Rightarrow> string \<times> rat" where
  "max_by_value best [] = best"
| "max_by_value best (x # xs) = max_by_value (if snd best < snd x then x else best) xs"

definition license_type :: "py_value \<Rightarrow> py_error + py_value" where
  "license_type repo_info =
     and_then (py_get repo_info ''license'' PNone) (\<lambda>license.
       if truthy license
       then and_then (py_get repo_info ''license'' (PDict [])) (\<lambda>l. py_get l ''name'' PNone)
       else Inr (PStr ''No License''))"

definition process_metadata ::
  "runtime \<Rightarrow> py_value \<Rightarrow> py_value \<Rightarrow> py_value \<Rightarrow> py_error + (string, py_value) py_dict"
where
  "process_metadata rt repo_info languages contributors =
     and_then (if truthy languages
               then and_then (py_values languages) (py_sum 0)
               else Inr 1) (\<lambda>total_bytes.
     and_then (if truthy languages
               then and_then (py_items languages)
                      (for_each (\<lambda>item.
                         and_then (language_percentage (ties_round_up rt) total_bytes (snd item))
                           (\<lambda>p. Inr (fst item, p))))
               else Inr []) (\<lambda>language_percentages.
     let primary_language =
           (case language_percentages of
              [] \<Rightarrow> ''Unknown''
            | x # xs \<Rightarrow> fst (max_by_value x xs))
     in
     and_then (py_get repo_info ''size'' (PInt 0)) (\<lambda>size.
     and_then (calculate_commit_frequency rt repo_info) (\<lambda>frequency.
     and_then (py_len contributors) (\<lambda>contributor_count.
     and_then (license_type repo_info) (\<lambda>license.
     and_then (py_get repo_info ''default_branch'' (PStr ''main'')) (\<lambda>default_branch.
     and_then (py_get repo_info ''created_at'' PNone) (\<lambda>created_at.
     and_then (py_get repo_info ''updated_at'' PNone) (\<lambda>updated_at.
     and_then (py_get repo_info ''stargazers_count'' (PInt 0)) (\<lambda>stars.
     and_then (py_get repo_info ''forks_count'' (PInt 0)) (\<lambda>forks.
     and_then (py_get repo_info ''watchers_count'' (PInt 0)) (\<lambda>watchers.
       Inr [(''language_composition'',
               PDict (map (\<lambda>lp. (fst lp, PFloat (snd lp))) language_percentages)),
            (''primary_stack'', PStr primary_language),
            (''repository_size_kb'', size),
            (''commit_frequency'', frequency),
            (''contributor_count'', PInt (int contributor_count)),
            (''license_type'', license),
            (''dependency_count'', PStr ''Analyzed in Architecture Synopsis''),
            (''latest_release'', default_branch),
            (''created_date'', created_at),
            (''last_updated'', updated_at),
            (''stars'', stars),
            (''forks'', forks),
            (''watchers'', watchers)]))))))))))))"

text \<open>
  \<open>RepoProcessor._detect_build_system\<close> and \<open>RepoProcessor._process_architecture\<close>.
  \<open>python_deps\<close> is the list comprehension over the lines of \<open>requirements.txt\<close>.
\<close>

definition detect_build_system :: "runtime \<Rightarrow> py_value \<Rightarrow> py_value \<Rightarrow> py_error + string" where
  "detect_build_system rt package_json requirements_txt =
     (if truthy package_json then
        and_then (py_get package_json ''devDependencies'' (PDict [])) (\<lambda>dev.
          if str_contains ''webpack'' (py_str rt dev) then Inr ''Webpack''
          else if str_contains ''vite'' (py_str rt dev) then Inr ''Vite''
          else
            and_then (py_get package_json ''scripts'' (PDict [])) (\<lambda>scripts.
            and_then (py_get scripts ''build'' PNone) (\<lambda>build.
              if truthy build then Inr ''NPM Scripts'' else Inr ''Node.js'')))
      else if truthy requirements_txt then Inr ''Python/pip''
      else Inr ''Unknown'')"

definition python_deps :: "string \<Rightarrow> string list" where
  "python_deps requirements_txt =
     map (\<lambda>line. split_head ''<='' (split_head ''>='' (split_head ''=='' line)))
       (filter (\<lambda>line. line \<noteq> [] \<and> \<not> starts_with ''#'' line)
          (split_on (CHR 0x0A) (str_strip requirements_txt)))"

definition process_architecture ::
  "runtime \<Rightarrow> py_value \<Rightarrow> py_value \<Rightarrow> py_value \<Rightarrow> py_error + (string, py_value) py_dict"
where
  "process_architecture rt repo_info package_json requirements_txt =
     and_then (if truthy package_json then
                 and_then (py_get package_json ''scripts'' (PDict [])) (\<lambda>scripts.
                 and_then (py_items scripts) (\<lambda>items.
                 and_then (py_get package_json ''dependencies'' (PDict [])) (\<lambda>deps.
                 and_then (py_get package_json ''devDependencies'' (PDict [])) (\<lambda>dev_deps.
                 and_then (py_keys deps) (\<lambda>core.
                 and_then (py_keys dev_deps) (\<lambda>dev.
                   Inr (map (\<lambda>item. PStr (fst item @ '': '' @ py_str rt (snd item))) items,
                        core, dev)))))))
               else Inr ([], [], [])) (\<lambda>found.
     let entry_points = fst found; core = fst (snd found); dev = snd (snd found) in
     and_then (if truthy requirements_txt then
                 (case requirements_txt of
                    PStr s \<Rightarrow> Inr (core @ map PStr (python_deps s))
                  | _ \<Rightarrow> Inl AttributeError)
               else Inr core) (\<lambda>core.
     and_then (detect_build_system rt package_json requirements_txt) (\<lambda>build_system.
       Inr [(''entry_points'',
               if entry_points \<noteq> [] then PList entry_points
               else PList [PStr ''No explicit entry points found'']),
            (''directory_structure'', PStr ''TBD - Requires tree analysis''),
            (''core_dependencies'', PList (take 20 core)),
            (''dev_dependencies'', PList (take 20 dev)),
            (''build_system'', PStr build_system),
            (''deployment_pipeline'', PStr ''TBD - Requires CI/CD analysis'')])))"

text \<open>
  \<open>RepoProcessor._process_architecture_deep\<close>. \<open>top_level_dirs\<close> are the elements of the
  set \<open>top_dirs\<close>, \<open>directory_summary\<close> is the value stored under
  \<open>directory_structure\<close>, and \<open>detected_managers\<close> the one stored under
  \<open>deployment_pipeline\<close>. A \<open>Counter\<close> is a dict, and the two branches of the
  \<open>isinstance\<close> test take \<open>most_common(5)\<close> of the same counts.
\<close>

definition top_level_dirs :: "string list \<Rightarrow> string list" where
  "top_level_dirs paths =
     remdups (filter (\<lambda>part. part \<noteq> []) (map (\<lambda>path. hd (split_on CHR ''/'' path)) paths))"

definition directory_summary ::
  "runtime \<Rightarrow> py_value \<Rightarrow> py_value \<Rightarrow> py_value \<Rightarrow> py_error + string"
where
  "directory_summary rt dir_struct files dirs =
     (if truthy dir_struct then
        and_then (py_items dir_struct) (\<lambda>items.
          let top_dirs = top_level_dirs (map fst items);
              dir_summary = py_str rt files @ '' files in '' @ py_str rt dirs
                              @ '' directories''
          in Inr (if top_dirs \<noteq> []
                  then dir_summary @ '' | Main folders: ''
                         @ intersperse '', ''
                             (sorted_strings (take 10 (set_iteration rt top_dirs)))
                  else dir_summary))
      else Inr (py_str rt files @ '' files, '' @ py_str rt dirs @ '' directories''))"

definition detected_managers :: "py_value \<Rightarrow> py_error + py_value" where
  "detected_managers package_managers =
     and_then (py_join '', '' package_managers) (\<lambda>s. Inr (PStr (''Detected: '' @ s)))"

definition process_architecture_deep ::
  "ops \<Rightarrow> runtime \<Rightarrow> py_value \<Rightarrow> py_value \<Rightarrow> py_value \<Rightarrow> py_value \<Rightarrow> py_value
     \<Rightarrow> py_error + (string, py_value) py_dict"
where
  "process_architecture_deep ops rt repo_info package_json requirements_txt tree_analysis
       deep_deps =
     and_then (process_architecture rt repo_info package_json requirements_txt) (\<lambda>base.
     and_then (deep_detect_architecture_pattern ops tree_analysis) (\<lambda>pattern.
     and_then (py_get tree_analysis ''total_dirs'' (PInt 0)) (\<lambda>total_dirs.
     and_then (py_get tree_analysis ''total_files'' (PInt 0)) (\<lambda>total_files.
     and_then (py_get tree_analysis ''max_depth'' (PInt 0)) (\<lambda>max_depth.
     and_then (py_get tree_analysis ''directory_structure'' (PDict [])) (\<lambda>dir_struct.
     and_then (py_len dir_struct) (\<lambda>modules.
     and_then (py_get deep_deps ''total_count'' (PInt 0)) (\<lambda>total_count.
     and_then (py_get deep_deps ''package_managers'' (PList [])) (\<lambda>package_managers.
     and_then (py_len package_managers) (\<lambda>managers.
     let base = AList.update ''architecture_pattern'' pattern base;
         base = AList.update ''data_flow_analysis''
                  (PStr (''Repository structure: '' @ py_str rt total_dirs @ '' directories, ''
                           @ py_str rt total_files @ '' files, max depth: ''
                           @ py_str rt max_depth)) base;
         base = AList.update ''scalability_assessment''
                  (PStr (''Modular structure with '' @ str_nat modules @ '' modules'')) base;
         base = AList.update ''performance_considerations''
                  (PStr (''Dependencies: '' @ py_str rt total_count @ '' total packages across ''
                           @ str_nat managers @ '' package managers'')) base
     in
     and_then (directory_summary rt dir_struct total_files total_dirs) (\<lambda>dir_summary.
     let base = AList.update ''directory_structure'' (PStr dir_summary) base in
     and_then (set_if_present deep_deps ''package_managers'' ''deployment_pipeline''
                 detected_managers base) (\<lambda>base.
     and_then (py_get tree_analysis ''file_types'' (PDict [])) (\<lambda>file_types.
       if truthy file_types then
         and_then (most_common rt 5 file_types) (\<lambda>top_types.
           Inr (AList.update ''primary_technologies''
                  (PStr (intersperse '', ''
                           (map (\<lambda>tc. py_str rt (fst tc) @ '': '' @ py_str rt (snd tc)
                                         @ '' files'') top_types)))
                  base))
       else Inr base)))))))))))))"

text \<open>
  \<open>RepoProcessor._process_quality_metrics\<close>. \<open>is_completed\<close> is the filter of
  \<open>recent_workflows\<close> and \<open>workflow_result\<close> the dict built for each of them.
\<close>

definition is_completed :: "py_value \<Rightarrow> py_error + bool" where
  "is_completed w = and_then (py_get w ''status'' PNone) (\<lambda>status. Inr (status = PStr ''completed''))"

definition workflow_result :: "py_value \<Rightarrow> py_error + py_value" where
  "workflow_result w =
     and_then (py_get w ''name'' (PStr ''Unknown'')) (\<lambda>name.
     and_then (py_get w ''conclusion'' (PStr ''unknown'')) (\<lambda>conclusion.
     and_then (py_get w ''updated_at'' PNone) (\<lambda>updated_at.
       Inr (PDict [(''name'', name), (''status'', conclusion), (''date'', updated_at)]))))"

definition process_quality_metrics ::
  "py_value \<Rightarrow> py_value \<Rightarrow> py_error + (string, py_value) py_dict"
where
  "process_quality_metrics repo_info workflows =
     and_then (py_len workflows) (\<lambda>count.
     and_then (py_iter workflows) (\<lambda>runs.
     and_then (for_each is_completed runs) (\<lambda>completed.
     let has_actions = (count > 0);
         recent_workflows = take 5 (map fst (filter snd (zip runs completed)))
     in
     and_then (for_each workflow_result recent_workflows) (\<lambda>results.
       Inr [(''test_coverage_percentage'', PStr ''TBD - Requires code analysis''),
            (''testing_framework'', PStr ''TBD - Requires file analysis''),
            (''linting_standards'', PStr ''TBD - Requires config file analysis''),
            (''ci_cd_pipeline_status'', PStr (if has_actions then ''Active'' else ''Not detected'')),
            (''automation_scope'',
               PStr (if truthy workflows then str_nat count @ '' workflow runs found''
                     else ''No automation detected'')),
            (''security_vulnerabilities'', PStr ''TBD - Requires security scan''),
            (''recent_workflow_results'', PList results)]))))"

text \<open>
  \<open>RepoProcessor._process_quality_metrics_deep\<close>. \<open>joined_or\<close> is the expression
  \<open>", ".join(d.get(key, [])) if d.get(key) else placeholder\<close>.
\<close>

definition joined_or :: "py_value \<Rightarrow> string \<Rightarrow> string \<Rightarrow> py_error + string" where
  "joined_or d key placeholder =
     and_then (py_get d key PNone) (\<lambda>v.
       if truthy v then and_then (py_get d key (PList [])) (py_join '', '')
       else Inr placeholder)"

definition process_quality_metrics_deep ::
  "runtime \<Rightarrow> py_value \<Rightarrow> py_value \<Rightarrow> py_value \<Rightarrow> py_value
     \<Rightarrow> py_error + (string, py_value) py_dict"
where
  "process_quality_metrics_deep rt repo_info workflows deep_quality tree_analysis =
     and_then (process_quality_metrics repo_info workflows) (\<lambda>base.
     and_then (py_get deep_quality ''test_coverage'' (PStr ''Unknown'')) (\<lambda>coverage.
     and_then (py_get deep_quality ''test_file_ratio'' (PInt 0)) (\<lambda>ratio.
     and_then (joined_or deep_quality ''linting_config'' ''No linting config detected'')
       (\<lambda>linting.
     and_then (py_get deep_quality ''documentation_coverage'' (PInt 0)) (\<lambda>documentation.
     and_then (joined_or deep_quality ''ci_cd_tools'' ''No CI/CD detected'') (\<lambda>automation.
     and_then (py_get deep_quality ''branch_protection'' PNone) (\<lambda>protection.
     and_then (py_get deep_quality ''code_review_process'' (PStr ''Unknown'')) (\<lambda>review.
       let base = AList.update ''testing_framework'' coverage base;
           base = AList.update ''code_coverage'' (PStr (py_str rt ratio @ ''% test files'')) base;
           base = AList.update ''linting_standards'' (PStr linting) base;
           base = AList.update ''documentation_quality''
                    (PStr (py_str rt documentation @ ''% documentation coverage'')) base;
           base = AList.update ''automation_scope'' (PStr automation) base;
           base = AList.update ''branch_protection''
                    (PStr (if truthy protection then ''Enabled'' else ''Not enabled'')) base;
           base = AList.update ''code_review_process'' review base
       in Inr base))))))))"

text \<open>
  \<open>RepoProcessor._process_documentation\<close>. \<open>summary_loop\<close> is the loop over the first
  20 lines of the README, which stops at three summary lines, and \<open>installation_steps\<close>
  the block that looks for installation instructions.
\<close>

fun summary_loop :: "string list \<Rightarrow> string list \<Rightarrow> string list" where
  "summary_loop summary_lines [] = summary_lines"
| "summary_loop summary_lines (line # lines) =
     (let summary_lines =
            (if str_strip line \<noteq> [] \<and> \<not> starts_with ''#'' line
             then summary_lines @ [str_strip line] else summary_lines)
      in if length summary_lines \<ge> 3 then summary_lines else summary_loop summary_lines lines)"

definition installation_steps :: "runtime \<Rightarrow> string \<Rightarrow> string list" where
  "installation_steps rt readme =
     (if str_contains ''install'' (str_lower readme) then
        (case search_installation rt readme of
           Some install_section \<Rightarrow>
             map str_strip
               (filter (\<lambda>line. str_strip line \<noteq> [])
                  (take 5 (split_on (CHR 0x0A) install_section)))
         | None \<Rightarrow> [])
      else [])"

definition process_documentation ::
  "runtime \<Rightarrow> py_value \<Rightarrow> py_value \<Rightarrow> py_error + (string, py_value) py_dict"
where
  "process_documentation rt readme repo_info =
     and_then (if truthy readme then
                 (case readme of
                    PStr s \<Rightarrow>
                      (let summary_lines = summary_loop [] (take 20 (split_on (CHR 0x0A) s)) in
                       Inr (if summary_lines \<noteq> [] then intersperse '' '' summary_lines
                            else ''README exists but no summary found'',
                            installation_steps rt s))
                  | _ \<Rightarrow> Inl AttributeError)
               else Inr (''No README found'', [])) (\<lambda>found.
     let readme_summary = fst found; steps = snd found in
     and_then (py_get repo_info ''language'' (PStr ''Unknown'')) (\<lambda>language.
       Inr [(''readme_summary'',
               PStr (if length readme_summary > 500 then take 500 readme_summary @ ''...''
                     else readme_summary)),
            (''api_documentation'', PStr ''TBD - Requires API endpoint analysis''),
            (''installation_requirements'',
               PList (if steps \<noteq> [] then map PStr steps
                      else [PStr ''Check README for installation instructions''])),
            (''configuration_variables'', PStr ''TBD - Requires env file analysis''),
            (''known_limitations'', PStr ''TBD - Requires issue analysis''),
            (''compatibility_constraints'', PStr (''Language: '' @ py_str rt language))]))"

text \<open>
  \<open>DeepAnalyzer.analyze_security_posture\<close>, whose result decides a field of the
  technical-debt section. \<open>dependency_risks\<close> is its loop over the direct
  dependencies; the table of vulnerable packages has the keys \<open>npm\<close> and \<open>pip\<close>.
\<close>

definition dependency_risks :: "(string \<times> py_value) list \<Rightarrow> py_error + py_value list" where
  "dependency_risks managers =
     and_then (for_each (\<lambda>entry.
                 if fst entry \<in> set [''npm'', ''pip'']
                 then and_then (py_items (snd entry)) (\<lambda>packages.
                        Inr (map (\<lambda>pkg. PStr (''Check '' @ fst pkg
                                              @ '' version for known vulnerabilities''))
                               packages))
                 else Inr []) managers)
       (\<lambda>risks. Inr (concat risks))"

definition analyze_security_posture :: "runtime \<Rightarrow> py_value \<Rightarrow> py_value \<Rightarrow> py_error + py_value" where
  "analyze_security_posture rt deps quality =
     and_then (py_get deps ''direct_dependencies'' (PDict [])) (\<lambda>direct.
     and_then (py_items direct) (\<lambda>managers.
     and_then (dependency_risks managers) (\<lambda>risks.
     and_then (py_get quality ''branch_protection'' PNone) (\<lambda>protection.
     and_then (py_get quality ''ci_cd_tools'' (PList [])) (\<lambda>tools.
     and_then (py_iter tools) (\<lambda>tool_list.
       let names = map (\<lambda>f. str_lower (py_str rt f)) tool_list;
           features =
             (if truthy protection then [PStr ''Branch protection enabled''] else [])
             @ (if list_ex (str_contains ''dependabot'') names
                then [PStr ''Automated dependency updates''] else [])
             @ (if list_ex (str_contains ''security'') names
                then [PStr ''Security scanning in CI/CD''] else []);
           features =
             (if features = [] then [PStr ''Consider enabling security features'']
              else features)
       in Inr (PDict [(''dependency_risks'', PList risks),
                      (''security_features'', PList features),
                      (''vulnerabilities'', PList [])])))))))"

text \<open>
  \<open>RepoProcessor._calculate_repo_age\<close> and \<open>RepoProcessor._process_technical_debt\<close>.
  \<open>datetime.now()\<close> is given the \<open>tzinfo\<close> of the creation date before the
  subtraction, so the two are subtracted field by field.
\<close>

definition calculate_repo_age :: "runtime \<Rightarrow> py_value \<Rightarrow> py_error + rat" where
  "calculate_repo_age rt created =
     (if \<not> truthy created then Inr 0
      else
        and_then (iso_datetime rt created) (\<lambda>created_date.
          let age = now_wall rt - wall_seconds created_date in
          Inr (of_int \<lfloor>age / 86400\<rfloor> / (1461 / 4))))"

definition process_technical_debt ::
  "runtime \<Rightarrow> py_value \<Rightarrow> py_value \<Rightarrow> py_value \<Rightarrow> py_error + (string, py_value) py_dict"
where
  "process_technical_debt rt repo_info languages dependencies =
     and_then (py_get repo_info ''created_at'' PNone) (\<lambda>created_at.
     and_then (calculate_repo_age rt created_at) (\<lambda>age_years.
     and_then (py_get repo_info ''size'' (PInt 0)) (\<lambda>size.
     and_then (py_greater size 100000) (\<lambda>large.
       let debt_indicators =
             (if 3 < age_years
              then [PStr ''Repository is over 3 years old - check for outdated dependencies'']
              else [])
             @ (if large
                then [PStr ''Large repository size may indicate accumulated technical debt'']
                else [])
       in
       Inr [(''outdated_dependencies'', PStr ''TBD - Requires dependency version analysis''),
            (''security_implications'', PStr ''TBD - Requires vulnerability scan''),
            (''code_complexity_hotspots'', PStr ''TBD - Requires static analysis''),
            (''performance_bottlenecks'', PStr ''TBD - Requires performance profiling''),
            (''scalability_concerns'', PStr ''TBD - Requires architecture analysis''),
            (''maintenance_burden'',
               PStr (''Repository age: '' @ format_1f rt age_years @ '' years'')),
            (''debt_indicators'',
               PList (if debt_indicators \<noteq> [] then debt_indicators
                      else [PStr ''No immediate debt indicators detected''])),
            (''refactoring_opportunities'', PStr ''TBD - Requires code analysis'')]))))"

text \<open>
  \<open>RepoProcessor._process_technical_debt_deep\<close>. \<open>any_longer n\<close> is
  \<open>any(len(files) > n for files in ...)\<close>, which stops at the first longer one.
\<close>

fun any_longer :: "nat \<Rightarrow> py_value list \<Rightarrow> py_error + bool" where
  "any_longer n [] = Inr False"
| "any_longer n (files # rest) =
     and_then (py_len files) (\<lambda>k. if n < k then Inr True else any_longer n rest)"

definition process_technical_debt_deep ::
  "ops \<Rightarrow> runtime \<Rightarrow> py_value \<Rightarrow> py_value \<Rightarrow> py_value \<Rightarrow> py_value \<Rightarrow> py_value \<Rightarrow> py_value
     \<Rightarrow> py_error + (string, py_value) py_dict"
where
  "process_technical_debt_deep ops rt repo_info languages tree_analysis deep_deps deep_quality
       security_analysis =
     and_then (process_technical_debt rt repo_info languages deep_deps) (\<lambda>base.
     and_then (deep_identify_tech_debt_indicators ops tree_analysis deep_deps deep_quality)
       (\<lambda>debt_indicators.
     and_then (py_get deep_deps ''outdated_check'' PNone) (\<lambda>outdated.
     and_then (if truthy outdated
               then and_then (py_get deep_deps ''outdated_check'' (PList [])) (\<lambda>checks.
                    and_then (py_join '', '' checks) (\<lambda>s. Inr (take 200 s)))
               else Inr ''All dependencies use fixed versioning'') (\<lambda>outdated_dependencies.
     and_then (py_get security_analysis ''dependency_risks''
                 (PList [PStr ''No known security risks detected''])) (\<lambda>risks.
     and_then (py_get tree_analysis ''max_depth'' (PInt 0)) (\<lambda>max_depth.
     and_then (py_get tree_analysis ''total_files'' (PInt 0)) (\<lambda>total_files.
     and_then (py_get repo_info ''size'' (PInt 0)) (\<lambda>size.
     and_then (case py_number size of
                 None \<Rightarrow> Inl TypeError
               | Some kb \<Rightarrow>
                   Inr (if 50000 < kb
                        then ''Large repository size: '' @ format_1f rt (kb / 1024) @ ''MB''
                        else ''Repository size is manageable'')) (\<lambda>bottlenecks.
     and_then (py_get deep_deps ''total_count'' (PInt 0)) (\<lambda>total_count.
     and_then (py_greater total_count 30) (\<lambda>many.
     and_then (py_get tree_analysis ''directory_structure'' (PDict [])) (\<lambda>dir_struct.
     and_then (py_values dir_struct) (\<lambda>listings.
     and_then (any_longer 20 listings) (\<lambda>crowded.
     and_then (py_get deep_quality ''test_file_ratio'' (PInt 0)) (\<lambda>ratio.
     and_then (py_less ratio 15) (\<lambda>few_tests.
     and_then (py_get deep_quality ''linting_config'' PNone) (\<lambda>linting.
       let base = AList.update ''outdated_dependencies'' (PStr outdated_dependencies) base;
           base = AList.update ''security_implications'' risks base;
           base = AList.update ''code_complexity_hotspots''
                    (PStr (''Repository complexity: '' @ py_str rt max_depth
                             @ '' levels deep, '' @ py_str rt total_files @ '' files'')) base;
           base = AList.update ''performance_bottlenecks'' (PStr bottlenecks) base;
           base = AList.update ''scalability_concerns''
                    (PStr (if many then ''Total dependencies: '' @ py_str rt total_count
                           else ''Dependency count is reasonable'')) base;
           base = AList.update ''debt_indicators'' debt_indicators base;
           base = AList.update ''refactoring_opportunities''
                    (PList [PStr (if crowded
                                  then ''Consider breaking down directories with many files''
                                  else ''File organization appears good''),
                            PStr (if few_tests then ''Add more tests to improve coverage''
                                  else ''Test coverage appears adequate''),
                            PStr (if \<not> truthy linting then ''Implement linting standards''
                                  else ''Linting is configured'')]) base
       in set_if_present security_analysis ''security_features'' ''security_features'' Inr
            base)))))))))))))))))"

text \<open>
  Sequencing with the count of provider requests: the requests sent before an
  exception stay counted.
\<close>

definition then_counted :: "'a counted \<Rightarrow> ('a \<Rightarrow> 'b counted) \<Rightarrow> 'b counted" where
  "then_counted m f =
     (case m of
        (Inl e, n) \<Rightarrow> (Inl e, n)
      | (Inr x, n) \<Rightarrow> (case f x of (r, k) \<Rightarrow> (r, n + k)))"

definition one_call :: "py_error + 'a \<Rightarrow> 'a counted" where
  "one_call r = (r, 1)"

definition no_call :: "py_error + 'a \<Rightarrow> 'a counted" where
  "no_call r = (r, 0)"

text \<open>
  \<open>try: enhanced_insights = ... except Exception: ...\<close>: an exception of
  \<open>get_quick_insights\<close> leaves \<open>enhanced_insights\<close> at \<open>None\<close>.
\<close>

definition guarded_insights :: "py_value counted \<Rightarrow> py_value counted" where
  "guarded_insights m = (case m of (Inl e, n) \<Rightarrow> (Inr PNone, n) | (Inr v, n) \<Rightarrow> (Inr v, n))"

text \<open>
  The body of \<open>analyze_repository\<close> after the cache lookup and before the cache
  write: the fetches, the deep analysis, the \<open>analysis\<close> dict and the merge of the
  enhanced insights.
\<close>

definition assemble_report :: "ops \<Rightarrow> runtime \<Rightarrow> string \<Rightarrow> string \<Rightarrow> py_value counted" where
  "assemble_report ops rt owner repo =
     then_counted (one_call (get_repository_info ops owner repo)) (\<lambda>repo_info.
     then_counted (one_call (get_languages ops owner repo)) (\<lambda>languages.
     then_counted (one_call (get_contributors ops owner repo)) (\<lambda>contributors.
     then_counted (one_call (get_commits ops owner repo)) (\<lambda>commits.
     then_counted (one_call (get_releases ops owner repo)) (\<lambda>releases.
     then_counted (one_call (get_issues ops owner repo)) (\<lambda>issues.
     then_counted (one_call (get_pull_requests ops owner repo)) (\<lambda>pull_requests.
     then_counted (one_call (get_readme ops owner repo)) (\<lambda>readme.
     then_counted (one_call (get_package_json ops owner repo)) (\<lambda>package_json.
     then_counted (one_call (get_requirements_txt ops owner repo)) (\<lambda>requirements_txt.
     then_counted (one_call (get_workflow_runs ops owner repo)) (\<lambda>workflows.
     then_counted (guarded_insights (get_quick_insights ops owner repo)) (\<lambda>enhanced_insights.
     then_counted (analyze_file_tree ops owner repo) (\<lambda>tree_analysis.
     then_counted (analyze_dependencies_detailed ops owner repo) (\<lambda>deep_deps.
     then_counted (analyze_code_quality_detailed ops owner repo tree_analysis) (\<lambda>deep_quality.
     then_counted (no_call (analyze_commit_activity ops commits issues pull_requests))
       (\<lambda>deep_activity.
     then_counted (no_call (analyze_security_posture rt deep_deps deep_quality))
       (\<lambda>security_analysis.
     then_counted (no_call (process_metadata rt repo_info languages contributors))
       (\<lambda>metadata.
     then_counted (no_call (process_architecture_deep ops rt repo_info package_json
                              requirements_txt tree_analysis deep_deps)) (\<lambda>architecture.
     then_counted (no_call (process_quality_metrics_deep rt repo_info workflows deep_quality
                              tree_analysis)) (\<lambda>quality.
     then_counted (no_call (process_documentation rt readme repo_info)) (\<lambda>documentation.
     then_counted (no_call (process_activity_deep rt commits issues pull_requests releases
                              deep_activity)) (\<lambda>activity.
     then_counted (no_call (process_technical_debt_deep ops rt repo_info languages tree_analysis
                              deep_deps deep_quality security_analysis)) (\<lambda>debt.
       let analysis =
             [(''repository_metadata'', PDict metadata),
              (''architecture_synopsis'', PDict architecture),
              (''code_quality_metrics'', PDict quality),
              (''documentation_extraction'', PDict documentation),
              (''development_activity'', PDict activity),
              (''technical_debt_assessment'', PDict debt),
              (''raw_data'',
                 PDict [(''fetched_at'', PStr (now_isoformat rt)),
                        (''repo_url'', PStr (''https://github.com/'' @ owner @ ''/'' @ repo)),
                        (''api_calls_made'', PInt 8),
                        (''enhanced_analysis'', PBool (enhanced_insights \<noteq> PNone))])];
           analysis =
             (if truthy enhanced_insights
              then AList.update ''enhanced_insights'' enhanced_insights analysis
              else analysis)
       in no_call (Inr (PDict analysis)))))))))))))))))))))))))"

text \<open>
  \<open>cache_repository_analysis\<close> and \<open>get_cached_analysis\<close> of cache.py, on the global
  cache instance.
\<close>

definition analysis_key :: "string \<Rightarrow> string \<Rightarrow> string" where
  "analysis_key owner repo = ''analysis:'' @ owner @ ''/'' @ repo"

definition cache_repository_analysis ::
  "string \<Rightarrow> string \<Rightarrow> py_value \<Rightarrow> py_value repository_cache \<Rightarrow> time \<Rightarrow> time \<Rightarrow> time
     \<Rightarrow> (py_error + unit) \<times> py_value repository_cache"
where
  "cache_repository_analysis owner repo analysis_data c t_expiry t_created t_access =
     cache_set c (analysis_key owner repo) analysis_data (Some 1800) t_expiry t_created t_access"

definition get_cached_analysis ::
  "string \<Rightarrow> string \<Rightarrow> py_value repository_cache \<Rightarrow> time \<Rightarrow> time
     \<Rightarrow> (py_error + py_value option) \<times> py_value repository_cache"
where
  "get_cached_analysis owner repo c t_check t_access =
     cache_get c (analysis_key owner repo) t_check t_access"

text \<open>
  The state that \<open>analyze_repository\<close> works on: the global cache and the number of
  requests sent to the data provider so far; and the clock readings of one call: two
  for the cache lookup, three for the cache write.
\<close>

record world =
  repo_cache :: "py_value repository_cache"
  provider_calls :: nat

record clock =
  get_check :: time
  get_access :: time
  set_expiry :: time
  set_created :: time
  set_access :: time

text \<open>
  The part of \<open>analyze_repository\<close> that runs when the cache gave nothing: the report
  is assembled, written to the cache and returned. \<open>c1\<close> is the cache as the lookup
  left it.
\<close>

definition analyze_uncached ::
  "ops \<Rightarrow> runtime \<Rightarrow> clock \<Rightarrow> string \<Rightarrow> string \<Rightarrow> world \<Rightarrow> py_value repository_cache
     \<Rightarrow> (py_error + py_value) \<times> world"
where
  "analyze_uncached ops rt ck owner repo w c1 =
     (case assemble_report ops rt owner repo of
        (Inl e, n) \<Rightarrow>
          (Inl e, w\<lparr>repo_cache := c1, provider_calls := provider_calls w + n\<rparr>)
      | (Inr analysis, n) \<Rightarrow>
          (case cache_repository_analysis owner repo analysis c1
                  (set_expiry ck) (set_created ck) (set_access ck) of
             (Inl e, c2) \<Rightarrow>
               (Inl e, w\<lparr>repo_cache := c2, provider_calls := provider_calls w + n\<rparr>)
           | (Inr u, c2) \<Rightarrow>
               (Inr analysis, w\<lparr>repo_cache := c2, provider_calls := provider_calls w + n\<rparr>)))"

text \<open>
  \<open>if cached_analysis:\<close> holds for a value that \<open>get\<close> returned and that is truthy.
\<close>

definition cache_hit :: "py_value option \<Rightarrow> bool" where
  "cache_hit cached_analysis = (case cached_analysis of Some v \<Rightarrow> truthy v | None \<Rightarrow> False)"

text \<open>
  \<open>RepoProcessor.analyze_repository\<close>. Every exception raised inside its \<open>try\<close> is
  re-raised as \<open>RepositoryAnalysisFailed\<close>.
\<close>

definition reraise :: "(py_error + 'a) \<times> world \<Rightarrow> (py_error + 'a) \<times> world" where
  "reraise m = (case m of (Inl e, w) \<Rightarrow> (Inl (RepositoryAnalysisFailed e), w) | (Inr v, w) \<Rightarrow> (Inr v, w))"

definition analyze_repository ::
  "ops \<Rightarrow> runtime \<Rightarrow> clock \<Rightarrow> string \<Rightarrow> world \<Rightarrow> (py_error + py_value) \<times> world"
where
  "analyze_repository ops rt ck repo_url w =
     reraise
       (case parse_repo_url rt repo_url of
          Inl e \<Rightarrow> (Inl e, w)
        | Inr (owner, repo) \<Rightarrow>
            (case get_cached_analysis owner repo (repo_cache w) (get_check ck) (get_access ck) of
               (Inl e, c1) \<Rightarrow> (Inl e, w\<lparr>repo_cache := c1\<rparr>)
             | (Inr cached_analysis, c1) \<Rightarrow>
                 if cache_hit cached_analysis
                 then (Inr (the cached_analysis), w\<lparr>repo_cache := c1\<rparr>)
                 else analyze_uncached ops rt ck owner repo w c1))"

text \<open>
  Concrete collaborators, used where a statement is instantiated: a runtime whose
  \<open>urlparse\<close> takes as path what follows the host of \<open>scheme://host/path\<close>, whose
  \<open>fromisoformat\<close> reads every string as the epoch in UTC, whose \<open>str\<close> is Python's on
  \<open>None\<close>, booleans, integers and strings, whose \<open>.1f\<close> format is Python's on the
  non-negative multiples of a tenth, whose sets are iterated in the order of insertion,
  whose \<open>most_common\<close> takes the first items of a dict and whose README search finds
  nothing; and the collaborators of a repository without languages, contributors,
  commits, issues, pull requests, README, package files and workflow runs, whose tree
  cannot be fetched: the deep analyzer answers with its default dicts, and with the
  pattern and the debt indicators that it computes from them. The releases request
  answers \<open>releases\<close> and the commit-activity analysis answers \<open>deep_activity\<close>.
\<close>

definition sample_url_path :: "string \<Rightarrow> string" where
  "sample_url_path url = concat (map (\<lambda>part. CHR ''/'' # part) (drop 3 (split_on CHR ''/'' url)))"

fun sample_str :: "py_value \<Rightarrow> string" where
  "sample_str (PInt i) = (if i < 0 then ''-'' @ str_nat (nat (- i)) else str_nat (nat i))"
| "sample_str (PStr s) = s"
| "sample_str PNone = ''None''"
| "sample_str (PBool b) = (if b then ''True'' else ''False'')"
| "sample_str v = ''...''"

definition sample_runtime :: runtime where
  "sample_runtime =
     \<lparr>url_path = sample_url_path,
      fromisoformat = (\<lambda>s. Inr \<lparr>wall_seconds = 0, utc_offset = Some 0\<rparr>),
      now_wall = 86400,
      now_isoformat = ''2024-05-01T10:00:00'',
      ties_round_up = False,
      py_str = sample_str,
      format_1f = (\<lambda>x. sample_str (PInt \<lfloor>x\<rfloor>) @ ''.'' @ str_nat (nat (\<lfloor>10 * x\<rfloor> mod 10))),
      set_iteration = (\<lambda>elements. elements),
      most_common = (\<lambda>n x. and_then (py_items x) (\<lambda>kvs. Inr (map (\<lambda>kv. (PStr (fst kv), snd kv)) (take n kvs)))),
      search_installation = (\<lambda>readme. None)\<rparr>"

definition sample_ops :: "py_value \<Rightarrow> py_value \<Rightarrow> ops" where
  "sample_ops releases deep_activity =
     \<lparr>get_repository_info = (\<lambda>owner repo. Inr (PDict [(''name'', PStr repo)])),
      get_languages = (\<lambda>owner repo. Inr (PDict [])),
      get_contributors = (\<lambda>owner repo. Inr (PList [])),
      get_commits = (\<lambda>owner repo. Inr (PList [])),
      get_releases = (\<lambda>owner repo. Inr releases),
      get_issues = (\<lambda>owner repo. Inr (PList [])),
      get_pull_requests = (\<lambda>owner repo. Inr (PList [])),
      get_readme = (\<lambda>owner repo. Inr (PStr [])),
      get_package_json = (\<lambda>owner repo. Inr PNone),
      get_requirements_txt = (\<lambda>owner repo. Inr PNone),
      get_workflow_runs = (\<lambda>owner repo. Inr (PList [])),
      get_quick_insights = (\<lambda>owner repo. (Inr PNone, 0)),
      analyze_file_tree = (\<lambda>owner repo. (Inr default_tree_analysis, 2)),
      analyze_dependencies_detailed = (\<lambda>owner repo. (Inr default_dependencies, 7)),
      analyze_code_quality_detailed = (\<lambda>owner repo tree. (Inr default_quality, 2)),
      analyze_commit_activity = (\<lambda>commits issues prs. Inr deep_activity),
      deep_detect_architecture_pattern = (\<lambda>tree. Inr (PStr ''Monolithic Architecture'')),
      deep_identify_tech_debt_indicators =
        (\<lambda>tree deps quality.
           Inr (PList [PStr ''Low test coverage (<10% test files)'',
                       PStr ''No CI/CD pipeline detected'',
                       PStr ''No code linting configuration found'',
                       PStr ''Minimal documentation coverage'']))\<rparr>"

definition sample_clock :: "time \<Rightarrow> clock" where
  "sample_clock t =
     \<lparr>get_check = t, get_access = t, set_expiry = t, set_created = t, set_access = t\<rparr>"

definition empty_world :: world where
  "empty_world = \<lparr>repo_cache = new_cache 100 900, provider_calls = 0\<rparr>"

text \<open>\<open>yields Q m\<close>: whenever the computation \<open>m\<close> returns a value, the value satisfies \<open>Q\<close>.\<close>

definition yields :: "('a \<Rightarrow> bool) \<Rightarrow> 'a counted \<Rightarrow> bool" where
  "yields Q m \<longleftrightarrow> (\<forall>y n. m = (Inr y, n) \<longrightarrow> Q y)"

text \<open>
  \<open>if deep_activity.get(key):\<close> as a predicate: the lookup returns a truthy value.
\<close>

definition has_truthy :: "py_value \<Rightarrow> string \<Rightarrow> bool" where
  "has_truthy d key = (case py_get d key PNone of Inr v \<Rightarrow> truthy v | Inl e \<Rightarrow> False)"

text \<open>
  \<open>section_has sections name keys\<close>: the report holds a dict under \<open>name\<close>, and the
  fields of that dict are the \<open>keys\<close>.
\<close>

definition section_has :: "(string, py_value) py_dict \<Rightarrow> string \<Rightarrow> string set \<Rightarrow> bool" where
  "section_has sections name keys =
     (case map_of sections name of
        Some (PDict d) \<Rightarrow> set (dict_keys d) = keys
      | _ \<Rightarrow> False)"

text \<open>\<open>fails m\<close>: the computation \<open>m\<close> raises.\<close>

definition fails :: "'a counted \<Rightarrow> bool" where
  "fails m = isl (fst m)"

section \<open>The timeout guard (optimized\_analyzer.py)\<close>

text \<open>
  An exception object as the guard meets it: whether it is an instance of \<open>Exception\<close>
  (what \<open>except Exception\<close> catches; \<open>SystemExit\<close>, \<open>KeyboardInterrupt\<close> and
  \<open>GeneratorExit\<close> are not), its truth value as \<open>if exception[0]:\<close> computes it, and
  its \<open>str\<close>. The last two are calls of methods of the object (\<open>__bool__\<close> or
  \<open>__len__\<close>, and \<open>__str__\<close>) and may raise; the exceptions of the standard library
  define neither \<open>__bool__\<close> nor \<open>__len__\<close>, so their truth value is \<open>True\<close>.
\<close>

record exception_object =
  is_Exception :: bool
  truth_value :: "py_error + bool"
  str_value :: "py_error + string"

text \<open>
  A unit of work run by \<open>timeout_decorator\<close>: what \<open>thread.start()\<close> raises
  (\<open>RuntimeError\<close> when no thread can be started, \<open>None\<close> when the thread starts), when
  the thread ends (\<open>None\<close> when it never does) and what \<open>func\<close> did, returned a value
  or raised. The thread is started at time \<open>0\<close> by \<open>Timer(0, target)\<close>, and \<open>is_alive\<close>
  is read when \<open>join(seconds)\<close> returns: the thread is alive there when it has not
  ended within \<open>seconds\<close>.
\<close>

datatype work_outcome = Returns py_value | Raises exception_object

record unit_of_work =
  start_error :: "py_error option"
  ends_after :: "time option"
  outcome :: work_outcome

definition thread_is_alive :: "nat \<Rightarrow> unit_of_work \<Rightarrow> bool" where
  "thread_is_alive seconds w =
     (case ends_after w of None \<Rightarrow> True | Some d \<Rightarrow> \<not> d \<le> of_nat seconds)"

text \<open>
  The one-element lists \<open>result\<close> and \<open>exception\<close> of the wrapper, and \<open>target\<close>, which
  runs in the thread: it stores the value that \<open>func\<close> returns, or the exception that
  \<open>except Exception\<close> catches. An exception that is not caught ends the thread and
  leaves both cells as they are.
\<close>

record cells =
  result_0 :: py_value
  exception_0 :: "exception_object option"

definition target :: "work_outcome \<Rightarrow> cells \<Rightarrow> cells" where
  "target func c =
     (case func of
        Returns v \<Rightarrow> c\<lparr>result_0 := v\<rparr>
      | Raises e \<Rightarrow> if is_Exception e then c\<lparr>exception_0 := Some e\<rparr> else c)"

text \<open>
  The \<open>wrapper\<close> of \<open>timeout_decorator(seconds)\<close>. \<open>if exception[0]:\<close> takes the truth
  value of the cell: \<open>None\<close> is false, and a caught exception has the truth value that
  its class gives it.
\<close>

definition timeout_wrapper :: "nat \<Rightarrow> unit_of_work \<Rightarrow> py_error + py_value" where
  "timeout_wrapper seconds w =
     (case start_error w of
        Some err \<Rightarrow> Inl err
      | None \<Rightarrow>
          if thread_is_alive seconds w then
            Inr (PDict [(''error'',
                           PStr (''Analysis timeout after '' @ str_nat seconds @ '' seconds'')),
                        (''partial'', PBool True)])
          else
            (let c = target (outcome w) \<lparr>result_0 = PNone, exception_0 = None\<rparr> in
             case exception_0 c of
               None \<Rightarrow> Inr (result_0 c)
             | Some e \<Rightarrow>
                 and_then (truth_value e) (\<lambda>raised.
                   if raised
                   then and_then (str_value e) (\<lambda>msg.
                          Inr (PDict [(''error'', PStr msg), (''partial'', PBool True)]))
                   else Inr (result_0 c))))"

section \<open>Properties of the cache engine\<close>

lemma min_from_mem: "min_from b xs \<in> set (b # xs)"
  by (induction xs arbitrary: b) auto

lemma min_from_le_best: "snd (min_from b xs) \<le> snd b"
proof (induction xs arbitrary: b)
  case Nil then show ?case by simp
next
  case (Cons y ys)
  have "snd (min_from (if snd y < snd b then y else b) ys) \<le> snd (if snd y < snd b then y else b)"
    by (rule Cons.IH)
  also have "\<dots> \<le> snd b" by auto
  finally show ?case by simp
qed

lemma min_from_le: "x \<in> set xs \<Longrightarrow> snd (min_from b xs) \<le> snd x"
proof (induction xs arbitrary: b)
  case Nil then show ?case by simp
next
  case (Cons y ys)
  show ?case
  proof (cases "x = y")
    case True
    have "snd (min_from (if snd y < snd b then y else b) ys) \<le> snd (if snd y < snd b then y else b)"
      by (rule min_from_le_best)
    also have "\<dots> \<le> snd y" by auto
    finally show ?thesis using True by simp
  next
    case False
    with Cons.prems have "x \<in> set ys" by simp
    then show ?thesis using Cons.IH by simp
  qed
qed

lemma dict_min_key_mem: "dict_min_key d = Some k \<Longrightarrow> k \<in> set (dict_keys d)"
  by (cases d) (use min_from_mem in \<open>force simp: dict_keys_def\<close>)+

lemma dict_delitem_present: "k \<in> set (dict_keys d) \<Longrightarrow> dict_delitem k d = Inr (AList.delete k d)"
  by (simp add: dict_delitem_def dict_contains_def)

lemma dict_keys_delete: "dict_keys (AList.delete k d) = removeAll k (dict_keys d)"
  by (simp add: dict_keys_def delete_keys)

lemma dict_keys_update:
  "dict_keys (AList.update k v d) = (if k \<in> set (dict_keys d) then dict_keys d else dict_keys d @ [k])"
  by (simp add: dict_keys_def update_keys)

lemma map_of_None_keys: "map_of d k = None \<longleftrightarrow> k \<notin> set (dict_keys d)"
  by (simp add: dict_keys_def map_of_eq_None_iff)

lemma evict_oldest_agree:
  assumes "keys_agree c"
  shows "evict_oldest c =
     (Inr (), case dict_min_key (access_times c) of None \<Rightarrow> c
               | Some k \<Rightarrow> c\<lparr>cache := AList.delete k (cache c),
                              access_times := AList.delete k (access_times c)\<rparr>)"
proof (cases "dict_min_key (access_times c)")
  case None then show ?thesis by (simp add: evict_oldest_def)
next
  case (Some k)
  then have "k \<in> set (dict_keys (access_times c))" by (rule dict_min_key_mem)
  moreover then have "k \<in> set (dict_keys (cache c))" using assms by (simp add: keys_agree_def)
  ultimately show ?thesis using Some
    by (simp add: evict_oldest_def dict_delitem_present)
qed

lemma keys_agree_delete:
  "keys_agree c \<Longrightarrow>
   keys_agree (c\<lparr>cache := AList.delete k (cache c), access_times := AList.delete k (access_times c)\<rparr>)"
  by (simp add: keys_agree_def dict_keys_delete distinct_removeAll)

lemma keys_agree_update:
  "keys_agree c \<Longrightarrow>
   keys_agree (c\<lparr>cache := AList.update k e (cache c), access_times := AList.update k t (access_times c)\<rparr>)"
  by (auto simp add: keys_agree_def dict_keys_update)

lemma keys_agree_evict: "keys_agree c \<Longrightarrow> keys_agree (snd (evict_oldest c))"
  by (simp add: evict_oldest_agree keys_agree_delete split: option.split)

lemma cache_set_agree:
  assumes "keys_agree c"
  shows "cache_set c key v ttl t1 t2 t3 =
     (Inr (),
      (after_evict c)\<lparr>cache := AList.update key
            \<lparr>entry_value = v, expires_at = t1 + of_int (effective_ttl ttl (default_ttl c)),
             created_at = t2\<rparr> (cache (after_evict c)),
          access_times := AList.update key t3 (access_times (after_evict c))\<rparr>)"
  using assms
  by (simp add: cache_set_def after_evict_def evict_oldest_agree split: option.split)


lemma cache_get_hit:
  "map_of (cache d) k = Some e \<Longrightarrow> now < expires_at e \<Longrightarrow>
   cache_get d k now ta =
     (Inr (Some (entry_value e)),
      d\<lparr>hits := hits d + 1, access_times := AList.update k ta (access_times d)\<rparr>)"
  by (simp add: cache_get_def)

lemma cache_get_absent:
  "map_of (cache d) k = None \<Longrightarrow> cache_get d k now ta = (Inr None, d\<lparr>misses := misses d + 1\<rparr>)"
  by (simp add: cache_get_def)

lemma map_of_Some_keys: "map_of d k = Some e \<Longrightarrow> k \<in> set (dict_keys d)"
  by (metis map_of_None_keys option.distinct(1))

lemma cache_get_expired:
  assumes "keys_agree d" "map_of (cache d) k = Some e" "expires_at e \<le> now"
  shows "cache_get d k now ta =
     (Inr None,
      d\<lparr>cache := AList.delete k (cache d), access_times := AList.delete k (access_times d),
        misses := misses d + 1\<rparr>)"
proof -
  have "k \<in> set (dict_keys (cache d))" using assms(2) by (rule map_of_Some_keys)
  moreover then have "k \<in> set (dict_keys (access_times d))"
    using assms(1) by (simp add: keys_agree_def)
  ultimately show ?thesis using assms(2,3)
    by (simp add: cache_get_def dict_delitem_present)
qed

lemma cache_set_stores:
  assumes "keys_agree c" "cache_set c key v ttl t1 t2 t3 = (r, c1)"
  shows "r = Inr () \<and> keys_agree c1 \<and>
         map_of (cache c1) key =
           Some \<lparr>entry_value = v, expires_at = t1 + of_int (effective_ttl ttl (default_ttl c)),
                 created_at = t2\<rparr> \<and>
         map_of (access_times c1) key = Some t3 \<and>
         hits c1 = hits c \<and> misses c1 = misses c"
proof -
  have ae: "keys_agree (after_evict c)"
    using assms(1) by (simp add: after_evict_def keys_agree_evict)
  have hm: "hits (after_evict c) = hits c \<and> misses (after_evict c) = misses c"
    using assms(1) by (simp add: after_evict_def evict_oldest_agree split: option.split)
  show ?thesis
    using assms(2) keys_agree_update[OF ae] hm
    by (auto simp add: cache_set_agree[OF assms(1)] update_conv')
qed

lemma within_capacity_evict:
  assumes "keys_agree c" "within_capacity c"
  shows "within_capacity (snd (evict_oldest c))"
proof -
  have "int (length (AList.delete k (cache c))) \<le> max_size c" for k
    using length_delete_le[of k "cache c"] assms(2) by (simp add: within_capacity_def)
  then show ?thesis using assms
    by (simp add: evict_oldest_agree within_capacity_def split: option.split)
qed

lemma length_delete_present:
  assumes "distinct (dict_keys d)" "k \<in> set (dict_keys d)"
  shows "length (AList.delete k d) + 1 = length d"
proof -
  have "length (AList.delete k d) = length (removeAll k (dict_keys d))"
    by (metis dict_keys_delete dict_keys_def length_map)
  also have "\<dots> = length (dict_keys d) - 1"
    using assms by (simp add: distinct_remove1_removeAll[symmetric] length_remove1)
  finally show ?thesis using assms(2) by (cases d) (auto simp: dict_keys_def)
qed

lemma length_update_le: "length (AList.update k v d) \<le> length d + 1"
  by (induction d) auto

lemma after_evict_room:
  assumes "keys_agree c" "within_capacity c" "1 \<le> max_size c"
  shows "int (length (cache (after_evict c))) + 1 \<le> max_size c \<and> max_size (after_evict c) = max_size c"
proof (cases "int (length (cache c)) \<ge> max_size c")
  case False
  then show ?thesis by (simp add: after_evict_def)
next
  case True
  then have ne: "cache c \<noteq> []" using assms(3) by auto
  then have "access_times c \<noteq> []" using assms(1) by (auto simp: keys_agree_def dict_keys_def)
  then obtain k where k: "dict_min_key (access_times c) = Some k"
    by (cases "access_times c") auto
  then have "k \<in> set (dict_keys (cache c))"
    using dict_min_key_mem assms(1) by (fastforce simp: keys_agree_def)
  then have "length (AList.delete k (cache c)) + 1 = length (cache c)"
    using assms(1) by (intro length_delete_present) (simp_all add: keys_agree_def)
  then show ?thesis using True k assms
    by (simp add: after_evict_def evict_oldest_agree within_capacity_def)
qed

lemma within_capacity_set:
  assumes "keys_agree c" "within_capacity c" "1 \<le> max_size c"
  shows "within_capacity (snd (cache_set c key v ttl t1 t2 t3))"
proof -
  have "int (length (AList.update key e (cache (after_evict c)))) \<le> max_size c" for e
    using after_evict_room[OF assms] length_update_le[of key e "cache (after_evict c)"] by linarith
  then show ?thesis using after_evict_room[OF assms]
    by (simp add: cache_set_agree[OF assms(1)] within_capacity_def)
qed

lemma keys_agree_set:
  assumes "keys_agree c"
  shows "keys_agree (snd (cache_set c key v ttl t1 t2 t3))"
  using cache_set_stores[OF assms, of key v ttl t1 t2 t3] by (metis prod.collapse)

lemma get_preserves:
  assumes "keys_agree c" "within_capacity c"
  shows "fst (cache_get c k now ta) \<noteq> Inl e \<and> keys_agree (snd (cache_get c k now ta)) \<and>
         within_capacity (snd (cache_get c k now ta))"
proof (cases "map_of (cache c) k")
  case None
  then show ?thesis using assms
    by (simp add: cache_get_absent keys_agree_def within_capacity_def)
next
  case (Some en)
  show ?thesis
  proof (cases "now < expires_at en")
    case True
    have kin: "k \<in> set (dict_keys (access_times c))"
      using map_of_Some_keys[OF Some] assms(1) by (simp add: keys_agree_def)
    show ?thesis using assms kin
      by (simp add: cache_get_hit[OF Some True] keys_agree_def within_capacity_def dict_keys_update)
  next
    case False
    then have ex: "expires_at en \<le> now" by simp
    have "length (AList.delete k (cache c)) \<le> length (cache c)" by (rule length_delete_le)
    then show ?thesis using assms keys_agree_delete[OF assms(1), of k]
      by (simp add: cache_get_expired[OF assms(1) Some ex] keys_agree_def within_capacity_def)
  qed
qed

lemma evict_preserves:
  assumes "keys_agree c" "within_capacity c"
  shows "fst (evict_oldest c) = Inr () \<and> keys_agree (snd (evict_oldest c)) \<and>
         within_capacity (snd (evict_oldest c))"
proof -
  have "fst (evict_oldest c) = Inr ()" by (simp add: evict_oldest_agree[OF assms(1)])
  then show ?thesis
    using keys_agree_evict[OF assms(1)] within_capacity_evict[OF assms] by simp
qed

lemma set_preserves:
  assumes "keys_agree c" "within_capacity c" "1 \<le> max_size c"
  shows "fst (cache_set c key v ttl t1 t2 t3) = Inr () \<and>
         keys_agree (snd (cache_set c key v ttl t1 t2 t3)) \<and>
         within_capacity (snd (cache_set c key v ttl t1 t2 t3))"
  using keys_agree_set[OF assms(1)] within_capacity_set[OF assms]
  by (simp add: cache_set_agree[OF assms(1)])

lemma clear_preserves:
  assumes "0 \<le> max_size c"
  shows "keys_agree (cache_clear c) \<and> within_capacity (cache_clear c)"
  using assms by (simp add: cache_clear_def keys_agree_def within_capacity_def dict_keys_def)

lemma dict_min_key_least_ex:
  assumes "d \<noteq> []"
  shows "\<exists>k t. dict_min_key d = Some k \<and> (k, t) \<in> set d \<and> (\<forall>(k', t') \<in> set d. t \<le> t')"
proof -
  obtain x xs where d: "d = x # xs" using assms by (cases d) auto
  let ?m = "min_from x xs"
  have "dict_min_key d = Some (fst ?m)" by (simp add: d)
  moreover have "(fst ?m, snd ?m) \<in> set d" using min_from_mem[of x xs] d by simp
  moreover have "\<forall>(k', t') \<in> set d. snd ?m \<le> t'"
    using min_from_le_best[of x xs] min_from_le[of _ xs x] d by auto
  ultimately show ?thesis by blast
qed

lemma set_full_keys:
  assumes "keys_agree c" "int (length (cache c)) = max_size c"
    and "dict_min_key (access_times c) = Some oldest"
  shows "set (dict_keys (cache (snd (cache_set c key v ttl t1 t2 t3)))) =
           insert key (set (dict_keys (cache c)) - {oldest})"
    and "set (dict_keys (cache c)) - {oldest} = set (dict_keys (cache (after_evict c)))"
    and "length (cache (after_evict c)) + 1 = length (cache c)"
proof -
  have ae: "after_evict c = c\<lparr>cache := AList.delete oldest (cache c),
      access_times := AList.delete oldest (access_times c)\<rparr>"
    using assms by (simp add: after_evict_def evict_oldest_agree)
  show "set (dict_keys (cache c)) - {oldest} = set (dict_keys (cache (after_evict c)))"
    by (auto simp add: ae dict_keys_delete)
  then show "set (dict_keys (cache (snd (cache_set c key v ttl t1 t2 t3)))) =
           insert key (set (dict_keys (cache c)) - {oldest})"
    by (auto simp add: cache_set_agree[OF assms(1)] dict_keys_update)
  have "oldest \<in> set (dict_keys (cache c))"
    using dict_min_key_mem[OF assms(3)] assms(1) by (simp add: keys_agree_def)
  then have "length (AList.delete oldest (cache c)) + 1 = length (cache c)"
    using assms(1) by (intro length_delete_present) (simp_all add: keys_agree_def)
  then show "length (cache (after_evict c)) + 1 = length (cache c)"
    by (simp add: ae)
qed

lemma update_fresh: "k \<notin> set (dict_keys d) \<Longrightarrow> AList.update k v d = d @ [(k, v)]"
  by (induction d) (auto simp: dict_keys_def)

lemma insert_all_snoc:
  "insert_all c (xs @ [(k, v, ttl, t1, t2, t3)]) = snd (cache_set (insert_all c xs) k v ttl t1 t2 t3)"
  by (simp add: insert_all_def)

lemma keys_stored_entry: "dict_keys (map (stored_entry d) ins) = map fst ins"
  by (induction ins) (auto simp: dict_keys_def stored_entry_def)

lemma keys_stored_access: "dict_keys (map stored_access ins) = map fst ins"
  by (induction ins) (auto simp: dict_keys_def stored_access_def)

lemma insert_all_below:
  assumes "distinct (map fst ins)" "int (length ins) \<le> N"
  shows "insert_all (new_cache N d) ins =
           (new_cache N d)\<lparr>cache := map (stored_entry d) ins,
                            access_times := map stored_access ins\<rparr>"
  using assms
proof (induction ins rule: rev_induct)
  case Nil
  then show ?case by (simp add: insert_all_def new_cache_def)
next
  case (snoc x xs)
  obtain k v ttl t1 t2 t3 where x: "x = (k, v, ttl, t1, t2, t3)" by (cases x) auto
  let ?c = "(new_cache N d)\<lparr>cache := map (stored_entry d) xs,
                            access_times := map stored_access xs\<rparr>"
  have IH: "insert_all (new_cache N d) xs = ?c" using snoc by simp
  have fresh: "k \<notin> set (map fst xs)" using snoc.prems(1) x by simp
  have small: "\<not> int (length (cache ?c)) \<ge> max_size ?c"
    using snoc.prems(2) by (simp add: new_cache_def)
  have "cache_set ?c k v ttl t1 t2 t3 =
      (Inr (), ?c\<lparr>cache := AList.update k (snd (stored_entry d x)) (cache ?c),
                  access_times := AList.update k t3 (access_times ?c)\<rparr>)"
    using small by (simp add: cache_set_def x stored_entry_def new_cache_def)
  moreover have "AList.update k (snd (stored_entry d x)) (cache ?c) = map (stored_entry d) (xs @ [x])"
  proof -
    have "k \<notin> set (dict_keys (map (stored_entry d) xs))"
      using fresh by (simp add: keys_stored_entry del: set_map)
    then have "AList.update k (snd (stored_entry d x)) (map (stored_entry d) xs) =
        map (stored_entry d) xs @ [(k, snd (stored_entry d x))]"
      by (rule update_fresh)
    moreover have "(k, snd (stored_entry d x)) = stored_entry d x"
      by (simp add: x stored_entry_def)
    ultimately show ?thesis by simp
  qed
  moreover have "AList.update k t3 (access_times ?c) = map stored_access (xs @ [x])"
  proof -
    have "k \<notin> set (dict_keys (map stored_access xs))"
      using fresh by (simp add: keys_stored_access del: set_map)
    then have "AList.update k t3 (map stored_access xs) = map stored_access xs @ [(k, t3)]"
      by (rule update_fresh)
    moreover have "(k, t3) = stored_access x" by (simp add: x stored_access_def)
    ultimately show ?thesis by simp
  qed
  ultimately show ?case
    unfolding x insert_all_snoc IH by (simp add: new_cache_def)
qed


lemma map_of_stored_entry:
  assumes "distinct (map fst ins)" "y \<in> set ins"
  shows "map_of (map (stored_entry d) ins) (fst y) = Some (snd (stored_entry d y))"
proof -
  have "distinct (map fst (map (stored_entry d) ins))"
    using assms(1) by (metis keys_stored_entry dict_keys_def)
  moreover have "(fst y, snd (stored_entry d y)) \<in> set (map (stored_entry d) ins)"
  proof -
    have "stored_entry d y = (fst y, snd (stored_entry d y))"
      by (cases y) (simp add: stored_entry_def)
    then show ?thesis using assms(2) by (metis image_eqI set_map)
  qed
  ultimately show ?thesis by (rule map_of_is_SomeI)
qed

lemma keys_agree_stored:
  assumes "distinct (map fst ins)"
  shows "keys_agree ((new_cache N d)\<lparr>cache := map (stored_entry d) ins,
                            access_times := map stored_access ins\<rparr>)"
  using assms by (simp add: keys_agree_def keys_stored_entry keys_stored_access)

section \<open>Properties of the scorer, the detector and the guard\<close>

lemma ratio_lt_3:
  assumes "0 < (b::nat)"
  shows "((of_nat a :: rat) / of_nat b < 3 / 10) = (10 * a < 3 * b)"
proof -
  have pb: "(0::rat) < of_nat b" using assms by simp
  have "((of_nat a :: rat) / of_nat b < 3 / 10) = ((of_nat a :: rat) < 3 / 10 * of_nat b)"
    by (rule pos_divide_less_eq[OF pb])
  also have "\<dots> = ((of_nat (10 * a) :: rat) < of_nat (3 * b))" by auto
  also have "\<dots> = (10 * a < 3 * b)" by (rule of_nat_less_iff)
  finally show ?thesis .
qed

lemma ratio_gt_7:
  assumes "0 < (b::nat)"
  shows "(7 / 10 < (of_nat a :: rat) / of_nat b) = (7 * b < 10 * a)"
proof -
  have pb: "(0::rat) < of_nat b" using assms by simp
  have "(7 / 10 < (of_nat a :: rat) / of_nat b) = (7 / 10 * of_nat b < (of_nat a :: rat))"
    by (rule pos_less_divide_eq[OF pb])
  also have "\<dots> = ((of_nat (7 * b) :: rat) < of_nat (10 * a))" by auto
  also have "\<dots> = (7 * b < 10 * a)" by (rule of_nat_less_iff)
  finally show ?thesis .
qed

lemma round_tenths_near: "\<bar>of_int (round_tenths up x) - 10 * x\<bar> \<le> (1 / 2 :: rat)"
proof -
  define f where "f = \<lfloor>10 * x\<rfloor>"
  define r where "r = 10 * x - of_int f"
  have r0: "0 \<le> r" and r1: "r < 1" unfolding r_def f_def by linarith+
  have x: "10 * x = of_int f + r" by (simp add: r_def)
  have rt: "round_tenths up x = (if r < 1 / 2 then f else if 1 / 2 < r then f + 1 else if up then f + 1 else f)"
    by (simp add: round_tenths_def Let_def f_def r_def)
  show ?thesis unfolding rt x using r0 r1 by auto
qed

lemma round_tenths_gt:
  assumes "of_int c + 1 / 2 < 10 * x"
  shows "c < round_tenths up x"
proof -
  have "of_int c < (of_int (round_tenths up x) :: rat)"
    using round_tenths_near[of up x] assms by linarith
  then show ?thesis by simp
qed

lemma round_tenths_le:
  assumes "10 * x < of_int c + 1 / 2"
  shows "round_tenths up x \<le> c"
proof -
  have "(of_int (round_tenths up x) :: rat) < of_int c + 1"
    using round_tenths_near[of up x] assms by linarith
  then have "(of_int (round_tenths up x) :: rat) < of_int (c + 1)" by simp
  then have "round_tenths up x < c + 1" by (simp only: of_int_less_iff)
  then show ?thesis by simp
qed


lemma tenfold_ratio_gt:
  assumes "0 < (n::int)" "(2 * c + 1) * n < 2000 * k"
  shows "of_int c + 1 / 2 < 10 * ((of_int k :: rat) / of_int n * 100)"
proof -
  have pn: "(0::rat) < of_int n" using assms(1) by simp
  have "(of_int ((2 * c + 1) * n) :: rat) < of_int (2000 * k)"
    using assms(2) by (simp only: of_int_less_iff)
  then have "(2 * of_int c + 1) * (of_int n :: rat) < 2000 * of_int k" by simp
  then have "(2 * of_int c + 1 :: rat) < 2000 * of_int k / of_int n"
    using pn by (simp add: pos_less_divide_eq)
  then show ?thesis by simp
qed

lemma tenfold_ratio_lt:
  assumes "0 < (n::int)" "2000 * k < (2 * c + 1) * n"
  shows "10 * ((of_int k :: rat) / of_int n * 100) < of_int c + 1 / 2"
proof -
  have pn: "(0::rat) < of_int n" using assms(1) by simp
  have "(of_int (2000 * k) :: rat) < of_int ((2 * c + 1) * n)"
    using assms(2) by (simp only: of_int_less_iff)
  then have "2000 * of_int k < (2 * of_int c + 1) * (of_int n :: rat)" by simp
  then have "2000 * of_int k / of_int n < (2 * of_int c + 1 :: rat)"
    using pn by (simp add: pos_divide_less_eq)
  then show ?thesis by simp
qed

lemma round_tenths_61_203: "round_tenths up (6100 / 203) = 300"
proof -
  have fl: "\<lfloor>10 * (6100 / 203) :: rat\<rfloor> = 300"
    by (rule floor_unique) simp_all
  show ?thesis unfolding round_tenths_def Let_def fl by simp
qed

lemma any_dir_hasI: "d \<in> set dirs \<Longrightarrow> str_contains kw (str_lower d) \<Longrightarrow> any_dir_has kw dirs"
  by (auto simp: any_dir_has_def list_ex_iff)

lemma lower_controllers: "str_contains ''controller'' (str_lower ''controllers'')"
  by code_simp

lemma lower_models: "str_contains ''model'' (str_lower ''models'')"
  by code_simp

lemma lower_views: "str_contains ''view'' (str_lower ''views'')"
  by code_simp

section \<open>Properties of the report assembler\<close>

lemma yields_then: "(\<And>x. yields Q (f x)) \<Longrightarrow> yields Q (then_counted m f)"
  by (auto simp: yields_def then_counted_def split: prod.splits sum.splits)

lemma yields_no_call: "Q v \<Longrightarrow> yields Q (no_call (Inr v))"
  by (simp add: yields_def no_call_def)

lemma assemble_report_truthy: "yields truthy (assemble_report ops rt owner repo)"
  unfolding assemble_report_def Let_def
  by (intro yields_then yields_no_call) simp

lemma cache_set_Inr:
  assumes "cache_set c k v ttl t1 t2 t3 = (Inr u, c2)"
  shows "map_of (cache c2) k =
      Some \<lparr>entry_value = v, expires_at = t1 + of_int (effective_ttl ttl (default_ttl c2)),
            created_at = t2\<rparr>"
  using assms
  by (auto simp: cache_set_def update_conv' split: prod.splits sum.splits if_splits)

lemma analyze_uncached_Inr:
  assumes "analyze_uncached ops rt ck owner repo w c1 = (Inr report, w1)"
  shows "\<exists>e. map_of (cache (repo_cache w1)) (analysis_key owner repo) = Some e \<and>
             entry_value e = report \<and> expires_at e = set_expiry ck + 1800 \<and> truthy report"
proof -
  obtain r n where a: "assemble_report ops rt owner repo = (r, n)" by (cases "assemble_report ops rt owner repo")
  from assms a obtain u c2 where
    r: "r = Inr report"
    and cs: "cache_repository_analysis owner repo report c1 (set_expiry ck) (set_created ck) (set_access ck) = (Inr u, c2)"
    and w1: "w1 = w\<lparr>repo_cache := c2, provider_calls := provider_calls w + n\<rparr>"
    by (auto simp: analyze_uncached_def split: sum.splits prod.splits)
  have t: "truthy report" using assemble_report_truthy[of ops rt owner repo] a r
    by (simp add: yields_def)
  from cache_set_Inr[OF cs[unfolded cache_repository_analysis_def]]
  have "map_of (cache c2) (analysis_key owner repo) =
      Some \<lparr>entry_value = report, expires_at = set_expiry ck + 1800, created_at = set_created ck\<rparr>"
    by (simp add: effective_ttl_def)
  then show ?thesis using t w1 by simp
qed



lemma analyze_repository_parsed:
  assumes "parse_repo_url rt url = Inr (owner, repo)"
    and "get_cached_analysis owner repo (repo_cache w) (get_check ck) (get_access ck) = (g, c1)"
  shows "analyze_repository ops rt ck url w =
     reraise (case g of
                Inl e \<Rightarrow> (Inl e, w\<lparr>repo_cache := c1\<rparr>)
              | Inr cached \<Rightarrow>
                  if cache_hit cached then (Inr (the cached), w\<lparr>repo_cache := c1\<rparr>)
                  else analyze_uncached ops rt ck owner repo w c1)"
  using assms by (simp add: analyze_repository_def)

lemma reraise_Inr: "reraise m = (Inr v, w) \<longleftrightarrow> m = (Inr v, w)"
  by (cases m; cases "fst m") (auto simp: reraise_def)

lemma cache_get_Some:
  assumes "cache_get c k t ta = (Inr (Some v), c1)"
  shows "\<exists>e. map_of (cache c) k = Some e \<and> entry_value e = v \<and>
             c1 = c\<lparr>hits := hits c + 1, access_times := AList.update k ta (access_times c)\<rparr>"
proof (cases "map_of (cache c) k")
  case None
  then show ?thesis using assms by (simp add: cache_get_def)
next
  case (Some e)
  show ?thesis
  proof (cases "t < expires_at e")
    case True
    then show ?thesis using assms Some by (simp add: cache_get_def)
  next
    case False
    then show ?thesis using assms Some
      by (simp add: cache_get_def split: sum.splits)
  qed
qed

lemma first_call_caches:
  assumes first: "analyze_repository ops rt ck url w0 = (Inr report, w1)"
    and id1: "parse_repo_url rt url = Inr (owner, repo)"
  shows "\<exists>e. map_of (cache (repo_cache w1)) (analysis_key owner repo) = Some e \<and>
             entry_value e = report \<and> truthy report \<and>
             (map_of (cache (repo_cache w0)) (analysis_key owner repo) = None \<longrightarrow>
                expires_at e = set_expiry ck + 1800)"
proof -
  let ?k = "analysis_key owner repo"
  let ?c = "repo_cache w0"
  obtain g c1 where g: "get_cached_analysis owner repo ?c (get_check ck) (get_access ck) = (g, c1)"
    by (cases "get_cached_analysis owner repo ?c (get_check ck) (get_access ck)")
  note ar = analyze_repository_parsed[OF id1 g, of ops]
  show ?thesis
  proof (cases g)
    case (Inl e)
    then show ?thesis using first unfolding ar by (simp add: reraise_def)
  next
    case (Inr cached)
    show ?thesis
    proof (cases "cache_hit cached")
      case True
      then obtain v where v: "cached = Some v" "truthy v"
        by (cases cached) (simp_all add: cache_hit_def)
      have res: "report = v" "w1 = w0\<lparr>repo_cache := c1\<rparr>"
        using first True v unfolding ar Inr by (simp_all add: reraise_def)
      from cache_get_Some[OF g[unfolded get_cached_analysis_def Inr v(1)]] obtain e where
        e: "map_of (cache ?c) ?k = Some e" "entry_value e = v"
           "c1 = ?c\<lparr>hits := hits ?c + 1, access_times := AList.update ?k (get_access ck) (access_times ?c)\<rparr>"
        by blast
      show ?thesis using e v res by simp
    next
      case False
      have "reraise (analyze_uncached ops rt ck owner repo w0 c1) = (Inr report, w1)"
        using first False unfolding ar Inr by simp
      then have u: "analyze_uncached ops rt ck owner repo w0 c1 = (Inr report, w1)"
        by (simp only: reraise_Inr)
      from analyze_uncached_Inr[OF u] show ?thesis by blast
    qed
  qed
qed

lemma isl_and_then: "(\<And>x. isl (f x)) \<Longrightarrow> isl (and_then m f)"
  by (cases m) (simp_all add: and_then_def)

lemma isl_and_then_left: "isl m \<Longrightarrow> isl (and_then m f)"
  by (cases m) (simp_all add: and_then_def)

lemma process_activity_degraded_releases:
  "isl (process_activity rt commits issues prs (degraded_response reason))"
  unfolding process_activity_def
  apply (rule isl_and_then, rule isl_and_then, rule isl_and_then, rule isl_and_then)
  apply (rule isl_and_then, rule isl_and_then, rule isl_and_then, rule isl_and_then)
  apply (rule isl_and_then, rule isl_and_then, rule isl_and_then)
  apply (rule isl_and_then_left)
  apply (simp add: degraded_response_def)
  done

lemma process_activity_deep_degraded_releases:
  "isl (process_activity_deep rt commits issues prs (degraded_response reason) deep)"
  unfolding process_activity_deep_def
  by (rule isl_and_then_left) (rule process_activity_degraded_releases)

lemma then_counted_Inr: "then_counted (Inr x, n) f = (fst (f x), n + snd (f x))"
  by (simp add: then_counted_def split: prod.splits)

lemma then_counted_Inl: "then_counted (Inl e, n) f = (Inl e, n)"
  by (simp add: then_counted_def)

lemma fails_then: "(\<And>x. fails (f x)) \<Longrightarrow> fails (then_counted m f)"
proof -
  assume a: "\<And>x. fails (f x)"
  obtain r n where m: "m = (r, n)" by (cases m)
  show ?thesis
  proof (cases r)
    case (Inl e) then show ?thesis by (simp add: m then_counted_Inl fails_def)
  next
    case (Inr x) then show ?thesis using a[of x] by (simp add: m then_counted_Inr fails_def)
  qed
qed

lemma fails_then_left: "fails m \<Longrightarrow> fails (then_counted m f)"
proof -
  assume a: "fails m"
  obtain r n where m: "m = (r, n)" by (cases m)
  from a m obtain e where "r = Inl e" by (cases r) (simp_all add: fails_def)
  then show ?thesis by (simp add: m then_counted_Inl fails_def)
qed

lemma fails_then_value: "m = (Inr v, n) \<Longrightarrow> fails (f v) \<Longrightarrow> fails (then_counted m f)"
  by (simp add: then_counted_Inr fails_def)

lemma fails_no_call: "isl r \<Longrightarrow> fails (no_call r)"
  by (simp add: fails_def no_call_def)

lemma assemble_report_degraded_releases:
  assumes "get_releases ops owner repo = Inr (degraded_response reason)"
  shows "fails (assemble_report ops rt owner repo)"
  unfolding assemble_report_def
  apply (rule fails_then, rule fails_then, rule fails_then, rule fails_then)
  apply (rule fails_then_value[where v = "degraded_response reason" and n = 1])
   apply (simp add: one_call_def assms)
  apply (rule fails_then, rule fails_then, rule fails_then, rule fails_then)
  apply (rule fails_then, rule fails_then, rule fails_then, rule fails_then)
  apply (rule fails_then, rule fails_then, rule fails_then, rule fails_then)
  apply (rule fails_then, rule fails_then, rule fails_then, rule fails_then)
  apply (rule fails_then_left)
  apply (rule fails_no_call)
  apply (rule process_activity_deep_degraded_releases)
  done


lemma analyze_rejects_malformed_locator:
  "parse_repo_url rt url = Inl e \<Longrightarrow>
   analyze_repository ops rt ck url w = (Inl (RepositoryAnalysisFailed e), w)"
  by (simp add: analyze_repository_def reraise_def)

lemma cache_get_missing:
  "\<not> dict_contains (cache c) k \<Longrightarrow> cache_get c k t ta = (Inr None, c\<lparr>misses := misses c + 1\<rparr>)"
  by (simp add: dict_contains_def cache_get_absent map_of_None_keys)

lemma analyze_uncached_fails:
  assumes "fails (assemble_report ops rt owner repo)"
  shows "\<exists>e. fst (analyze_uncached ops rt ck owner repo w c1) = Inl e"
proof -
  obtain r n where a: "assemble_report ops rt owner repo = (r, n)"
    by (cases "assemble_report ops rt owner repo")
  from assms a obtain e where "r = Inl e" by (cases r) (simp_all add: fails_def)
  then show ?thesis using a by (simp add: analyze_uncached_def)
qed

lemma fst_reraise_Inl: "fst m = Inl e \<Longrightarrow> fst (reraise m) = Inl (RepositoryAnalysisFailed e)"
  by (cases m) (simp add: reraise_def)

lemma and_then_Inr: "and_then m f = Inr y \<longleftrightarrow> (\<exists>x. m = Inr x \<and> f x = Inr y)"
  by (cases m) (simp_all add: and_then_def)

lemma process_activity_keys:
  assumes "process_activity rt commits issues prs releases = Inr base"
  shows "dict_keys base =
    [''recent_commit_patterns'', ''commit_frequency_per_day'', ''release_cadence'',
     ''open_issues_count'', ''open_pull_requests'', ''pull_request_velocity'',
     ''contributor_activity'', ''breaking_changes'', ''latest_release'']"
  using assms unfolding process_activity_def and_then_Inr
  by (auto simp: dict_keys_def)

lemma set_if_present_keys:
  assumes "set_if_present deep src tgt conv base = Inr base'"
  shows "set (dict_keys base') =
           set (dict_keys base) \<union> (if has_truthy deep src then {tgt} else {})"
proof -
  from assms obtain v where v: "py_get deep src PNone = Inr v"
    and r: "(if truthy v
       then and_then (py_item deep src) (\<lambda>v'.
            and_then (conv v') (\<lambda>w. Inr (AList.update tgt w base)))
       else Inr base) = Inr base'"
    unfolding set_if_present_def and_then_Inr by blast
  show ?thesis
  proof (cases "truthy v")
    case True
    then have "and_then (py_item deep src) (\<lambda>v'.
            and_then (conv v') (\<lambda>w. Inr (AList.update tgt w base))) = Inr base'"
      using r by simp
    then obtain w where "base' = AList.update tgt w base"
      by (auto simp: and_then_Inr)
    then show ?thesis using True v
      by (auto simp: has_truthy_def dict_keys_update)
  next
    case False
    then show ?thesis using r v by (simp add: has_truthy_def)
  qed
qed


lemma process_activity_deep_keys:
  assumes "process_activity_deep rt commits issues prs releases deep = Inr activity"
  shows "set (dict_keys activity) =
    {''recent_commit_patterns'', ''commit_frequency_per_day'', ''release_cadence'',
     ''open_issues_count'', ''open_pull_requests'', ''pull_request_velocity'',
     ''contributor_activity'', ''breaking_changes'', ''latest_release'',
     ''issue_resolution_time'', ''commit_message_quality''}
    \<union> (if has_truthy deep ''peak_hours'' then {''peak_development_hours''} else {})
    \<union> (if has_truthy deep ''peak_days'' then {''peak_development_days''} else {})
    \<union> (if has_truthy deep ''contributor_distribution'' then {''top_contributors''} else {})"
proof -
  from assms obtain base velocity resolution quality b1 b2 b3 bc where
    pb: "process_activity rt commits issues prs releases = Inr base"
    and s1: "set_if_present deep ''peak_hours'' ''peak_development_hours'' first_two_joined
               (AList.update ''commit_message_quality'' quality
                 (AList.update ''issue_resolution_time'' resolution
                   (AList.update ''pull_request_velocity'' velocity base))) = Inr b1"
    and s2: "set_if_present deep ''peak_days'' ''peak_development_days'' first_two_joined b1 = Inr b2"
    and s3: "set_if_present deep ''contributor_distribution'' ''top_contributors'' Inr b2 = Inr b3"
    and a: "activity = AList.update ''breaking_changes'' bc b3"
    unfolding process_activity_deep_def and_then_Inr Let_def by blast
  have k0: "set (dict_keys (AList.update ''commit_message_quality'' quality
                 (AList.update ''issue_resolution_time'' resolution
                   (AList.update ''pull_request_velocity'' velocity base)))) =
     {''recent_commit_patterns'', ''commit_frequency_per_day'', ''release_cadence'',
     ''open_issues_count'', ''open_pull_requests'', ''pull_request_velocity'',
     ''contributor_activity'', ''breaking_changes'', ''latest_release'',
     ''issue_resolution_time'', ''commit_message_quality''}"
    by (simp add: dict_keys_update process_activity_keys[OF pb] insert_commute)
  have k3: "set (dict_keys b3) =
    {''recent_commit_patterns'', ''commit_frequency_per_day'', ''release_cadence'',
     ''open_issues_count'', ''open_pull_requests'', ''pull_request_velocity'',
     ''contributor_activity'', ''breaking_changes'', ''latest_release'',
     ''issue_resolution_time'', ''commit_message_quality''}
    \<union> (if has_truthy deep ''peak_hours'' then {''peak_development_hours''} else {})
    \<union> (if has_truthy deep ''peak_days'' then {''peak_development_days''} else {})
    \<union> (if has_truthy deep ''contributor_distribution'' then {''top_contributors''} else {})"
    unfolding set_if_present_keys[OF s3] set_if_present_keys[OF s2] set_if_present_keys[OF s1] k0
    by (rule refl)
  have "''breaking_changes'' \<in> set (dict_keys b3)" unfolding k3 by simp
  then have "set (dict_keys activity) = set (dict_keys b3)"
    unfolding a by (simp add: dict_keys_update)
  then show ?thesis unfolding k3 .
qed


lemma process_metadata_keys:
  assumes "process_metadata rt repo_info languages contributors = Inr metadata"
  shows "dict_keys metadata =
    [''language_composition'', ''primary_stack'', ''repository_size_kb'', ''commit_frequency'',
     ''contributor_count'', ''license_type'', ''dependency_count'', ''latest_release'',
     ''created_date'', ''last_updated'', ''stars'', ''forks'', ''watchers'']"
  using assms unfolding process_metadata_def and_then_Inr Let_def
  by (auto simp: dict_keys_def)

lemma process_documentation_keys:
  assumes "process_documentation rt readme repo_info = Inr documentation"
  shows "dict_keys documentation =
    [''readme_summary'', ''api_documentation'', ''installation_requirements'',
     ''configuration_variables'', ''known_limitations'', ''compatibility_constraints'']"
  using assms unfolding process_documentation_def and_then_Inr Let_def
  by (auto simp: dict_keys_def)

lemma process_architecture_keys:
  assumes "process_architecture rt repo_info package_json requirements_txt = Inr base"
  shows "dict_keys base =
    [''entry_points'', ''directory_structure'', ''core_dependencies'', ''dev_dependencies'',
     ''build_system'', ''deployment_pipeline'']"
  using assms unfolding process_architecture_def and_then_Inr Let_def
  by (auto simp: dict_keys_def)

lemma process_quality_metrics_keys:
  assumes "process_quality_metrics repo_info workflows = Inr base"
  shows "dict_keys base =
    [''test_coverage_percentage'', ''testing_framework'', ''linting_standards'',
     ''ci_cd_pipeline_status'', ''automation_scope'', ''security_vulnerabilities'',
     ''recent_workflow_results'']"
  using assms unfolding process_quality_metrics_def and_then_Inr Let_def
  by (auto simp: dict_keys_def)

lemma process_technical_debt_keys:
  assumes "process_technical_debt rt repo_info languages dependencies = Inr base"
  shows "dict_keys base =
    [''outdated_dependencies'', ''security_implications'', ''code_complexity_hotspots'',
     ''performance_bottlenecks'', ''scalability_concerns'', ''maintenance_burden'',
     ''debt_indicators'', ''refactoring_opportunities'']"
  using assms unfolding process_technical_debt_def and_then_Inr Let_def
  by (auto simp: dict_keys_def)

lemma has_truthy_get:
  assumes "py_get d key dflt = Inr v" and "\<not> truthy dflt"
  shows "truthy v \<longleftrightarrow> has_truthy d key"
  using assms by (cases d) (auto simp: has_truthy_def split: option.splits)

lemma process_quality_metrics_deep_keys:
  assumes "process_quality_metrics_deep rt repo_info workflows deep_quality tree = Inr quality"
  shows "dict_keys quality =
    [''test_coverage_percentage'', ''testing_framework'', ''linting_standards'',
     ''ci_cd_pipeline_status'', ''automation_scope'', ''security_vulnerabilities'',
     ''recent_workflow_results'', ''code_coverage'', ''documentation_quality'',
     ''branch_protection'', ''code_review_process'']"
proof -
  from assms obtain base where
    b: "process_quality_metrics repo_info workflows = Inr base"
    and r: "\<exists>v1 v2 v3 v4 v5 v6 v7. quality =
        AList.update ''code_review_process'' v7
         (AList.update ''branch_protection'' v6
          (AList.update ''automation_scope'' v5
           (AList.update ''documentation_quality'' v4
            (AList.update ''linting_standards'' v3
             (AList.update ''code_coverage'' v2
              (AList.update ''testing_framework'' v1 base))))))"
    unfolding process_quality_metrics_deep_def and_then_Inr Let_def by blast
  from r show ?thesis
    by (auto simp: dict_keys_update process_quality_metrics_keys[OF b])
qed

lemma process_architecture_deep_keys:
  assumes "process_architecture_deep ops rt repo_info package_json requirements_txt tree deps
             = Inr architecture"
  shows "set (dict_keys architecture) =
    {''entry_points'', ''directory_structure'', ''core_dependencies'', ''dev_dependencies'',
     ''build_system'', ''deployment_pipeline'', ''architecture_pattern'',
     ''data_flow_analysis'', ''scalability_assessment'', ''performance_considerations''}
    \<union> (if has_truthy tree ''file_types'' then {''primary_technologies''} else {})"
proof -
  from assms obtain base v1 v2 v3 v4 v5 b1 file_types where
    b: "process_architecture rt repo_info package_json requirements_txt = Inr base"
    and s: "set_if_present deps ''package_managers'' ''deployment_pipeline'' detected_managers
              (AList.update ''directory_structure'' v5
               (AList.update ''performance_considerations'' v4
                (AList.update ''scalability_assessment'' v3
                 (AList.update ''data_flow_analysis'' v2
                  (AList.update ''architecture_pattern'' v1 base))))) = Inr b1"
    and f: "py_get tree ''file_types'' (PDict []) = Inr file_types"
    and r: "(if truthy file_types then
         and_then (most_common rt 5 file_types) (\<lambda>top_types.
           Inr (AList.update ''primary_technologies''
                  (PStr (intersperse '', ''
                           (map (\<lambda>tc. py_str rt (fst tc) @ '': '' @ py_str rt (snd tc)
                                         @ '' files'') top_types)))
                  b1))
       else Inr b1) = Inr architecture"
    unfolding process_architecture_deep_def and_then_Inr Let_def by blast
  have k1: "set (dict_keys b1) =
    {''entry_points'', ''directory_structure'', ''core_dependencies'', ''dev_dependencies'',
     ''build_system'', ''deployment_pipeline'', ''architecture_pattern'',
     ''data_flow_analysis'', ''scalability_assessment'', ''performance_considerations''}"
    unfolding set_if_present_keys[OF s]
    by (auto simp: dict_keys_update process_architecture_keys[OF b])
  have t: "truthy file_types \<longleftrightarrow> has_truthy tree ''file_types''"
    by (rule has_truthy_get[OF f]) simp
  show ?thesis
  proof (cases "truthy file_types")
    case True
    then obtain w where "architecture = AList.update ''primary_technologies'' w b1"
      using r by (auto simp: and_then_Inr)
    then show ?thesis using True t k1 by (auto simp: dict_keys_update)
  next
    case False
    then show ?thesis using r t k1 by simp
  qed
qed

lemma process_technical_debt_deep_keys:
  assumes "process_technical_debt_deep ops rt repo_info languages tree deps quality security
             = Inr debt"
  shows "set (dict_keys debt) =
    {''outdated_dependencies'', ''security_implications'', ''code_complexity_hotspots'',
     ''performance_bottlenecks'', ''scalability_concerns'', ''maintenance_burden'',
     ''debt_indicators'', ''refactoring_opportunities''}
    \<union> (if has_truthy security ''security_features'' then {''security_features''} else {})"
proof -
  from assms obtain base v1 v2 v3 v4 v5 v6 v7 where
    b: "process_technical_debt rt repo_info languages deps = Inr base"
    and s: "set_if_present security ''security_features'' ''security_features'' Inr
              (AList.update ''refactoring_opportunities'' v7
               (AList.update ''debt_indicators'' v6
                (AList.update ''scalability_concerns'' v5
                 (AList.update ''performance_bottlenecks'' v4
                  (AList.update ''code_complexity_hotspots'' v3
                   (AList.update ''security_implications'' v2
                    (AList.update ''outdated_dependencies'' v1 base))))))) = Inr debt"
    unfolding process_technical_debt_deep_def and_then_Inr Let_def by blast
  show ?thesis
    unfolding set_if_present_keys[OF s]
    by (auto simp: dict_keys_update process_technical_debt_keys[OF b])
qed


lemma yields_then_value:
  "(\<And>x n. m = (Inr x, n) \<Longrightarrow> yields Q (f x)) \<Longrightarrow> yields Q (then_counted m f)"
proof -
  assume a: "\<And>x n. m = (Inr x, n) \<Longrightarrow> yields Q (f x)"
  obtain r n where m: "m = (r, n)" by (cases m)
  show ?thesis
  proof (cases r)
    case (Inl e) then show ?thesis by (simp add: m then_counted_Inl yields_def)
  next
    case (Inr x)
    have "yields Q (f x)" using a[of x n] m Inr by simp
    then have "\<forall>y k. f x = (Inr y, k) \<longrightarrow> Q y" by (simp add: yields_def)
    then have "\<forall>y. fst (f x) = Inr y \<longrightarrow> Q y" by (metis prod.collapse)
    then show ?thesis unfolding m Inr then_counted_Inr yields_def by simp
  qed
qed

lemma analyze_security_posture_features:
  assumes "analyze_security_posture rt deps quality = Inr security"
  shows "has_truthy security ''security_features''"
  using assms unfolding analyze_security_posture_def and_then_Inr Let_def
  by (auto simp: has_truthy_def)

lemma assemble_report_shape:
  "yields (\<lambda>report. \<exists>sections tree deps quality security commits issues prs deep n
                      repo_info languages contributors package_json requirements workflows
                      readme releases metadata architecture quality_metrics documentation
                      activity debt.
       report = PDict sections \<and>
       analyze_file_tree ops owner repo = (Inr tree, n) \<and>
       analyze_security_posture rt deps quality = Inr security \<and>
       analyze_commit_activity ops commits issues prs = Inr deep \<and>
       process_metadata rt repo_info languages contributors = Inr metadata \<and>
       process_architecture_deep ops rt repo_info package_json requirements tree deps
         = Inr architecture \<and>
       process_quality_metrics_deep rt repo_info workflows quality tree = Inr quality_metrics \<and>
       process_documentation rt readme repo_info = Inr documentation \<and>
       process_activity_deep rt commits issues prs releases deep = Inr activity \<and>
       process_technical_debt_deep ops rt repo_info languages tree deps quality security
         = Inr debt \<and>
       map_of sections ''repository_metadata'' = Some (PDict metadata) \<and>
       map_of sections ''architecture_synopsis'' = Some (PDict architecture) \<and>
       map_of sections ''code_quality_metrics'' = Some (PDict quality_metrics) \<and>
       map_of sections ''documentation_extraction'' = Some (PDict documentation) \<and>
       map_of sections ''development_activity'' = Some (PDict activity) \<and>
       map_of sections ''technical_debt_assessment'' = Some (PDict debt) \<and>
       section_has sections ''raw_data''
         {''fetched_at'', ''repo_url'', ''api_calls_made'', ''enhanced_analysis''} \<and>
       {''repository_metadata'', ''architecture_synopsis'', ''code_quality_metrics'',
        ''documentation_extraction'', ''development_activity'',
        ''technical_debt_assessment'', ''raw_data''} \<subseteq> set (dict_keys sections))
     (assemble_report ops rt owner repo)"
  unfolding assemble_report_def
  apply (rule yields_then_value)+
  apply (simp add: yields_def no_call_def one_call_def Let_def dict_keys_def update_conv'
      dom_update section_has_def del: One_nat_def)
  apply (intro conjI impI exI)
  apply (assumption | simp add: dict_keys_def update_conv' dom_update section_has_def)+
  done

lemma section_hasI:
  "map_of sections name = Some (PDict d) \<Longrightarrow> set (dict_keys d) = keys \<Longrightarrow>
   section_has sections name keys"
  by (simp add: section_has_def)


lemma analyze_uncached_assembled:
  assumes "analyze_uncached ops rt ck owner repo w c1 = (Inr report, w1)"
  shows "\<exists>n. assemble_report ops rt owner repo = (Inr report, n)"
proof -
  obtain r n where a: "assemble_report ops rt owner repo = (r, n)"
    by (cases "assemble_report ops rt owner repo")
  from assms a have "r = Inr report"
    by (auto simp: analyze_uncached_def split: sum.splits prod.splits)
  then show ?thesis using a by blast
qed

section \<open>Claims about the cache engine\<close>

text \<open>
  Claim C4 (cache TTL semantics), as the code has it. In a cache whose two dicts hold
  the same keys, \<open>set(key, value, ttl=T)\<close> with \<open>T\<close> other than \<open>0\<close> does not raise;
  afterwards \<open>get(key)\<close> returns the value at every clock reading before
  \<open>t_set + T\<close>, stores the new access time and adds one to \<open>hits\<close>; at every reading
  from \<open>t_set + T\<close> on it returns \<open>None\<close>, deletes the key from both dicts and adds one
  to \<open>misses\<close>. In any such cache a lookup of an unexpired entry is a hit, a lookup of
  an expired entry deletes it and is a miss, and a lookup of an absent key is a miss
  that changes nothing else.
\<close>

theorem cache_ttl_semantics:
  assumes "keys_agree c" and "T \<noteq> 0"
    and "cache_set c key v (Some T) t_set t_created t_stored = (r, c1)"
  shows
    "r = Inr () \<and>
     (\<forall>now ta. now < t_set + of_int T \<longrightarrow>
        cache_get c1 key now ta =
          (Inr (Some v),
           c1\<lparr>hits := hits c1 + 1, access_times := AList.update key ta (access_times c1)\<rparr>)) \<and>
     (\<forall>now ta. t_set + of_int T \<le> now \<longrightarrow>
        cache_get c1 key now ta =
          (Inr None,
           c1\<lparr>cache := AList.delete key (cache c1),
              access_times := AList.delete key (access_times c1),
              misses := misses c1 + 1\<rparr>) \<and>
        \<not> dict_contains (AList.delete key (cache c1)) key \<and>
        \<not> dict_contains (AList.delete key (access_times c1)) key) \<and>
     (\<forall>k e now ta. map_of (cache c) k = Some e \<and> now < expires_at e \<longrightarrow>
        cache_get c k now ta =
          (Inr (Some (entry_value e)),
           c\<lparr>hits := hits c + 1, access_times := AList.update k ta (access_times c)\<rparr>)) \<and>
     (\<forall>k e now ta. map_of (cache c) k = Some e \<and> expires_at e \<le> now \<longrightarrow>
        cache_get c k now ta =
          (Inr None,
           c\<lparr>cache := AList.delete k (cache c),
             access_times := AList.delete k (access_times c),
             misses := misses c + 1\<rparr>)) \<and>
     (\<forall>k now ta. \<not> dict_contains (cache c) k \<longrightarrow>
        cache_get c k now ta = (Inr None, c\<lparr>misses := misses c + 1\<rparr>))"
proof -
  from cache_set_stores[OF assms(1,3)]
  have r: "r = Inr ()" and ag1: "keys_agree c1"
    and st: "map_of (cache c1) key =
       Some \<lparr>entry_value = v, expires_at = t_set + of_int T, created_at = t_created\<rparr>"
    using assms(2) by (simp_all add: effective_ttl_def)
  have hit: "\<forall>now ta. now < t_set + of_int T \<longrightarrow>
        cache_get c1 key now ta =
          (Inr (Some v),
           c1\<lparr>hits := hits c1 + 1, access_times := AList.update key ta (access_times c1)\<rparr>)"
    using cache_get_hit[OF st] by simp
  have exp: "\<forall>now ta. t_set + of_int T \<le> now \<longrightarrow>
        cache_get c1 key now ta =
          (Inr None,
           c1\<lparr>cache := AList.delete key (cache c1),
              access_times := AList.delete key (access_times c1),
              misses := misses c1 + 1\<rparr>) \<and>
        \<not> dict_contains (AList.delete key (cache c1)) key \<and>
        \<not> dict_contains (AList.delete key (access_times c1)) key"
    using cache_get_expired[OF ag1 st]
    by (simp add: dict_contains_def dict_keys_delete)
  have g1: "\<forall>k e now ta. map_of (cache c) k = Some e \<and> now < expires_at e \<longrightarrow>
        cache_get c k now ta =
          (Inr (Some (entry_value e)),
           c\<lparr>hits := hits c + 1, access_times := AList.update k ta (access_times c)\<rparr>)"
    by (simp add: cache_get_hit)
  have g2: "\<forall>k e now ta. map_of (cache c) k = Some e \<and> expires_at e \<le> now \<longrightarrow>
        cache_get c k now ta =
          (Inr None,
           c\<lparr>cache := AList.delete k (cache c),
             access_times := AList.delete k (access_times c),
             misses := misses c + 1\<rparr>)"
    using cache_get_expired[OF assms(1)] by blast
  have g3: "\<forall>k now ta. \<not> dict_contains (cache c) k \<longrightarrow>
        cache_get c k now ta = (Inr None, c\<lparr>misses := misses c + 1\<rparr>)"
    by (simp add: dict_contains_def cache_get_absent map_of_None_keys)
  from r hit exp g1 g2 g3 show ?thesis by blast
qed

text \<open>The theorem at a fresh cache: a hit one second before expiry, a miss at expiry.\<close>

theorem cache_ttl_semantics_witness:
  "cache_get (snd (cache_set (new_cache 100 900) ''k'' (7::nat) (Some 60) 1000 1000 1000))
       ''k'' 1059 1059
     = (Inr (Some 7),
        \<lparr>cache = [(''k'', \<lparr>entry_value = 7, expires_at = 1060, created_at = 1000\<rparr>)],
         access_times = [(''k'', 1059)], max_size = 100, default_ttl = 900,
         hits = 1, misses = 0\<rparr>) \<and>
   cache_get (snd (cache_set (new_cache 100 900) ''k'' (7::nat) (Some 60) 1000 1000 1000))
       ''k'' 1060 1060
     = (Inr None,
        \<lparr>cache = [], access_times = [], max_size = 100, default_ttl = 900,
         hits = 0, misses = 1\<rparr>)"
proof -
  let ?c = "new_cache 100 900 :: nat repository_cache"
  let ?c1 = "\<lparr>cache = [(''k'', \<lparr>entry_value = 7::nat, expires_at = 1060, created_at = 1000\<rparr>)],
         access_times = [(''k'', 1000)], max_size = 100, default_ttl = 900,
         hits = 0, misses = 0\<rparr>"
  have ag: "keys_agree ?c" by (simp add: keys_agree_def new_cache_def dict_keys_def)
  have nz: "(60::int) \<noteq> 0" by simp
  have st: "cache_set ?c ''k'' 7 (Some 60) 1000 1000 1000 = (Inr (), ?c1)"
    by (simp add: cache_set_def new_cache_def effective_ttl_def)
  from cache_ttl_semantics[OF ag nz st] st show ?thesis by simp
qed

text \<open>
  With \<open>ttl=0\<close> the expression \<open>ttl or self.default_ttl\<close> takes the default of 900
  seconds, so the entry is still returned one second after a time to live of zero has
  elapsed.
\<close>

theorem cache_ttl_zero_counterexample:
  "fst (cache_get (snd (cache_set (new_cache 100 900) ''k'' (7::nat) (Some 0) 1000 1000 1000))
          ''k'' 1001 1001) = Inr (Some 7)"
  by (simp add: cache_set_def cache_get_def new_cache_def effective_ttl_def)

text \<open>
  Claim C10 (capacity invariant), as the code has it. For a cache with \<open>max_size\<close> of
  at least 1, \<open>get\<close>, \<open>set\<close>, \<open>_evict_oldest\<close> and \<open>clear\<close> do not raise and
  keep both parts of the invariant: the two dicts hold the same keys, and the number
  of entries does not exceed \<open>max_size\<close>. When the cache holds exactly \<open>max_size\<close>
  entries, \<open>set\<close> evicts the first key of least access time whatever key is set: the
  keys afterwards are the old ones without the evicted key, with the set key added; so
  overwriting a key other than the evicted one removes the evicted key and leaves
  \<open>max_size - 1\<close> entries.
\<close>

theorem cache_capacity_invariant:
  assumes "keys_agree c" and "within_capacity c" and "1 \<le> max_size c"
  shows
    "(\<forall>k now ta.
        (\<exists>r. fst (cache_get c k now ta) = Inr r) \<and>
        keys_agree (snd (cache_get c k now ta)) \<and>
        within_capacity (snd (cache_get c k now ta))) \<and>
     (\<forall>key v ttl t1 t2 t3.
        fst (cache_set c key v ttl t1 t2 t3) = Inr () \<and>
        keys_agree (snd (cache_set c key v ttl t1 t2 t3)) \<and>
        within_capacity (snd (cache_set c key v ttl t1 t2 t3))) \<and>
     (fst (evict_oldest c) = Inr () \<and> keys_agree (snd (evict_oldest c)) \<and>
        within_capacity (snd (evict_oldest c))) \<and>
     (keys_agree (cache_clear c) \<and> within_capacity (cache_clear c)) \<and>
     (int (length (cache c)) = max_size c \<longrightarrow>
        (\<exists>oldest t_old.
           dict_min_key (access_times c) = Some oldest \<and>
           (oldest, t_old) \<in> set (access_times c) \<and>
           (\<forall>(k, t) \<in> set (access_times c). t_old \<le> t) \<and>
           (\<forall>key v ttl t1 t2 t3.
              set (dict_keys (cache (snd (cache_set c key v ttl t1 t2 t3)))) =
                insert key (set (dict_keys (cache c)) - {oldest}) \<and>
              (dict_contains (cache c) key \<and> key \<noteq> oldest \<longrightarrow>
                 \<not> dict_contains (cache (snd (cache_set c key v ttl t1 t2 t3))) oldest \<and>
                 int (length (cache (snd (cache_set c key v ttl t1 t2 t3)))) = max_size c - 1))))"
proof -
  have g: "\<forall>k now ta.
        (\<exists>r. fst (cache_get c k now ta) = Inr r) \<and>
        keys_agree (snd (cache_get c k now ta)) \<and>
        within_capacity (snd (cache_get c k now ta))"
  proof (intro allI)
    fix k now ta
    have "\<forall>e. fst (cache_get c k now ta) \<noteq> Inl e"
      using get_preserves[OF assms(1,2)] by blast
    then have "\<exists>r. fst (cache_get c k now ta) = Inr r"
      by (cases "fst (cache_get c k now ta)") auto
    then show "(\<exists>r. fst (cache_get c k now ta) = Inr r) \<and>
        keys_agree (snd (cache_get c k now ta)) \<and>
        within_capacity (snd (cache_get c k now ta))"
      using get_preserves[OF assms(1,2)] by blast
  qed
  have s: "\<forall>key v ttl t1 t2 t3.
        fst (cache_set c key v ttl t1 t2 t3) = Inr () \<and>
        keys_agree (snd (cache_set c key v ttl t1 t2 t3)) \<and>
        within_capacity (snd (cache_set c key v ttl t1 t2 t3))"
    using set_preserves[OF assms] by blast
  have e: "fst (evict_oldest c) = Inr () \<and> keys_agree (snd (evict_oldest c)) \<and>
        within_capacity (snd (evict_oldest c))"
    by (rule evict_preserves[OF assms(1,2)])
  have cl: "keys_agree (cache_clear c) \<and> within_capacity (cache_clear c)"
    using assms(3) by (intro clear_preserves) simp
  have f: "int (length (cache c)) = max_size c \<longrightarrow>
        (\<exists>oldest t_old.
           dict_min_key (access_times c) = Some oldest \<and>
           (oldest, t_old) \<in> set (access_times c) \<and>
           (\<forall>(k, t) \<in> set (access_times c). t_old \<le> t) \<and>
           (\<forall>key v ttl t1 t2 t3.
              set (dict_keys (cache (snd (cache_set c key v ttl t1 t2 t3)))) =
                insert key (set (dict_keys (cache c)) - {oldest}) \<and>
              (dict_contains (cache c) key \<and> key \<noteq> oldest \<longrightarrow>
                 \<not> dict_contains (cache (snd (cache_set c key v ttl t1 t2 t3))) oldest \<and>
                 int (length (cache (snd (cache_set c key v ttl t1 t2 t3)))) = max_size c - 1)))"
  proof
    assume full: "int (length (cache c)) = max_size c"
    then have "cache c \<noteq> []" using assms(3) by auto
    then have "access_times c \<noteq> []" using assms(1) by (auto simp: keys_agree_def dict_keys_def)
    from dict_min_key_least_ex[OF this] obtain oldest t_old where
      o: "dict_min_key (access_times c) = Some oldest" "(oldest, t_old) \<in> set (access_times c)"
         "\<forall>(k, t) \<in> set (access_times c). t_old \<le> t" by blast
    have keys: "set (dict_keys (cache (snd (cache_set c key v ttl t1 t2 t3)))) =
                insert key (set (dict_keys (cache c)) - {oldest})" for key v ttl t1 t2 t3
      by (rule set_full_keys(1)[OF assms(1) full o(1)])
    have over: "\<not> dict_contains (cache (snd (cache_set c key v ttl t1 t2 t3))) oldest \<and>
                 int (length (cache (snd (cache_set c key v ttl t1 t2 t3)))) = max_size c - 1"
      if "dict_contains (cache c) key" "key \<noteq> oldest" for key v ttl t1 t2 t3
    proof -
      have kin: "key \<in> set (dict_keys (cache (after_evict c)))"
        using that set_full_keys(2)[OF assms(1) full o(1)] by (auto simp: dict_contains_def)
      have "length (AList.update key en (cache (after_evict c))) = length (cache (after_evict c))" for en
        using kin by (metis dict_keys_update dict_keys_def length_map)
      then have "int (length (cache (snd (cache_set c key v ttl t1 t2 t3)))) = max_size c - 1"
        using set_full_keys(3)[OF assms(1) full o(1)] full
        by (simp add: cache_set_agree[OF assms(1)])
      then show ?thesis using keys[of key v ttl t1 t2 t3] that(2)
        by (simp add: dict_contains_def)
    qed
    have both: "\<forall>key v ttl t1 t2 t3.
              set (dict_keys (cache (snd (cache_set c key v ttl t1 t2 t3)))) =
                insert key (set (dict_keys (cache c)) - {oldest}) \<and>
              (dict_contains (cache c) key \<and> key \<noteq> oldest \<longrightarrow>
                 \<not> dict_contains (cache (snd (cache_set c key v ttl t1 t2 t3))) oldest \<and>
                 int (length (cache (snd (cache_set c key v ttl t1 t2 t3)))) = max_size c - 1)"
      using keys over by simp
    show "\<exists>oldest t_old.
           dict_min_key (access_times c) = Some oldest \<and>
           (oldest, t_old) \<in> set (access_times c) \<and>
           (\<forall>(k, t) \<in> set (access_times c). t_old \<le> t) \<and>
           (\<forall>key v ttl t1 t2 t3.
              set (dict_keys (cache (snd (cache_set c key v ttl t1 t2 t3)))) =
                insert key (set (dict_keys (cache c)) - {oldest}) \<and>
              (dict_contains (cache c) key \<and> key \<noteq> oldest \<longrightarrow>
                 \<not> dict_contains (cache (snd (cache_set c key v ttl t1 t2 t3))) oldest \<and>
                 int (length (cache (snd (cache_set c key v ttl t1 t2 t3)))) = max_size c - 1))"
      by (rule exI[of _ oldest], rule exI[of _ t_old]) (rule conjI[OF o(1) conjI[OF o(2) conjI[OF o(3) both]]])
  qed
  show ?thesis by (rule conjI[OF g conjI[OF s conjI[OF e conjI[OF cl f]]]])
qed

text \<open>
  The theorem at a full cache of capacity 2: overwriting \<open>a\<close> evicts the unrelated key
  \<open>b\<close>, whose access time is the older one.
\<close>

theorem cache_capacity_invariant_witness:
  "within_capacity
     (snd (cache_set
        \<lparr>cache = [(''a'', \<lparr>entry_value = 1::nat, expires_at = 905, created_at = 5\<rparr>),
                  (''b'', \<lparr>entry_value = 2, expires_at = 903, created_at = 3\<rparr>)],
         access_times = [(''a'', 5), (''b'', 3)], max_size = 2, default_ttl = 900,
         hits = 0, misses = 0\<rparr> ''a'' 9 None 10 10 10)) \<and>
   dict_keys (cache (snd (cache_set
        \<lparr>cache = [(''a'', \<lparr>entry_value = 1::nat, expires_at = 905, created_at = 5\<rparr>),
                  (''b'', \<lparr>entry_value = 2, expires_at = 903, created_at = 3\<rparr>)],
         access_times = [(''a'', 5), (''b'', 3)], max_size = 2, default_ttl = 900,
         hits = 0, misses = 0\<rparr> ''a'' 9 None 10 10 10))) = [''a'']"
proof -
  let ?c = "\<lparr>cache = [(''a'', \<lparr>entry_value = 1::nat, expires_at = 905, created_at = 5\<rparr>),
                  (''b'', \<lparr>entry_value = 2, expires_at = 903, created_at = 3\<rparr>)],
         access_times = [(''a'', 5), (''b'', 3)], max_size = 2, default_ttl = 900,
         hits = 0, misses = 0\<rparr>"
  have ag: "keys_agree ?c" by (simp add: keys_agree_def dict_keys_def)
  have wc: "within_capacity ?c" by (simp add: within_capacity_def)
  have ms: "1 \<le> max_size ?c" by simp
  have keys: "dict_keys (cache (snd (cache_set ?c ''a'' 9 None 10 10 10))) = [''a'']"
    by (simp add: cache_set_def evict_oldest_def dict_delitem_def dict_contains_def
        dict_keys_def effective_ttl_def)
  note inv = cache_capacity_invariant[OF ag wc ms]
  have "\<forall>key v ttl t1 t2 t3.
        fst (cache_set ?c key v ttl t1 t2 t3) = Inr () \<and>
        keys_agree (snd (cache_set ?c key v ttl t1 t2 t3)) \<and>
        within_capacity (snd (cache_set ?c key v ttl t1 t2 t3))"
    by (rule inv[THEN conjunct2, THEN conjunct1])
  then have "within_capacity (snd (cache_set ?c ''a'' 9 None 10 10 10))" by blast
  then show ?thesis using keys by (rule conjI)
qed

text \<open>
  With \<open>max_size = 0\<close> the eviction step of \<open>set\<close> finds nothing to evict and the entry
  is stored all the same: one entry in a cache of capacity zero.
\<close>

theorem cache_capacity_zero_counterexample:
  "keys_agree (new_cache 0 900 :: nat repository_cache) \<and>
   within_capacity (new_cache 0 900 :: nat repository_cache) \<and>
   \<not> within_capacity (snd (cache_set (new_cache 0 900) ''k'' (7::nat) None 1000 1000 1000))"
  by (simp add: keys_agree_def within_capacity_def new_cache_def dict_keys_def cache_set_def
      evict_oldest_def)

text \<open>
  Claim C5 (eviction policy), as the code has it. Let \<open>N\<close> be at least 1 and let
  \<open>N + 1\<close> entries with distinct keys be set, one after the other, in a new cache of
  capacity \<open>N\<close>. The first \<open>N\<close> calls evict nothing: all \<open>N\<close> keys are present, in
  insertion order. The last call evicts exactly one key, the first key of least
  last-access time among the \<open>N\<close> present at that moment; afterwards the cache
  holds \<open>N\<close> entries, the other keys in their order followed by the new key, and
  \<open>get\<close> returns the value of every entry other than the evicted one at every clock
  reading before that entry expires.
\<close>

theorem cache_eviction_policy:
  fixes ins :: "'v insertion list" and N :: nat
  assumes "1 \<le> N" and "length ins = N + 1" and "distinct (map fst ins)"
  shows "\<exists>victim t_victim.
     dict_keys (cache (insert_all (new_cache (int N) d) (butlast ins))) = map fst (butlast ins) \<and>
     dict_min_key (access_times (insert_all (new_cache (int N) d) (butlast ins))) = Some victim \<and>
     (victim, t_victim) \<in> set (access_times (insert_all (new_cache (int N) d) (butlast ins))) \<and>
     (\<forall>(k, t) \<in> set (access_times (insert_all (new_cache (int N) d) (butlast ins))).
         t_victim \<le> t) \<and>
     dict_keys (cache (insert_all (new_cache (int N) d) ins)) =
       removeAll victim (map fst (butlast ins)) @ [fst (last ins)] \<and>
     dict_keys (access_times (insert_all (new_cache (int N) d) ins)) =
       removeAll victim (map fst (butlast ins)) @ [fst (last ins)] \<and>
     length (cache (insert_all (new_cache (int N) d) ins)) = N \<and>
     (\<forall>(k, v, ttl, t_expiry, t_created, t_access) \<in> set ins.
        k \<noteq> victim \<longrightarrow>
        (\<forall>now ta. now < t_expiry + of_int (effective_ttl ttl d) \<longrightarrow>
           fst (cache_get (insert_all (new_cache (int N) d) ins) k now ta) = Inr (Some v)))"
proof -
  let ?c0 = "new_cache (int N) d :: 'v repository_cache"
  define xs where "xs = butlast ins"
  define x where "x = last ins"
  have ne: "ins \<noteq> []" using assms(2) by auto
  have ins: "ins = xs @ [x]" using ne by (simp add: xs_def x_def)
  obtain k v ttl t1 t2 t3 where x: "x = (k, v, ttl, t1, t2, t3)" by (cases x) auto
  have len: "length xs = N" using assms(2) ins by simp
  have dxs: "distinct (map fst xs)" and fresh: "k \<notin> set (map fst xs)"
    using assms(3) ins x by simp_all
  let ?cN = "?c0\<lparr>cache := map (stored_entry d) xs, access_times := map stored_access xs\<rparr>"
  have cN: "insert_all ?c0 xs = ?cN"
    using dxs len by (intro insert_all_below) simp_all
  have ag: "keys_agree ?cN" by (rule keys_agree_stored[OF dxs])
  have "access_times ?cN \<noteq> []" using len assms(1) by auto
  from dict_min_key_least_ex[OF this] obtain victim t_victim where
    vi: "dict_min_key (access_times ?cN) = Some victim"
        "(victim, t_victim) \<in> set (access_times ?cN)"
        "\<forall>(k, t) \<in> set (access_times ?cN). t_victim \<le> t" by blast
  have vin: "victim \<in> set (map fst xs)"
    using dict_min_key_mem[OF vi(1)] by (simp add: keys_stored_access del: set_map)
  have vk: "victim \<noteq> k" using vin fresh by auto
  have full: "int (length (cache ?cN)) \<ge> max_size ?cN" using len by (simp add: new_cache_def)
  have ae: "after_evict ?cN = ?cN\<lparr>cache := AList.delete victim (cache ?cN),
      access_times := AList.delete victim (access_times ?cN)\<rparr>"
    using full vi(1) by (simp add: after_evict_def evict_oldest_agree[OF ag])
  let ?e = "\<lparr>entry_value = v, expires_at = t1 + of_int (effective_ttl ttl d), created_at = t2\<rparr>"
  let ?fin = "insert_all ?c0 ins"
  have fin: "?fin = ?cN\<lparr>cache := AList.update k ?e (AList.delete victim (map (stored_entry d) xs)),
      access_times := AList.update k t3 (AList.delete victim (map stored_access xs))\<rparr>"
    unfolding ins x insert_all_snoc cN cache_set_agree[OF ag] ae
    by (simp add: new_cache_def)
  have kc: "dict_keys (cache ?fin) = removeAll victim (map fst xs) @ [k]"
    using fresh by (simp add: fin dict_keys_update dict_keys_delete keys_stored_entry)
  have ka: "dict_keys (access_times ?fin) = removeAll victim (map fst xs) @ [k]"
    using fresh by (simp add: fin dict_keys_update dict_keys_delete keys_stored_access)
  have "length (removeAll victim (map fst xs)) = N - 1"
    using dxs vin len by (simp add: distinct_remove1_removeAll[symmetric] length_remove1)
  then have "length (dict_keys (cache ?fin)) = N" using assms(1) by (simp add: kc)
  then have lenfin: "length (cache ?fin) = N" by (simp add: dict_keys_def)
  have mo: "map_of (cache ?fin) =
      ((map_of (map (stored_entry d) xs))(victim := None))(k \<mapsto> ?e)"
    by (simp add: fin update_conv' delete_conv')
  have retr: "fst (cache_get ?fin k' now ta) = Inr (Some v')"
    if y: "(k', v', ttl', t1', t2', t3') \<in> set ins" and nv: "k' \<noteq> victim"
      and live: "now < t1' + of_int (effective_ttl ttl' d)"
    for k' v' ttl' t1' t2' t3' now ta
  proof -
    let ?y = "(k', v', ttl', t1', t2', t3')"
    have "map_of (cache ?fin) k' = Some (snd (stored_entry d ?y))"
    proof (cases "?y = x")
      case True
      then show ?thesis by (simp add: mo x stored_entry_def)
    next
      case False
      then have yin: "?y \<in> set xs" using y ins by auto
      then have "k' \<noteq> k" using fresh by force
      moreover have "map_of (map (stored_entry d) xs) (fst ?y) = Some (snd (stored_entry d ?y))"
        by (rule map_of_stored_entry[OF dxs yin])
      ultimately show ?thesis using nv by (simp add: mo)
    qed
    then have m: "map_of (cache ?fin) k' =
       Some \<lparr>entry_value = v', expires_at = t1' + of_int (effective_ttl ttl' d), created_at = t2'\<rparr>"
      by (simp add: stored_entry_def)
    show ?thesis using cache_get_hit[OF m, of now ta] live by simp
  qed
  have retr_all: "\<forall>(k, v, ttl, t_expiry, t_created, t_access) \<in> set ins.
        k \<noteq> victim \<longrightarrow>
        (\<forall>now ta. now < t_expiry + of_int (effective_ttl ttl d) \<longrightarrow>
           fst (cache_get ?fin k now ta) = Inr (Some v))"
    using retr by blast
  have b1: "dict_keys (cache (insert_all ?c0 (butlast ins))) = map fst (butlast ins)"
    unfolding xs_def[symmetric] cN by (simp add: keys_stored_entry)
  have b2: "dict_min_key (access_times (insert_all ?c0 (butlast ins))) = Some victim"
    unfolding xs_def[symmetric] cN by (rule vi(1))
  have b3: "(victim, t_victim) \<in> set (access_times (insert_all ?c0 (butlast ins)))"
    unfolding xs_def[symmetric] cN by (rule vi(2))
  have b4: "\<forall>(k, t) \<in> set (access_times (insert_all ?c0 (butlast ins))). t_victim \<le> t"
    unfolding xs_def[symmetric] cN by (rule vi(3))
  have b5: "dict_keys (cache ?fin) = removeAll victim (map fst (butlast ins)) @ [fst (last ins)]"
    using kc by (simp add: xs_def x_def[symmetric] x)
  have b6: "dict_keys (access_times ?fin) = removeAll victim (map fst (butlast ins)) @ [fst (last ins)]"
    using ka by (simp add: xs_def x_def[symmetric] x)
  show ?thesis
    by (rule exI[of _ victim], rule exI[of _ t_victim])
       (rule conjI[OF b1 conjI[OF b2 conjI[OF b3 conjI[OF b4 conjI[OF b5 conjI[OF b6 conjI[OF lenfin retr_all]]]]]]])
qed

text \<open>
  The theorem at capacity 2: after three insertions the key \<open>a\<close>, the one accessed
  first, is gone and \<open>b\<close>, \<open>c\<close> remain.
\<close>

theorem cache_eviction_policy_witness:
  "length (cache (insert_all (new_cache 2 900)
      [(''a'', 1::nat, None, 10, 10, 10), (''b'', 2, None, 11, 11, 11),
       (''c'', 3, Some 60, 12, 12, 12)])) = 2 \<and>
   dict_keys (cache (insert_all (new_cache 2 900)
      [(''a'', 1::nat, None, 10, 10, 10), (''b'', 2, None, 11, 11, 11),
       (''c'', 3, Some 60, 12, 12, 12)])) = [''b'', ''c'']"
proof -
  let ?ins = "[(''a'', 1::nat, None, 10, 10, 10), (''b'', 2, None, 11, 11, 11),
       (''c'', 3, Some 60, 12, 12, 12)] :: nat insertion list"
  have h1: "1 \<le> (2::nat)" by simp
  have h2: "length ?ins = 2 + 1" by simp
  have h3: "distinct (map fst ?ins)" by simp
  from cache_eviction_policy[OF h1 h2 h3, of 900]
  have "length (cache (insert_all (new_cache (int 2) 900) ?ins)) = 2"
    by (elim exE conjE)
  then have len: "length (cache (insert_all (new_cache 2 900) ?ins)) = 2" by simp
  have keys: "dict_keys (cache (insert_all (new_cache 2 900) ?ins)) = [''b'', ''c'']"
    by (simp add: insert_all_def cache_set_def evict_oldest_def dict_delitem_def
        dict_contains_def dict_keys_def new_cache_def)
  from len keys show ?thesis by (rule conjI)
qed

text \<open>
  At capacity \<open>0\<close> the single insertion evicts nothing: \<open>_evict_oldest\<close> returns at its
  guard for an empty access map and the entry is stored.
\<close>

theorem cache_eviction_zero_capacity_counterexample:
  "evict_oldest (new_cache 0 900 :: nat repository_cache) = (Inr (), new_cache 0 900) \<and>
   dict_keys (cache (insert_all (new_cache 0 900) [(''a'', 1::nat, None, 10, 10, 10)])) = [''a'']"
  by (simp add: insert_all_def cache_set_def evict_oldest_def new_cache_def dict_keys_def)

section \<open>Claims about the classifiers and the guard\<close>

text \<open>
  Claim C8 (project-health scorer). For every issue list and pull-request list the
  score is 50, plus 20 when fewer than 30% of the issues are open and minus 20 when
  more than 70% are, plus 15 when more than 70% of the pull requests are merged and
  minus 15 when fewer than 30% are, plus 15 when more than 5 issues were updated in the
  last 30 days, clamped to the interval from 0 to 100 (an empty list has no ratio and
  adds nothing). The score lies between 0 and 100, and with 10 issues all closed, 10
  pull requests all merged and more than 5 recently updated issues it is exactly 100.
\<close>

theorem health_score_formula:
  "calculate_health_score now issues prs =
     max 0 (min 100 (50
       + (if 10 * length (filter (\<lambda>i. issue_state i = ''open'') issues) < 3 * length issues
          then 20 else 0)
       - (if 7 * length issues < 10 * length (filter (\<lambda>i. issue_state i = ''open'') issues)
          then 20 else 0)
       + (if 7 * length prs < 10 * length (filter is_merged prs) then 15 else 0)
       - (if 10 * length (filter is_merged prs) < 3 * length prs then 15 else 0)
       + (if 5 < length (filter (\<lambda>i. issue_updated_at i > now - 30 * 86400) issues)
          then 15 else 0))) \<and>
   0 \<le> calculate_health_score now issues prs \<and>
   calculate_health_score now issues prs \<le> 100 \<and>
   (length issues = 10 \<and> (\<forall>i \<in> set issues. issue_state i = ''closed'') \<and>
    length prs = 10 \<and> (\<forall>p \<in> set prs. is_merged p) \<and>
    5 < length (filter (\<lambda>i. issue_updated_at i > now - 30 * 86400) issues)
    \<longrightarrow> calculate_health_score now issues prs = 100)"
proof -
  define n_open where "n_open = length (filter (\<lambda>i. issue_state i = ''open'') issues)"
  define n_merged where "n_merged = length (filter is_merged prs)"
  define n_recent where
    "n_recent = length (filter (\<lambda>i. issue_updated_at i > now - 30 * 86400) issues)"
  define s1 :: int where
    "s1 = 50 + (if 10 * n_open < 3 * length issues then 20 else 0)
             - (if 7 * length issues < 10 * n_open then 20 else 0)"
  define s2 :: int where
    "s2 = s1 + (if 7 * length prs < 10 * n_merged then 15 else 0)
             - (if 10 * n_merged < 3 * length prs then 15 else 0)"
  have i: "(if issues \<noteq> [] then
               (let open_ratio =
                      (of_nat (length (filter (\<lambda>i. issue_state i = ''open'') issues)) :: rat)
                        / of_nat (length issues)
                in if open_ratio < 3 / 10 then (50::int) + 20
                   else if open_ratio > 7 / 10 then 50 - 20
                   else 50)
             else 50) = s1"
  proof (cases "issues = []")
    case True then show ?thesis by (simp add: s1_def n_open_def)
  next
    case False
    then have pos: "0 < length issues" by simp
    show ?thesis using False
      unfolding Let_def ratio_lt_3[OF pos] ratio_gt_7[OF pos] s1_def n_open_def
      by simp
  qed
  have p: "(if prs \<noteq> [] then
               (let merged_ratio =
                      (of_nat (length (filter is_merged prs)) :: rat) / of_nat (length prs)
                in if merged_ratio > 7 / 10 then s1 + 15
                   else if merged_ratio < 3 / 10 then s1 - 15
                   else s1)
             else s1) = s2"
  proof (cases "prs = []")
    case True then show ?thesis by (simp add: s2_def n_merged_def)
  next
    case False
    then have pos: "0 < length prs" by simp
    show ?thesis using False
      unfolding Let_def ratio_lt_3[OF pos] ratio_gt_7[OF pos] s2_def n_merged_def
      by simp
  qed
  have sc: "calculate_health_score now issues prs =
      max 0 (min 100 (s2 + (if 5 < n_recent then 15 else 0)))"
    unfolding calculate_health_score_def
    apply (subst Let_def)
    apply (subst i)
    apply (subst Let_def)
    apply (subst p)
    apply (simp add: Let_def n_recent_def)
    done
  have formula: "calculate_health_score now issues prs =
     max 0 (min 100 (50
       + (if 10 * length (filter (\<lambda>i. issue_state i = ''open'') issues) < 3 * length issues
          then 20 else 0)
       - (if 7 * length issues < 10 * length (filter (\<lambda>i. issue_state i = ''open'') issues)
          then 20 else 0)
       + (if 7 * length prs < 10 * length (filter is_merged prs) then 15 else 0)
       - (if 10 * length (filter is_merged prs) < 3 * length prs then 15 else 0)
       + (if 5 < length (filter (\<lambda>i. issue_updated_at i > now - 30 * 86400) issues)
          then 15 else 0)))"
    unfolding sc s2_def s1_def n_open_def n_merged_def n_recent_def by simp
  have bounds: "0 \<le> calculate_health_score now issues prs \<and>
      calculate_health_score now issues prs \<le> 100"
    unfolding sc by simp
  have special: "calculate_health_score now issues prs = 100"
    if h: "length issues = 10 \<and> (\<forall>i \<in> set issues. issue_state i = ''closed'') \<and>
    length prs = 10 \<and> (\<forall>p \<in> set prs. is_merged p) \<and>
    5 < length (filter (\<lambda>i. issue_updated_at i > now - 30 * 86400) issues)"
  proof -
    have "filter (\<lambda>i. issue_state i = ''open'') issues = []"
      using h by (auto simp: filter_empty_conv)
    then have o: "n_open = 0" by (simp add: n_open_def)
    have "filter is_merged prs = prs" using h by (simp add: filter_id_conv)
    then have m: "n_merged = 10" using h by (simp add: n_merged_def)
    have r: "5 < n_recent" using h by (simp add: n_recent_def)
    show ?thesis unfolding sc s2_def s1_def using o m r h by simp
  qed
  from formula bounds special show ?thesis by blast
qed

text \<open>The theorem at ten closed, recently updated issues and ten merged pull requests.\<close>

theorem health_score_formula_witness:
  "calculate_health_score 2000
     (replicate 10 \<lparr>issue_state = ''closed'', issue_updated_at = 1000\<rparr>)
     (replicate 10 \<lparr>pr_merged_at = Some ''2024-05-01T10:00:00Z''\<rparr>) = 100"
proof -
  let ?issues = "replicate 10 \<lparr>issue_state = ''closed'', issue_updated_at = 1000\<rparr>"
  let ?prs = "replicate 10 \<lparr>pr_merged_at = Some ''2024-05-01T10:00:00Z''\<rparr>"
  have h: "length ?issues = 10 \<and> (\<forall>i \<in> set ?issues. issue_state i = ''closed'') \<and>
    length ?prs = 10 \<and> (\<forall>p \<in> set ?prs. is_merged p) \<and>
    5 < length (filter (\<lambda>i. issue_updated_at i > 2000 - 30 * 86400) ?issues)"
    by (simp add: is_merged_def)
  from health_score_formula[of 2000 ?issues ?prs] h show ?thesis by blast
qed

text \<open>
  Claim C9 (coverage tiers), as the code has it. For a tree with a positive number of
  files, \<open>test_file_ratio\<close> is the percentage of test files rounded to one decimal
  (within 0.05 of the exact percentage), and the label is chosen on the rounded value:
  High above 30.0, Medium above 15.0 and up to 30.0, Low above 5.0 and up to 15.0,
  Minimal below 5.0; exactly one of the four labels is given. In terms of the counts:
  High when the exact percentage is above 30.05, Medium between 15.05 and 30.05, Low
  between 5.05 and 15.05, Minimal below 4.95. This holds whichever way a tie of the
  rounding falls.
\<close>

theorem coverage_tiers:
  assumes "0 < total_files t"
  shows
    "\<bar>of_int (test_file_ratio_tenths tie_up t) / 10
        - 100 * of_int (int (length (test_files t))) / of_int (total_files t)\<bar> \<le> (1 / 20 :: rat) \<and>
     (300 < test_file_ratio_tenths tie_up t \<longrightarrow>
        test_coverage tie_up t = ''High (>30% test files)'') \<and>
     (150 < test_file_ratio_tenths tie_up t \<and> test_file_ratio_tenths tie_up t \<le> 300 \<longrightarrow>
        test_coverage tie_up t = ''Medium (15-30% test files)'') \<and>
     (50 < test_file_ratio_tenths tie_up t \<and> test_file_ratio_tenths tie_up t \<le> 150 \<longrightarrow>
        test_coverage tie_up t = ''Low (5-15% test files)'') \<and>
     (test_file_ratio_tenths tie_up t < 50 \<longrightarrow>
        test_coverage tie_up t = ''Minimal (<5% test files)'') \<and>
     (601 * total_files t < 2000 * int (length (test_files t)) \<longrightarrow>
        test_coverage tie_up t = ''High (>30% test files)'') \<and>
     (301 * total_files t < 2000 * int (length (test_files t)) \<and>
      2000 * int (length (test_files t)) < 601 * total_files t \<longrightarrow>
        test_coverage tie_up t = ''Medium (15-30% test files)'') \<and>
     (101 * total_files t < 2000 * int (length (test_files t)) \<and>
      2000 * int (length (test_files t)) < 301 * total_files t \<longrightarrow>
        test_coverage tie_up t = ''Low (5-15% test files)'') \<and>
     (2000 * int (length (test_files t)) < 99 * total_files t \<longrightarrow>
        test_coverage tie_up t = ''Minimal (<5% test files)'') \<and>
     test_coverage tie_up t \<in>
       {''High (>30% test files)'', ''Medium (15-30% test files)'',
        ''Low (5-15% test files)'', ''Minimal (<5% test files)''}"
proof -
  define n where "n = total_files t"
  define k where "k = int (length (test_files t))"
  define x :: rat where "x = of_int k / of_int n * 100"
  define r where "r = test_file_ratio_tenths tie_up t"
  have n: "0 < n" using assms by (simp add: n_def)
  have r: "r = round_tenths tie_up x"
    using assms by (simp add: r_def test_file_ratio_tenths_def x_def k_def n_def)
  have near: "\<bar>of_int r - 10 * x\<bar> \<le> (1 / 2 :: rat)"
    unfolding r by (rule round_tenths_near)
  have c1: "\<bar>of_int r / 10 - 100 * of_int k / of_int n\<bar> \<le> (1 / 20 :: rat)"
  proof -
    have eq: "of_int r / 10 - 100 * of_int k / of_int n = (of_int r - 10 * x) / 10"
      by (simp add: x_def)
    have "\<bar>(of_int r - 10 * x) / 10\<bar> = \<bar>of_int r - 10 * x\<bar> / 10" by simp
    also have "\<dots> \<le> (1 / 2) / 10" using near by (intro divide_right_mono) simp_all
    finally show ?thesis unfolding eq by simp
  qed
  have lab: "test_coverage tie_up t =
       (if r > 300 then ''High (>30% test files)''
         else if r > 150 then ''Medium (15-30% test files)''
         else if r > 50 then ''Low (5-15% test files)''
         else ''Minimal (<5% test files)'')"
    using assms by (simp add: test_coverage_def Let_def r_def)
  have gt: "c < r" if "(2 * c + 1) * n < 2000 * k" for c
    unfolding r x_def by (rule round_tenths_gt[OF tenfold_ratio_gt[OF n that]])
  have le: "r \<le> c" if "2000 * k < (2 * c + 1) * n" for c
    unfolding r x_def by (rule round_tenths_le[OF tenfold_ratio_lt[OF n that]])
  have t1: "300 < r \<longrightarrow> test_coverage tie_up t = ''High (>30% test files)''"
    by (simp add: lab)
  have t2: "150 < r \<and> r \<le> 300 \<longrightarrow> test_coverage tie_up t = ''Medium (15-30% test files)''"
    by (simp add: lab)
  have t3: "50 < r \<and> r \<le> 150 \<longrightarrow> test_coverage tie_up t = ''Low (5-15% test files)''"
    by (simp add: lab)
  have t4: "r < 50 \<longrightarrow> test_coverage tie_up t = ''Minimal (<5% test files)''"
    by (simp add: lab)
  have u1: "601 * n < 2000 * k \<longrightarrow> test_coverage tie_up t = ''High (>30% test files)''"
    using gt[of 300] t1 by fastforce
  have u2: "301 * n < 2000 * k \<and> 2000 * k < 601 * n \<longrightarrow>
      test_coverage tie_up t = ''Medium (15-30% test files)''"
    using gt[of 150] le[of 300] t2 by fastforce
  have u3: "101 * n < 2000 * k \<and> 2000 * k < 301 * n \<longrightarrow>
      test_coverage tie_up t = ''Low (5-15% test files)''"
    using gt[of 50] le[of 150] t3 by fastforce
  have u4: "2000 * k < 99 * n \<longrightarrow> test_coverage tie_up t = ''Minimal (<5% test files)''"
    using le[of 49] t4 by fastforce
  have mem: "test_coverage tie_up t \<in>
       {''High (>30% test files)'', ''Medium (15-30% test files)'',
        ''Low (5-15% test files)'', ''Minimal (<5% test files)''}"
    unfolding lab by (simp del: One_nat_def)
  show ?thesis
    using c1 t1 t2 t3 t4 u1 u2 u3 u4 mem
    unfolding r_def n_def k_def by (intro conjI)
qed

text \<open>The theorem at 40 test files among 100 files.\<close>

theorem coverage_tiers_witness:
  "test_coverage True
     \<lparr>total_files = 100, total_dirs = 4, file_types = [], directory_structure = [],
      config_files = [], test_files = replicate 40 ''tests/test_a.py'', doc_files = [],
      max_depth = 2\<rparr> = ''High (>30% test files)''"
proof -
  let ?t = "\<lparr>total_files = 100, total_dirs = 4, file_types = [], directory_structure = [],
      config_files = [], test_files = replicate 40 ''tests/test_a.py'', doc_files = [],
      max_depth = 2\<rparr>"
  have h: "0 < total_files ?t" by simp
  have c: "601 * total_files ?t < 2000 * int (length (test_files ?t))" by simp
  from coverage_tiers[OF h, of True] c show ?thesis by blast
qed

text \<open>
  With 61 test files among 203 files the ratio is 30.049...%, above 30%, yet it is
  rounded to 30.0 before the comparison and the label is Medium, not High.
\<close>

theorem coverage_tiers_rounding_counterexample:
  "(3 / 10 :: rat) <
     of_nat (length (test_files
       \<lparr>total_files = 203, total_dirs = 4, file_types = [], directory_structure = [],
        config_files = [], test_files = replicate 61 ''tests/test_a.py'', doc_files = [],
        max_depth = 2\<rparr>)) / of_int 203 \<and>
   test_coverage True
     \<lparr>total_files = 203, total_dirs = 4, file_types = [], directory_structure = [],
      config_files = [], test_files = replicate 61 ''tests/test_a.py'', doc_files = [],
      max_depth = 2\<rparr> = ''Medium (15-30% test files)'' \<and>
   test_coverage False
     \<lparr>total_files = 203, total_dirs = 4, file_types = [], directory_structure = [],
      config_files = [], test_files = replicate 61 ''tests/test_a.py'', doc_files = [],
      max_depth = 2\<rparr> = ''Medium (15-30% test files)'' \<and>
   test_file_ratio_tenths True
     \<lparr>total_files = 203, total_dirs = 4, file_types = [], directory_structure = [],
      config_files = [], test_files = replicate 61 ''tests/test_a.py'', doc_files = [],
      max_depth = 2\<rparr> = 300"
  by (simp add: test_coverage_def test_file_ratio_tenths_def round_tenths_61_203 Let_def)

text \<open>
  Claim C7 (priority of the architecture rules). The detector returns the label of the
  first satisfied rule in the order MVC, Microservices, Domain-Driven Design,
  Component-Based, API-First, Monolithic, Modular, and the generic label when no rule
  is satisfied. Whenever some directory name contains \<open>controller\<close>, some \<open>model\<close> and
  some \<open>view\<close> (in any letter case), and so whenever the directories \<open>controllers\<close>,
  \<open>models\<close> and \<open>views\<close> are present, the result is the MVC label, whatever other
  directories there are.
\<close>

theorem architecture_rule_priority:
  "detect_architecture_pattern t =
     first_satisfied (spec_architecture_rules t) ''Standard Project Structure'' \<and>
   (any_dir_has ''controller'' (dict_keys (directory_structure t)) \<and>
    any_dir_has ''model'' (dict_keys (directory_structure t)) \<and>
    any_dir_has ''view'' (dict_keys (directory_structure t)) \<longrightarrow>
      detect_architecture_pattern t = ''MVC (Model-View-Controller)'') \<and>
   ({''controllers'', ''models'', ''views''} \<subseteq> set (dict_keys (directory_structure t)) \<longrightarrow>
      detect_architecture_pattern t = ''MVC (Model-View-Controller)'')"
proof -
  have a: "detect_architecture_pattern t =
     first_satisfied (spec_architecture_rules t) ''Standard Project Structure''"
    by (simp add: detect_architecture_pattern_def spec_architecture_rules_def)
  have b: "any_dir_has ''controller'' (dict_keys (directory_structure t)) \<and>
    any_dir_has ''model'' (dict_keys (directory_structure t)) \<and>
    any_dir_has ''view'' (dict_keys (directory_structure t)) \<longrightarrow>
      detect_architecture_pattern t = ''MVC (Model-View-Controller)''"
    by (simp add: detect_architecture_pattern_def is_mvc_def)
  have c: "{''controllers'', ''models'', ''views''} \<subseteq> set (dict_keys (directory_structure t)) \<longrightarrow>
      detect_architecture_pattern t = ''MVC (Model-View-Controller)''"
  proof
    assume s: "{''controllers'', ''models'', ''views''} \<subseteq> set (dict_keys (directory_structure t))"
    have "any_dir_has ''controller'' (dict_keys (directory_structure t))"
      using s by (intro any_dir_hasI[OF _ lower_controllers]) simp
    moreover have "any_dir_has ''model'' (dict_keys (directory_structure t))"
      using s by (intro any_dir_hasI[OF _ lower_models]) simp
    moreover have "any_dir_has ''view'' (dict_keys (directory_structure t))"
      using s by (intro any_dir_hasI[OF _ lower_views]) simp
    ultimately show "detect_architecture_pattern t = ''MVC (Model-View-Controller)''"
      using b by simp
  qed
  from a b c show ?thesis by (intro conjI)
qed

text \<open>
  The theorem at the directories \<open>controllers\<close>, \<open>models\<close>, \<open>views\<close> and \<open>services\<close>:
  the Microservices rule is satisfied too, and the MVC label is returned.
\<close>

theorem architecture_rule_priority_witness:
  "detect_architecture_pattern
     \<lparr>total_files = 12, total_dirs = 4, file_types = [],
      directory_structure =
        [(''controllers'', [''user.py'']), (''models'', [''user.py'']),
         (''views'', [''index.html'']), (''services'', [''mail.py''])],
      config_files = [], test_files = [], doc_files = [], max_depth = 1\<rparr>
   = ''MVC (Model-View-Controller)'' \<and>
   is_microservices
     \<lparr>total_files = 12, total_dirs = 4, file_types = [],
      directory_structure =
        [(''controllers'', [''user.py'']), (''models'', [''user.py'']),
         (''views'', [''index.html'']), (''services'', [''mail.py''])],
      config_files = [], test_files = [], doc_files = [], max_depth = 1\<rparr>"
proof -
  let ?t = "\<lparr>total_files = 12, total_dirs = 4, file_types = [],
      directory_structure =
        [(''controllers'', [''user.py'']), (''models'', [''user.py'']),
         (''views'', [''index.html'']), (''services'', [''mail.py''])],
      config_files = [], test_files = [], doc_files = [], max_depth = 1\<rparr>"
  have h: "{''controllers'', ''models'', ''views''} \<subseteq> set (dict_keys (directory_structure ?t))"
    by (simp add: dict_keys_def)
  have m: "is_microservices ?t" by code_simp
  from architecture_rule_priority[of ?t] h m show ?thesis by blast
qed

section \<open>Claims about the report assembler\<close>

text \<open>
  Claim C3 (idempotence under caching). Let a call of \<open>analyze_repository\<close> return a
  report for a locator that parses to \<open>(owner, repo)\<close>. Then the cache holds that
  report under the key of \<open>(owner, repo)\<close> (expiring 1800 seconds after the reading of
  the clock in the cache write, when the call found no entry). A second call, right
  after, for any locator of the same identity and at a clock reading before the entry
  expires, returns the same report from the cache, counts one more hit, and sends no
  request to the data provider, whatever the collaborators would have answered.
\<close>

theorem analyze_idempotent_under_cache:
  assumes first: "analyze_repository ops rt ck1 url w0 = (Inr report, w1)"
    and id1: "parse_repo_url rt url = Inr (owner, repo)"
    and id2: "parse_repo_url rt2 url2 = Inr (owner, repo)"
    and unexpired: "\<forall>e. map_of (cache (repo_cache w1)) (analysis_key owner repo) = Some e
                        \<longrightarrow> get_check ck2 < expires_at e"
  shows
    "(\<exists>e. map_of (cache (repo_cache w1)) (analysis_key owner repo) = Some e \<and>
          entry_value e = report \<and>
          (map_of (cache (repo_cache w0)) (analysis_key owner repo) = None \<longrightarrow>
             expires_at e = set_expiry ck1 + 1800)) \<and>
     analyze_repository ops2 rt2 ck2 url2 w1 =
       (Inr report,
        w1\<lparr>repo_cache := (repo_cache w1)
              \<lparr>hits := hits (repo_cache w1) + 1,
               access_times :=
                 AList.update (analysis_key owner repo) (get_access ck2)
                   (access_times (repo_cache w1))\<rparr>\<rparr>) \<and>
     provider_calls (snd (analyze_repository ops2 rt2 ck2 url2 w1)) = provider_calls w1"
proof -
  from first_call_caches[OF first id1] obtain e where
    e: "map_of (cache (repo_cache w1)) (analysis_key owner repo) = Some e"
       "entry_value e = report" "truthy report"
       "map_of (cache (repo_cache w0)) (analysis_key owner repo) = None \<longrightarrow>
             expires_at e = set_expiry ck1 + 1800"
    by (elim exE conjE)
  have live: "get_check ck2 < expires_at e" using unexpired e(1) by blast
  let ?c2 = "(repo_cache w1)\<lparr>hits := hits (repo_cache w1) + 1,
          access_times := AList.update (analysis_key owner repo) (get_access ck2)
                            (access_times (repo_cache w1))\<rparr>"
  have g: "get_cached_analysis owner repo (repo_cache w1) (get_check ck2) (get_access ck2) =
      (Inr (Some report), ?c2)"
    unfolding get_cached_analysis_def cache_get_hit[OF e(1) live] e(2) by (rule refl)
  have second: "analyze_repository ops2 rt2 ck2 url2 w1 = (Inr report, w1\<lparr>repo_cache := ?c2\<rparr>)"
    unfolding analyze_repository_parsed[OF id2 g] using e(3)
    by (simp add: reraise_def cache_hit_def)
  have calls: "provider_calls (snd (analyze_repository ops2 rt2 ck2 url2 w1)) = provider_calls w1"
    unfolding second by simp
  have ex: "\<exists>e. map_of (cache (repo_cache w1)) (analysis_key owner repo) = Some e \<and>
          entry_value e = report \<and>
          (map_of (cache (repo_cache w0)) (analysis_key owner repo) = None \<longrightarrow>
             expires_at e = set_expiry ck1 + 1800)"
    by (rule exI[of _ e]) (rule conjI[OF e(1) conjI[OF e(2) e(4)]])
  show ?thesis by (rule conjI[OF ex conjI[OF second calls]])
qed

text \<open>
  The theorem at a first call for \<open>octocat/Hello-World\<close> at time 1000 on an empty
  cache and a second call, by URL, at time 2000.
\<close>

theorem analyze_idempotent_under_cache_witness:
  "\<not> isl (fst (analyze_repository (sample_ops (PList []) default_activity) sample_runtime
              (sample_clock 1000) ''octocat/Hello-World'' empty_world)) \<and>
   fst (analyze_repository (sample_ops (PList []) default_activity) sample_runtime
          (sample_clock 2000) ''https://github.com/octocat/Hello-World''
          (snd (analyze_repository (sample_ops (PList []) default_activity) sample_runtime
                  (sample_clock 1000) ''octocat/Hello-World'' empty_world)))
     = fst (analyze_repository (sample_ops (PList []) default_activity) sample_runtime
              (sample_clock 1000) ''octocat/Hello-World'' empty_world) \<and>
   provider_calls
     (snd (analyze_repository (sample_ops (PList []) default_activity) sample_runtime
          (sample_clock 2000) ''https://github.com/octocat/Hello-World''
          (snd (analyze_repository (sample_ops (PList []) default_activity) sample_runtime
                  (sample_clock 1000) ''octocat/Hello-World'' empty_world))))
     = provider_calls
         (snd (analyze_repository (sample_ops (PList []) default_activity) sample_runtime
                 (sample_clock 1000) ''octocat/Hello-World'' empty_world))"
proof -
  let ?ops = "sample_ops (PList []) default_activity"
  let ?first = "analyze_repository ?ops sample_runtime (sample_clock 1000)
                  ''octocat/Hello-World'' empty_world"
  have nl: "\<not> isl (fst ?first)" by code_simp
  then have first: "?first = (Inr (projr (fst ?first)), snd ?first)"
    by (simp add: sum.collapse(2))
  have id1: "parse_repo_url sample_runtime ''octocat/Hello-World'' = Inr (''octocat'', ''Hello-World'')"
    by code_simp
  have id2: "parse_repo_url sample_runtime ''https://github.com/octocat/Hello-World''
      = Inr (''octocat'', ''Hello-World'')"
    by code_simp
  have live: "(case map_of (cache (repo_cache (snd ?first))) (analysis_key ''octocat'' ''Hello-World'')
               of Some e \<Rightarrow> get_check (sample_clock 2000) < expires_at e | None \<Rightarrow> False)"
    by code_simp
  then have unexpired:
    "\<forall>e. map_of (cache (repo_cache (snd ?first))) (analysis_key ''octocat'' ''Hello-World'') = Some e
        \<longrightarrow> get_check (sample_clock 2000) < expires_at e"
    by (auto split: option.splits)
  note idem = analyze_idempotent_under_cache[OF first id1 id2 unexpired, of ?ops]
  have second: "fst (analyze_repository ?ops sample_runtime (sample_clock 2000)
          ''https://github.com/octocat/Hello-World'' (snd ?first)) = fst ?first"
    unfolding idem[THEN conjunct2, THEN conjunct1] using nl by (simp add: sum.collapse(2))
  have calls: "provider_calls (snd (analyze_repository ?ops sample_runtime (sample_clock 2000)
          ''https://github.com/octocat/Hello-World'' (snd ?first))) = provider_calls (snd ?first)"
    by (rule idem[THEN conjunct2, THEN conjunct2])
  show ?thesis by (rule conjI[OF nl conjI[OF second calls]])
qed

text \<open>
  Claim C1 (only a malformed locator fails the call), at the input where the code
  departs from it. The locator parses, the cache has no entry for the repository, and
  the releases request is answered with the degraded dict of \<open>_make_request\<close>, which
  \<open>get_releases\<close> passes on. Whatever the other collaborators answer, the call raises:
  \<open>_process_activity\<close> takes \<open>releases[0]\<close> of the dict, if nothing raised before, and
  \<open>analyze_repository\<close> re-raises. (A locator that does not parse is rejected before
  anything else happens: lemma \<open>analyze_rejects_malformed_locator\<close>.)
\<close>

theorem analyze_raises_on_degraded_releases:
  assumes "parse_repo_url rt url = Inr (owner, repo)"
    and "\<not> dict_contains (cache (repo_cache w)) (analysis_key owner repo)"
    and "get_releases ops owner repo = Inr (degraded_response reason)"
  shows "\<exists>e. fst (analyze_repository ops rt ck url w) = Inl (RepositoryAnalysisFailed e)"
proof -
  let ?c1 = "(repo_cache w)\<lparr>misses := misses (repo_cache w) + 1\<rparr>"
  have g: "get_cached_analysis owner repo (repo_cache w) (get_check ck) (get_access ck)
             = (Inr None, ?c1)"
    unfolding get_cached_analysis_def by (rule cache_get_missing[OF assms(2)])
  have ar: "analyze_repository ops rt ck url w =
      reraise (analyze_uncached ops rt ck owner repo w ?c1)"
    unfolding analyze_repository_parsed[OF assms(1) g] by (simp add: cache_hit_def)
  from analyze_uncached_fails[OF assemble_report_degraded_releases[OF assms(3)]]
  obtain e where "fst (analyze_uncached ops rt ck owner repo w ?c1) = Inl e" by blast
  then have "fst (analyze_repository ops rt ck url w) = Inl (RepositoryAnalysisFailed e)"
    unfolding ar by (rule fst_reraise_Inl)
  then show ?thesis by (rule exI)
qed

text \<open>
  The theorem at \<open>octocat/Hello-World\<close> with empty commit, issue and pull-request
  lists: the exception is the \<open>KeyError\<close> of \<open>releases[0]\<close>.
\<close>

theorem analyze_raises_on_degraded_releases_witness:
  "fst (analyze_repository (sample_ops (degraded_response ''timeout'') default_activity)
          sample_runtime (sample_clock 1000) ''octocat/Hello-World'' empty_world)
     = Inl (RepositoryAnalysisFailed KeyError)"
proof -
  let ?ops = "sample_ops (degraded_response ''timeout'') default_activity"
  have id: "parse_repo_url sample_runtime ''octocat/Hello-World'' = Inr (''octocat'', ''Hello-World'')"
    by code_simp
  have miss: "\<not> dict_contains (cache (repo_cache empty_world)) (analysis_key ''octocat'' ''Hello-World'')"
    by (simp add: empty_world_def new_cache_def dict_contains_def dict_keys_def)
  have rel: "get_releases ?ops ''octocat'' ''Hello-World'' = Inr (degraded_response ''timeout'')"
    by (simp add: sample_ops_def)
  from analyze_raises_on_degraded_releases[OF id miss rel, of "sample_clock 1000"]
  obtain e where e: "fst (analyze_repository ?ops sample_runtime (sample_clock 1000)
      ''octocat/Hello-World'' empty_world) = Inl (RepositoryAnalysisFailed e)" by blast
  have ev: "fst (analyze_repository ?ops sample_runtime (sample_clock 1000)
      ''octocat/Hello-World'' empty_world) = Inl (RepositoryAnalysisFailed KeyError)"
    by code_simp
  from e ev show ?thesis by simp
qed

text \<open>
  Claim C2 (every section field present), as the code has it by design. Whenever
  \<open>analyze_repository\<close> assembles a report and returns it (the locator parses, the cache
  has no entry, no stage raises), the report is a dict holding the six fixed sections
  and \<open>raw_data\<close>, each of them a dict, with these fields and no other. Metadata: the
  thirteen fields of \<open>_process_metadata\<close>. Architecture: the six fields of
  \<open>_process_architecture\<close> and the four that \<open>_process_architecture_deep\<close> adds, and
  \<open>primary_technologies\<close> exactly when the tree analysis has a truthy \<open>file_types\<close>.
  Quality: the seven fields of \<open>_process_quality_metrics\<close> and the four that
  \<open>_process_quality_metrics_deep\<close> adds. Documentation: the six fields of
  \<open>_process_documentation\<close>. Activity: the nine fields of \<open>_process_activity\<close> and the
  two that \<open>_process_activity_deep\<close> adds, and \<open>peak_development_hours\<close>,
  \<open>peak_development_days\<close> and \<open>top_contributors\<close> exactly when the deep activity
  analysis has a truthy \<open>peak_hours\<close>, \<open>peak_days\<close> and \<open>contributor_distribution\<close>.
  Technical debt: the eight fields of \<open>_process_technical_debt\<close> and
  \<open>security_features\<close>, which the security analysis always provides. \<open>raw_data\<close>: its
  four fields. There is no placeholder for the four conditional fields.
\<close>

theorem report_sections_present:
  assumes "analyze_repository ops rt ck url w = (Inr report, w')"
    and "parse_repo_url rt url = Inr (owner, repo)"
    and "\<not> dict_contains (cache (repo_cache w)) (analysis_key owner repo)"
  shows "\<exists>sections tree n deep commits issues prs.
       report = PDict sections \<and>
       {''repository_metadata'', ''architecture_synopsis'', ''code_quality_metrics'',
        ''documentation_extraction'', ''development_activity'',
        ''technical_debt_assessment'', ''raw_data''} \<subseteq> set (dict_keys sections) \<and>
       analyze_file_tree ops owner repo = (Inr tree, n) \<and>
       analyze_commit_activity ops commits issues prs = Inr deep \<and>
       section_has sections ''repository_metadata''
         {''language_composition'', ''primary_stack'', ''repository_size_kb'',
          ''commit_frequency'', ''contributor_count'', ''license_type'', ''dependency_count'',
          ''latest_release'', ''created_date'', ''last_updated'', ''stars'', ''forks'',
          ''watchers''} \<and>
       section_has sections ''architecture_synopsis''
         ({''entry_points'', ''directory_structure'', ''core_dependencies'',
           ''dev_dependencies'', ''build_system'', ''deployment_pipeline'',
           ''architecture_pattern'', ''data_flow_analysis'', ''scalability_assessment'',
           ''performance_considerations''}
          \<union> (if has_truthy tree ''file_types'' then {''primary_technologies''} else {})) \<and>
       section_has sections ''code_quality_metrics''
         {''test_coverage_percentage'', ''testing_framework'', ''linting_standards'',
          ''ci_cd_pipeline_status'', ''automation_scope'', ''security_vulnerabilities'',
          ''recent_workflow_results'', ''code_coverage'', ''documentation_quality'',
          ''branch_protection'', ''code_review_process''} \<and>
       section_has sections ''documentation_extraction''
         {''readme_summary'', ''api_documentation'', ''installation_requirements'',
          ''configuration_variables'', ''known_limitations'', ''compatibility_constraints''} \<and>
       section_has sections ''development_activity''
         ({''recent_commit_patterns'', ''commit_frequency_per_day'', ''release_cadence'',
           ''open_issues_count'', ''open_pull_requests'', ''pull_request_velocity'',
           ''contributor_activity'', ''breaking_changes'', ''latest_release'',
           ''issue_resolution_time'', ''commit_message_quality''}
          \<union> (if has_truthy deep ''peak_hours'' then {''peak_development_hours''} else {})
          \<union> (if has_truthy deep ''peak_days'' then {''peak_development_days''} else {})
          \<union> (if has_truthy deep ''contributor_distribution'' then {''top_contributors''}
             else {})) \<and>
       section_has sections ''technical_debt_assessment''
         {''outdated_dependencies'', ''security_implications'', ''code_complexity_hotspots'',
          ''performance_bottlenecks'', ''scalability_concerns'', ''maintenance_burden'',
          ''debt_indicators'', ''refactoring_opportunities'', ''security_features''} \<and>
       section_has sections ''raw_data''
         {''fetched_at'', ''repo_url'', ''api_calls_made'', ''enhanced_analysis''}"
proof -
  let ?c1 = "(repo_cache w)\<lparr>misses := misses (repo_cache w) + 1\<rparr>"
  have g: "get_cached_analysis owner repo (repo_cache w) (get_check ck) (get_access ck)
             = (Inr None, ?c1)"
    unfolding get_cached_analysis_def by (rule cache_get_missing[OF assms(3)])
  have ar: "analyze_repository ops rt ck url w =
      reraise (analyze_uncached ops rt ck owner repo w ?c1)"
    unfolding analyze_repository_parsed[OF assms(2) g] by (simp add: cache_hit_def)
  have "analyze_uncached ops rt ck owner repo w ?c1 = (Inr report, w')"
    using assms(1) unfolding ar by (simp only: reraise_Inr)
  from analyze_uncached_assembled[OF this] obtain k where
    a: "assemble_report ops rt owner repo = (Inr report, k)" by blast
  from assemble_report_shape[where ops = ops and rt = rt and owner = owner and repo = repo,
      unfolded yields_def, rule_format, OF a]
  obtain sections tree deps quality security commits issues prs deep n
      repo_info languages contributors package_json requirements workflows
      readme releases metadata architecture quality_metrics documentation activity debt
    where r: "report = PDict sections"
    and t: "analyze_file_tree ops owner repo = (Inr tree, n)"
    and s: "analyze_security_posture rt deps quality = Inr security"
    and d: "analyze_commit_activity ops commits issues prs = Inr deep"
    and p1: "process_metadata rt repo_info languages contributors = Inr metadata"
    and p2: "process_architecture_deep ops rt repo_info package_json requirements tree deps
               = Inr architecture"
    and p3: "process_quality_metrics_deep rt repo_info workflows quality tree
               = Inr quality_metrics"
    and p4: "process_documentation rt readme repo_info = Inr documentation"
    and p5: "process_activity_deep rt commits issues prs releases deep = Inr activity"
    and p6: "process_technical_debt_deep ops rt repo_info languages tree deps quality security
               = Inr debt"
    and m1: "map_of sections ''repository_metadata'' = Some (PDict metadata)"
    and m2: "map_of sections ''architecture_synopsis'' = Some (PDict architecture)"
    and m3: "map_of sections ''code_quality_metrics'' = Some (PDict quality_metrics)"
    and m4: "map_of sections ''documentation_extraction'' = Some (PDict documentation)"
    and m5: "map_of sections ''development_activity'' = Some (PDict activity)"
    and m6: "map_of sections ''technical_debt_assessment'' = Some (PDict debt)"
    and raw: "section_has sections ''raw_data''
         {''fetched_at'', ''repo_url'', ''api_calls_made'', ''enhanced_analysis''}"
    and k: "{''repository_metadata'', ''architecture_synopsis'', ''code_quality_metrics'',
        ''documentation_extraction'', ''development_activity'',
        ''technical_debt_assessment'', ''raw_data''} \<subseteq> set (dict_keys sections)"
    by (elim exE conjE)
  have s1: "section_has sections ''repository_metadata''
         {''language_composition'', ''primary_stack'', ''repository_size_kb'',
          ''commit_frequency'', ''contributor_count'', ''license_type'', ''dependency_count'',
          ''latest_release'', ''created_date'', ''last_updated'', ''stars'', ''forks'',
          ''watchers''}"
    by (rule section_hasI[OF m1]) (simp add: process_metadata_keys[OF p1])
  have s2: "section_has sections ''architecture_synopsis''
         ({''entry_points'', ''directory_structure'', ''core_dependencies'',
           ''dev_dependencies'', ''build_system'', ''deployment_pipeline'',
           ''architecture_pattern'', ''data_flow_analysis'', ''scalability_assessment'',
           ''performance_considerations''}
          \<union> (if has_truthy tree ''file_types'' then {''primary_technologies''} else {}))"
    by (rule section_hasI[OF m2]) (rule process_architecture_deep_keys[OF p2])
  have s3: "section_has sections ''code_quality_metrics''
         {''test_coverage_percentage'', ''testing_framework'', ''linting_standards'',
          ''ci_cd_pipeline_status'', ''automation_scope'', ''security_vulnerabilities'',
          ''recent_workflow_results'', ''code_coverage'', ''documentation_quality'',
          ''branch_protection'', ''code_review_process''}"
    by (rule section_hasI[OF m3]) (simp add: process_quality_metrics_deep_keys[OF p3])
  have s4: "section_has sections ''documentation_extraction''
         {''readme_summary'', ''api_documentation'', ''installation_requirements'',
          ''configuration_variables'', ''known_limitations'', ''compatibility_constraints''}"
    by (rule section_hasI[OF m4]) (simp add: process_documentation_keys[OF p4])
  have s5: "section_has sections ''development_activity''
         ({''recent_commit_patterns'', ''commit_frequency_per_day'', ''release_cadence'',
           ''open_issues_count'', ''open_pull_requests'', ''pull_request_velocity'',
           ''contributor_activity'', ''breaking_changes'', ''latest_release'',
           ''issue_resolution_time'', ''commit_message_quality''}
          \<union> (if has_truthy deep ''peak_hours'' then {''peak_development_hours''} else {})
          \<union> (if has_truthy deep ''peak_days'' then {''peak_development_days''} else {})
          \<union> (if has_truthy deep ''contributor_distribution'' then {''top_contributors''}
             else {}))"
    by (rule section_hasI[OF m5]) (rule process_activity_deep_keys[OF p5])
  have s6: "section_has sections ''technical_debt_assessment''
         {''outdated_dependencies'', ''security_implications'', ''code_complexity_hotspots'',
          ''performance_bottlenecks'', ''scalability_concerns'', ''maintenance_burden'',
          ''debt_indicators'', ''refactoring_opportunities'', ''security_features''}"
    by (rule section_hasI[OF m6])
       (auto simp add: process_technical_debt_deep_keys[OF p6]
          analyze_security_posture_features[OF s])
  show ?thesis
    by (rule exI[of _ sections], rule exI[of _ tree], rule exI[of _ n], rule exI[of _ deep],
        rule exI[of _ commits], rule exI[of _ issues], rule exI[of _ prs])
       (rule conjI[OF r conjI[OF k conjI[OF t conjI[OF d conjI[OF s1 conjI[OF s2
          conjI[OF s3 conjI[OF s4 conjI[OF s5 conjI[OF s6 raw]]]]]]]]]])
qed

text \<open>
  The theorem at a first call for \<open>octocat/Hello-World\<close> on an empty cache: the report
  has the eleven quality fields, the nine technical-debt fields and the four fields of
  \<open>raw_data\<close>.
\<close>

theorem report_sections_present_witness:
  "\<exists>sections.
     fst (analyze_repository (sample_ops (PList []) default_activity) sample_runtime
            (sample_clock 1000) ''octocat/Hello-World'' empty_world) = Inr (PDict sections) \<and>
     section_has sections ''code_quality_metrics''
       {''test_coverage_percentage'', ''testing_framework'', ''linting_standards'',
        ''ci_cd_pipeline_status'', ''automation_scope'', ''security_vulnerabilities'',
        ''recent_workflow_results'', ''code_coverage'', ''documentation_quality'',
        ''branch_protection'', ''code_review_process''} \<and>
     section_has sections ''technical_debt_assessment''
       {''outdated_dependencies'', ''security_implications'', ''code_complexity_hotspots'',
        ''performance_bottlenecks'', ''scalability_concerns'', ''maintenance_burden'',
        ''debt_indicators'', ''refactoring_opportunities'', ''security_features''} \<and>
     section_has sections ''raw_data''
       {''fetched_at'', ''repo_url'', ''api_calls_made'', ''enhanced_analysis''}"
proof -
  let ?ops = "sample_ops (PList []) default_activity"
  let ?first = "analyze_repository ?ops sample_runtime (sample_clock 1000)
                  ''octocat/Hello-World'' empty_world"
  have nl: "\<not> isl (fst ?first)" by code_simp
  then have first: "?first = (Inr (projr (fst ?first)), snd ?first)"
    by (simp add: sum.collapse(2))
  have id: "parse_repo_url sample_runtime ''octocat/Hello-World'' = Inr (''octocat'', ''Hello-World'')"
    by code_simp
  have miss: "\<not> dict_contains (cache (repo_cache empty_world)) (analysis_key ''octocat'' ''Hello-World'')"
    by (simp add: empty_world_def new_cache_def dict_contains_def dict_keys_def)
  from report_sections_present[OF first id miss]
  obtain sections where
    r: "projr (fst ?first) = PDict sections"
    and q: "section_has sections ''code_quality_metrics''
       {''test_coverage_percentage'', ''testing_framework'', ''linting_standards'',
        ''ci_cd_pipeline_status'', ''automation_scope'', ''security_vulnerabilities'',
        ''recent_workflow_results'', ''code_coverage'', ''documentation_quality'',
        ''branch_protection'', ''code_review_process''}"
    and t: "section_has sections ''technical_debt_assessment''
       {''outdated_dependencies'', ''security_implications'', ''code_complexity_hotspots'',
        ''performance_bottlenecks'', ''scalability_concerns'', ''maintenance_burden'',
        ''debt_indicators'', ''refactoring_opportunities'', ''security_features''}"
    and w: "section_has sections ''raw_data''
       {''fetched_at'', ''repo_url'', ''api_calls_made'', ''enhanced_analysis''}"
    by (elim exE conjE)
  have f: "fst ?first = Inr (PDict sections)" using nl r by (metis sum.collapse(2))
  show ?thesis
    by (rule exI[of _ sections]) (rule conjI[OF f conjI[OF q conjI[OF t w]]])
qed

text \<open>
  A repository without commits, issues, pull requests, releases and package files, whose
  tree cannot be fetched: the deep analyses are the default dicts of the deep analyzer.
  The development-activity section of its report has no field \<open>peak_development_hours\<close>,
  \<open>peak_development_days\<close> or \<open>top_contributors\<close>, and its architecture section has
  no field \<open>primary_technologies\<close>: the fields are absent, not set to a placeholder.
\<close>

theorem report_optional_fields_counterexample:
  "process_activity_deep sample_runtime (PList []) (PList []) (PList []) (PList [])
     default_activity
   = Inr [(''recent_commit_patterns'', PStr ''0 commits in last 30''),
          (''commit_frequency_per_day'', PInt 0),
          (''release_cadence'', PStr ''No releases''),
          (''open_issues_count'', PInt 0),
          (''open_pull_requests'', PInt 0),
          (''pull_request_velocity'', PStr ''Unknown''),
          (''contributor_activity'', PStr ''0 active contributors''),
          (''breaking_changes'',
             PList [PStr ''No breaking changes detected in recent commits'']),
          (''latest_release'', PNone),
          (''issue_resolution_time'', PStr ''Unknown''),
          (''commit_message_quality'', PStr ''Unknown'')] \<and>
   process_architecture_deep (sample_ops (PList []) default_activity) sample_runtime
     (PDict [(''name'', PStr ''Hello-World'')]) PNone PNone default_tree_analysis
     default_dependencies
   = Inr [(''entry_points'', PList [PStr ''No explicit entry points found'']),
          (''directory_structure'', PStr ''0 files, 0 directories''),
          (''core_dependencies'', PList []),
          (''dev_dependencies'', PList []),
          (''build_system'', PStr ''Unknown''),
          (''deployment_pipeline'', PStr ''TBD - Requires CI/CD analysis''),
          (''architecture_pattern'', PStr ''Monolithic Architecture''),
          (''data_flow_analysis'',
             PStr ''Repository structure: 0 directories, 0 files, max depth: 0''),
          (''scalability_assessment'', PStr ''Modular structure with 0 modules''),
          (''performance_considerations'',
             PStr ''Dependencies: 0 total packages across 0 package managers'')]"
  by code_simp

text \<open>
  Claim C6 (contract of the timeout guard), as the code has it. Let the worker thread
  start. When the work ends within the budget, the guard returns the work's own result
  if it returned one; if it raised an \<open>Exception\<close> whose truth value is true and whose
  \<open>str\<close> returns, the guard returns the dict with that message under \<open>error\<close> and
  \<open>partial: True\<close>; if it raised something that is not an \<open>Exception\<close>, the thread ends
  uncaught and the guard returns \<open>None\<close>. When the work has not ended within the
  budget, or never ends, the guard returns the dict with the timeout message under
  \<open>error\<close> and \<open>partial: True\<close>. The guard itself raises in these cases and no other:
  \<open>thread.start()\<close> raises, or the work ended within the budget with a caught
  exception whose truth value raises, or whose truth value is true and whose \<open>str\<close>
  raises.
\<close>

theorem timeout_guard_contract:
  "(start_error w = None \<longrightarrow>
      (\<forall>d v. ends_after w = Some d \<and> d \<le> of_nat seconds \<and> outcome w = Returns v \<longrightarrow>
         timeout_wrapper seconds w = Inr v) \<and>
      (\<forall>d e msg. ends_after w = Some d \<and> d \<le> of_nat seconds \<and> outcome w = Raises e \<and>
           is_Exception e \<and> truth_value e = Inr True \<and> str_value e = Inr msg \<longrightarrow>
         timeout_wrapper seconds w =
           Inr (PDict [(''error'', PStr msg), (''partial'', PBool True)])) \<and>
      (\<forall>d e. ends_after w = Some d \<and> d \<le> of_nat seconds \<and> outcome w = Raises e \<and>
           \<not> is_Exception e \<longrightarrow>
         timeout_wrapper seconds w = Inr PNone) \<and>
      (ends_after w = None \<or> (\<exists>d. ends_after w = Some d \<and> of_nat seconds < d) \<longrightarrow>
         timeout_wrapper seconds w =
           Inr (PDict [(''error'',
                          PStr (''Analysis timeout after '' @ str_nat seconds @ '' seconds'')),
                       (''partial'', PBool True)]))) \<and>
   (\<forall>err. timeout_wrapper seconds w = Inl err \<longleftrightarrow>
      start_error w = Some err \<or>
      (start_error w = None \<and>
       (\<exists>d e. ends_after w = Some d \<and> d \<le> of_nat seconds \<and> outcome w = Raises e \<and>
          is_Exception e \<and>
          (truth_value e = Inl err \<or> (truth_value e = Inr True \<and> str_value e = Inl err)))))"
proof (intro conjI impI allI)
  fix d v
  assume "start_error w = None"
    and "ends_after w = Some d \<and> d \<le> of_nat seconds \<and> outcome w = Returns v"
  then show "timeout_wrapper seconds w = Inr v"
    by (simp add: timeout_wrapper_def thread_is_alive_def target_def)
next
  fix d e msg
  assume "start_error w = None"
    and "ends_after w = Some d \<and> d \<le> of_nat seconds \<and> outcome w = Raises e \<and>
           is_Exception e \<and> truth_value e = Inr True \<and> str_value e = Inr msg"
  then show "timeout_wrapper seconds w =
           Inr (PDict [(''error'', PStr msg), (''partial'', PBool True)])"
    by (simp add: timeout_wrapper_def thread_is_alive_def target_def and_then_def)
next
  fix d e
  assume "start_error w = None"
    and "ends_after w = Some d \<and> d \<le> of_nat seconds \<and> outcome w = Raises e \<and>
           \<not> is_Exception e"
  then show "timeout_wrapper seconds w = Inr PNone"
    by (simp add: timeout_wrapper_def thread_is_alive_def target_def)
next
  assume "start_error w = None"
    and "ends_after w = None \<or> (\<exists>d. ends_after w = Some d \<and> of_nat seconds < d)"
  then show "timeout_wrapper seconds w =
           Inr (PDict [(''error'',
                          PStr (''Analysis timeout after '' @ str_nat seconds @ '' seconds'')),
                       (''partial'', PBool True)])"
    by (auto simp add: timeout_wrapper_def thread_is_alive_def)
next
  fix err
  show "timeout_wrapper seconds w = Inl err \<longleftrightarrow>
      start_error w = Some err \<or>
      (start_error w = None \<and>
       (\<exists>d e. ends_after w = Some d \<and> d \<le> of_nat seconds \<and> outcome w = Raises e \<and>
          is_Exception e \<and>
          (truth_value e = Inl err \<or> (truth_value e = Inr True \<and> str_value e = Inl err))))"
  proof (cases "start_error w")
    case (Some err')
    then show ?thesis by (simp add: timeout_wrapper_def)
  next
    case None
    show ?thesis
    proof (cases "thread_is_alive seconds w")
      case True
      then show ?thesis using None
        by (auto simp add: timeout_wrapper_def thread_is_alive_def split: option.splits)
    next
      case False
      then obtain d where d: "ends_after w = Some d" "d \<le> of_nat seconds"
        by (auto simp add: thread_is_alive_def split: option.splits)
      show ?thesis
      proof (cases "outcome w")
        case (Returns v)
        then show ?thesis using None False
          by (simp add: timeout_wrapper_def target_def)
      next
        case (Raises e)
        show ?thesis
        proof (cases "is_Exception e")
          case no: False
          then show ?thesis using None False Raises
            by (simp add: timeout_wrapper_def target_def)
        next
          case yes: True
          have tw: "timeout_wrapper seconds w =
              and_then (truth_value e) (\<lambda>raised.
                   if raised
                   then and_then (str_value e) (\<lambda>msg.
                          Inr (PDict [(''error'', PStr msg), (''partial'', PBool True)]))
                   else Inr PNone)"
            using None False Raises yes
            by (simp add: timeout_wrapper_def target_def cong: if_cong)
          show ?thesis
          proof (cases "truth_value e")
            case (Inl x)
            then show ?thesis using None d Raises yes unfolding tw
              by (auto simp add: and_then_def)
          next
            case (Inr b)
            show ?thesis
            proof (cases b)
              case True
              then show ?thesis using None d Raises yes Inr unfolding tw
                by (cases "str_value e") (auto simp add: and_then_def)
            next
              case False
              then show ?thesis using None d Raises yes Inr unfolding tw
                by (auto simp add: and_then_def)
            qed
          qed
        qed
      qed
    qed
  qed
qed

text \<open>
  The theorem at a budget of 5 seconds: works that end after 2 seconds, returning or
  raising \<open>ValueError('boom')\<close>, a work that ends after 9 seconds, and one that never
  ends; none of these calls raises.
\<close>

theorem timeout_guard_contract_witness:
  "timeout_wrapper 5 \<lparr>start_error = None, ends_after = Some 2, outcome = Returns (PInt 7)\<rparr>
     = Inr (PInt 7) \<and>
   timeout_wrapper 5
     \<lparr>start_error = None, ends_after = Some 2,
      outcome = Raises \<lparr>is_Exception = True, truth_value = Inr True, str_value = Inr ''boom''\<rparr>\<rparr>
     = Inr (PDict [(''error'', PStr ''boom''), (''partial'', PBool True)]) \<and>
   timeout_wrapper 5 \<lparr>start_error = None, ends_after = Some 9, outcome = Returns (PInt 7)\<rparr>
     = Inr (PDict [(''error'', PStr ''Analysis timeout after 5 seconds''),
                   (''partial'', PBool True)]) \<and>
   timeout_wrapper 5 \<lparr>start_error = None, ends_after = None, outcome = Returns (PInt 7)\<rparr>
     = Inr (PDict [(''error'', PStr ''Analysis timeout after 5 seconds''),
                   (''partial'', PBool True)])"
proof -
  let ?boom = "\<lparr>is_Exception = True, truth_value = Inr True, str_value = Inr ''boom''\<rparr>"
  let ?w1 = "\<lparr>start_error = None, ends_after = Some 2, outcome = Returns (PInt 7)\<rparr>"
  let ?w2 = "\<lparr>start_error = None, ends_after = Some 2, outcome = Raises ?boom\<rparr>"
  let ?w3 = "\<lparr>start_error = None, ends_after = Some 9, outcome = Returns (PInt 7)\<rparr>"
  let ?w4 = "\<lparr>start_error = None, ends_after = None, outcome = Returns (PInt 7)\<rparr>"
  have s5: "str_nat 5 = ''5''" by code_simp
  have a: "ends_after ?w1 = Some 2 \<and> (2::rat) \<le> of_nat 5 \<and> outcome ?w1 = Returns (PInt 7)"
    by simp
  have b: "ends_after ?w2 = Some 2 \<and> (2::rat) \<le> of_nat 5 \<and> outcome ?w2 = Raises ?boom \<and>
      is_Exception ?boom \<and> truth_value ?boom = Inr True \<and> str_value ?boom = Inr ''boom''"
    by simp
  have c: "ends_after ?w3 = None \<or> (\<exists>d. ends_after ?w3 = Some d \<and> of_nat 5 < d)" by simp
  have d: "ends_after ?w4 = None \<or> (\<exists>d. ends_after ?w4 = Some d \<and> of_nat 5 < d)" by simp
  have n1: "start_error ?w1 = None" and n2: "start_error ?w2 = None"
    and n3: "start_error ?w3 = None" and n4: "start_error ?w4 = None" by simp_all
  note t1 = timeout_guard_contract[of ?w1 5, THEN conjunct1, rule_format, OF n1]
  note t2 = timeout_guard_contract[of ?w2 5, THEN conjunct1, rule_format, OF n2]
  note t3 = timeout_guard_contract[of ?w3 5, THEN conjunct1, rule_format, OF n3]
  note t4 = timeout_guard_contract[of ?w4 5, THEN conjunct1, rule_format, OF n4]
  have 1: "timeout_wrapper 5 ?w1 = Inr (PInt 7)"
    by (rule t1[THEN conjunct1, rule_format, OF a])
  have 2: "timeout_wrapper 5 ?w2 = Inr (PDict [(''error'', PStr ''boom''), (''partial'', PBool True)])"
    by (rule t2[THEN conjunct2, THEN conjunct1, rule_format, OF b])
  have 3: "timeout_wrapper 5 ?w3 =
     Inr (PDict [(''error'', PStr (''Analysis timeout after '' @ str_nat 5 @ '' seconds'')),
                 (''partial'', PBool True)])"
    by (rule t3[THEN conjunct2, THEN conjunct2, THEN conjunct2, rule_format, OF c])
  have 4: "timeout_wrapper 5 ?w4 =
     Inr (PDict [(''error'', PStr (''Analysis timeout after '' @ str_nat 5 @ '' seconds'')),
                 (''partial'', PBool True)])"
    by (rule t4[THEN conjunct2, THEN conjunct2, THEN conjunct2, rule_format, OF d])
  show ?thesis using 1 2 3 4 by (simp add: s5)
qed

text \<open>
  The claim as written fails at four units of work that end after 2 seconds of a budget
  of 5. When \<open>thread.start()\<close> raises \<open>RuntimeError\<close>, and when the work raises an
  exception whose \<open>__str__\<close> raises \<open>TypeError\<close>, the guard raises. When the work raises
  an exception whose class gives it a false truth value (a \<open>__len__\<close> that returns 0),
  \<open>if exception[0]:\<close> is not taken and the guard returns \<open>result[0]\<close>, which is \<open>None\<close>:
  no \<open>error\<close>, no \<open>partial\<close>. When the work raises \<open>SystemExit\<close>, which
  \<open>except Exception\<close> does not catch, the guard returns \<open>None\<close> as well.
\<close>

theorem timeout_guard_counterexample:
  "timeout_wrapper 5
     \<lparr>start_error = Some RuntimeError, ends_after = Some 2, outcome = Returns (PInt 7)\<rparr>
     = Inl RuntimeError \<and>
   timeout_wrapper 5
     \<lparr>start_error = None, ends_after = Some 2,
      outcome = Raises \<lparr>is_Exception = True, truth_value = Inr True,
                        str_value = Inl TypeError\<rparr>\<rparr>
     = Inl TypeError \<and>
   timeout_wrapper 5
     \<lparr>start_error = None, ends_after = Some 2,
      outcome = Raises \<lparr>is_Exception = True, truth_value = Inr False,
                        str_value = Inr ''boom''\<rparr>\<rparr>
     = Inr PNone \<and>
   timeout_wrapper 5
     \<lparr>start_error = None, ends_after = Some 2,
      outcome = Raises \<lparr>is_Exception = False, truth_value = Inr True,
                        str_value = Inr ''0''\<rparr>\<rparr>
     = Inr PNone"
  by (simp add: timeout_wrapper_def thread_is_alive_def target_def and_then_def)


end
